(* ===== verification/Karkain_Prelude.thy ===== *)
theory Karkain_Prelude
  imports Main "HOL-Library.Word"
begin

text \<open>
  The shared part of the library: names for the machine types the Go sources use, the
  conversions between Go strings and byte slices, the collections of simplification rules the
  component theories fill (\<open>leb_simps\<close>, \<open>reader_simps\<close>, \<open>ssa_simps\<close>), and the
  generic lemmas on lists and words that more than one component needs.

  Go's \<open>string\<close> is a sequence of bytes; it is modelled by \<^typ>\<open>string\<close>, whose
  characters are exactly the 256 byte values, and \<open>byte_of_char\<close>/\<open>char_of_byte\<close> convert
  between the two views.  A Go \<open>[]byte\<close> is a list of \<open>8 word\<close>.
\<close>

section \<open>Machine types\<close>

unbundle bit_operations_syntax

type_synonym byte = "8 word"
type_synonym u16 = "16 word"
type_synonym u32 = "32 word"
type_synonym u64 = "64 word"

text \<open>A Go \<open>int64\<close> is a 64-bit word read with \<^const>\<open>sint\<close>; a \<open>float64\<close> is carried as
  its IEEE-754 bit pattern, which is what \<open>math.Float64bits\<close> returns.\<close>

type_synonym i64 = "64 word"
type_synonym f64 = "64 word"

named_theorems leb_simps \<open>one step of the LEB128 loops\<close>
named_theorems reader_simps \<open>reading back what a writer appended\<close>
named_theorems ssa_simps \<open>frame facts about the passes over SSA functions\<close>

section \<open>Strings and bytes\<close>

definition byte_of_char :: "char \<Rightarrow> byte" where
  "byte_of_char c = of_nat (of_char c)"

definition char_of_byte :: "byte \<Rightarrow> char" where
  "char_of_byte b = char_of (unat b)"

lemma char_of_byte_of_char [simp]: "char_of_byte (byte_of_char c) = c"
proof -
  have "(of_char c :: nat) < 256"
    by simp
  then have "unat (of_nat (of_char c) :: byte) = of_char c"
    by (simp add: unat_of_nat)
  then show ?thesis
    by (simp add: char_of_byte_def byte_of_char_def)
qed

lemma byte_of_char_of_byte [simp]: "byte_of_char (char_of_byte b) = b"
proof -
  have "unat b < 256"
    using unsigned_less [of b, where 'a = nat] by simp
  then show ?thesis
    by (simp add: byte_of_char_def char_of_byte_def)
qed

abbreviation bytes_of :: "string \<Rightarrow> byte list" where
  "bytes_of s \<equiv> map byte_of_char s"

abbreviation string_of :: "byte list \<Rightarrow> string" where
  "string_of bs \<equiv> map char_of_byte bs"

lemma string_of_bytes_of [simp]: "string_of (bytes_of s) = s"
  by (simp add: comp_def)

section \<open>Words\<close>

lemma drop_bit_word_less:
  fixes v :: "'a::len word"
  assumes "drop_bit n v \<noteq> 0" and "0 < n"
  shows "unat (drop_bit n v) < unat v"
proof -
  from assms(1) have "v \<noteq> 0" by auto
  then have pos: "0 < unat v" by (simp add: unat_gt_0)
  have "unat (drop_bit n v) = drop_bit n (unat v)"
    by (rule unat_drop_bit_eq)
  also have "\<dots> = unat v div 2 ^ n"
    by (rule drop_bit_eq_div)
  also have "\<dots> < unat v"
  proof (rule div_less_dividend [OF _ pos])
    show "1 < (2 :: nat) ^ n"
      by (rule one_less_power) (use assms(2) in auto)
  qed
  finally show ?thesis .
qed

text \<open>The masks of the LEB128 loops, as bit operations the library reasons about.\<close>

lemma and_0x7f: "(v :: 'a::len word) AND 0x7f = take_bit 7 v"
  by (simp add: take_bit_eq_mask mask_eq_exp_minus_1)

lemma and_0x40: "(v :: 'a::len word) AND 0x40 = 0 \<longleftrightarrow> \<not> bit v 6"
  using and_exp_eq_0_iff_not_bit [of v 6] by simp

lemma and_0x80: "(v :: 'a::len word) AND 0x80 = 0 \<longleftrightarrow> \<not> bit v 7"
  using and_exp_eq_0_iff_not_bit [of v 7] by simp

lemma or_0x80: "(v :: 'a::len word) OR 0x80 = set_bit 7 v"
  by (simp add: set_bit_eq_or push_bit_eq_mult)

lemmas leb_masks = and_0x7f and_0x40 and_0x80 or_0x80

section \<open>Lists\<close>

lemma take_length_append [simp]: "take (length xs) (drop (length ps) (ps @ xs @ ys)) = xs"
  by simp

text \<open>
  A prefix code: an encoder whose output, followed by anything, is decoded back to the value and
  to the number of bytes it took.  What a stream of such values needs (nothing is lost, and one
  encoding is never the beginning of another) follows from that law alone.
\<close>

locale prefix_code =
  fixes enc :: "'v \<Rightarrow> byte list"
    and dec :: "byte list \<Rightarrow> 'v \<times> nat"
  assumes dec_enc: "dec (enc v @ rest) = (v, length (enc v))"
begin

lemma enc_prefix_free:
  assumes "enc v @ r = enc w @ s"
  shows "v = w \<and> r = s"
proof -
  have "(v, length (enc v)) = (w, length (enc w))"
    using dec_enc [of v r] dec_enc [of w s] assms by simp
  then show ?thesis using assms by simp
qed

lemma enc_inj: "enc v = enc w \<Longrightarrow> v = w"
  using enc_prefix_free [of v "[]" w "[]"] by simp

fun dec_many :: "nat \<Rightarrow> byte list \<Rightarrow> 'v list" where
  "dec_many 0 bs = []"
| "dec_many (Suc n) bs = (case dec bs of (v, k) \<Rightarrow> v # dec_many n (drop k bs))"

lemma dec_many_concat: "dec_many (length vs) (concat (map enc vs) @ rest) = vs"
  by (induction vs) (simp_all add: dec_enc)

end

end
