(* ===== verification/Leb128.thy ===== *)
theory Leb128
  imports Karkain_Prelude
begin

text \<open>
  The two LEB128 implementations of the compiler: \<open>appendUleb\<close>/\<open>appendSleb\<close> of the
  WebAssembly writer (pkg/wasm/module.go) and \<open>uleb\<close>/\<open>sleb\<close> with their readers
  \<open>readUleb\<close>/\<open>readSleb\<close> of the DWARF emitter and parser (pkg/codegen/dwarf.go,
  dwarf_parse.go).  The theory proves that the loops end, that the readers invert the writers
  whatever follows in the stream, and that the two writers produce the same bytes.
\<close>

section \<open>The writers\<close>

function appendUleb :: "byte list \<Rightarrow> u64 \<Rightarrow> byte list" where
  "appendUleb dst v =
     (let c = (ucast (v AND 0x7f) :: byte);
          v' = drop_bit 7 v;
          c' = (if v' \<noteq> 0 then c OR 0x80 else c);
          dst' = dst @ [c']
      in if v' = 0 then dst' else appendUleb dst' v')"
  by pat_completeness auto
termination
  by (relation "measure (\<lambda>(dst, v). unat v)") (auto intro: drop_bit_word_less)

function uleb_loop :: "byte list \<Rightarrow> u64 \<Rightarrow> byte list" where
  "uleb_loop out v =
     (let b = (ucast (v AND 0x7f) :: byte);
          v' = drop_bit 7 v;
          b' = (if v' \<noteq> 0 then b OR 0x80 else b);
          out' = out @ [b']
      in if v' = 0 then out' else uleb_loop out' v')"
  by pat_completeness auto
termination
  by (relation "measure (\<lambda>(out, v). unat v)") (auto intro: drop_bit_word_less)

definition uleb :: "u64 \<Rightarrow> byte list" where
  "uleb v = uleb_loop [] v"

text \<open>The signed loops stop once the arithmetic shift has reached 0 or -1.  The shifted value has
  its distance from that pair halved seven times in each round, which bounds the loop.\<close>

definition sleb_dist :: "i64 \<Rightarrow> nat" where
  "sleb_dist v = (if 0 \<le> sint v then nat (sint v) else nat (- 1 - sint v))"

lemma sleb_dist_shift:
  assumes "signed_drop_bit 7 v \<noteq> v"
  shows "sleb_dist (signed_drop_bit 7 v) < sleb_dist v"
proof -
  have d: "sint (signed_drop_bit 7 v) = sint v div 128"
    by (simp add: sint_signed_drop_bit_eq drop_bit_eq_div)
  have "sint (signed_drop_bit 7 v) \<noteq> sint v"
    using assms by (metis signed_word_eqI)
  with d have "sint v \<noteq> 0" and "sint v \<noteq> -1" by auto
  with d show ?thesis
    by (auto simp: sleb_dist_def nat_less_iff div_int_pos_iff)
qed

lemma sleb_shift_fixpoint:
  fixes v :: i64
  assumes "signed_drop_bit 7 v = v"
  shows "v = 0 \<or> v = -1"
proof -
  have "sint v = sint v div 128"
    using arg_cong [OF assms, of sint]
    by (simp add: sint_signed_drop_bit_eq drop_bit_eq_div)
  then have "sint v = 0 \<or> sint v = -1"
    by linarith
  then show ?thesis
    by (auto intro!: signed_word_eqI [where 'a = int])
qed

definition appendSleb_done :: "i64 \<Rightarrow> bool" where
  "appendSleb_done v \<longleftrightarrow>
     (v AND 0x40 = 0 \<and> signed_drop_bit 7 v = 0) \<or> (v AND 0x40 \<noteq> 0 \<and> signed_drop_bit 7 v = -1)"

lemma not_done_shrinks:
  assumes "\<not> appendSleb_done v"
  shows "sleb_dist (signed_drop_bit 7 v) < sleb_dist v"
proof (rule sleb_dist_shift)
  show "signed_drop_bit 7 v \<noteq> v"
    using assms sleb_shift_fixpoint [of v] by (auto simp: appendSleb_done_def)
qed

function appendSleb :: "byte list \<Rightarrow> i64 \<Rightarrow> byte list" where
  "appendSleb dst v =
     (let c = (ucast (v AND 0x7f) :: byte);
          done = appendSleb_done v;
          c' = (if \<not> done then c OR 0x80 else c);
          dst' = dst @ [c']
      in if done then dst' else appendSleb dst' (signed_drop_bit 7 v))"
  by pat_completeness auto
termination
  by (relation "measure (\<lambda>(dst, v). sleb_dist v)") (auto intro: not_done_shrinks)

definition sleb_last :: "i64 \<Rightarrow> byte \<Rightarrow> bool" where
  "sleb_last v' sign \<longleftrightarrow> (v' = 0 \<and> sign = 0) \<or> (v' = -1 \<and> sign \<noteq> 0)"

lemma sign_bit_ucast:
  fixes v :: i64
  shows "(ucast (v AND 0x7f) :: byte) AND 0x40 = 0 \<longleftrightarrow> v AND 0x40 = 0"
  by (simp add: leb_masks bit_simps)

lemma sleb_last_done:
  "sleb_last (signed_drop_bit 7 v) ((ucast (v AND 0x7f) :: byte) AND 0x40) = appendSleb_done v"
  by (auto simp: sleb_last_def appendSleb_done_def sign_bit_ucast)

function sleb_loop :: "byte list \<Rightarrow> i64 \<Rightarrow> byte list" where
  "sleb_loop out v =
     (let b = (ucast (v AND 0x7f) :: byte);
          sign = b AND 0x40;
          v' = signed_drop_bit 7 v
      in if sleb_last v' sign then out @ [b] else sleb_loop (out @ [b OR 0x80]) v')"
  by pat_completeness auto
termination
  by (relation "measure (\<lambda>(out, v). sleb_dist v)")
    (auto simp: sleb_last_done intro: not_done_shrinks)

definition sleb :: "i64 \<Rightarrow> byte list" where
  "sleb v = sleb_loop [] v"

section \<open>The readers\<close>

text \<open>A shift by 64 or more gives 0 in Go, as \<^const>\<open>push_bit\<close> does on a word.  When the slice ends
  before a byte without its continuation bit, the readers return what they have and the length of
  the slice.\<close>

fun readUleb_loop :: "byte list \<Rightarrow> nat \<Rightarrow> nat \<Rightarrow> u64 \<Rightarrow> u64 \<times> nat" where
  "readUleb_loop [] i shift result = (result, i)"
| "readUleb_loop (b # bs) i shift result =
     (let result' = result OR push_bit shift (ucast (b AND 0x7f))
      in if b AND 0x80 = 0 then (result', i + 1) else readUleb_loop bs (i + 1) (shift + 7) result')"

definition readUleb :: "byte list \<Rightarrow> u64 \<times> nat" where
  "readUleb data = readUleb_loop data 0 0 0"

fun readSleb_loop :: "byte list \<Rightarrow> nat \<Rightarrow> nat \<Rightarrow> i64 \<Rightarrow> i64 \<times> nat" where
  "readSleb_loop [] i shift result = (result, i)"
| "readSleb_loop (b # bs) i shift result =
     (let result' = result OR push_bit shift (ucast (b AND 0x7f));
          shift' = shift + 7
      in if b AND 0x80 = 0
         then (if b AND 0x40 \<noteq> 0 then result' OR push_bit shift' (NOT 0) else result', i + 1)
         else readSleb_loop bs (i + 1) shift' result')"

definition readSleb :: "byte list \<Rightarrow> i64 \<times> nat" where
  "readSleb data = readSleb_loop data 0 0 0"

section \<open>Recursion equations of the writers\<close>

declare appendUleb.simps [simp del] uleb_loop.simps [simp del]
  appendSleb.simps [simp del] sleb_loop.simps [simp del]

lemma uleb_loop_append: "uleb_loop (ys @ out) v = ys @ uleb_loop out v"
proof (induction out v rule: uleb_loop.induct)
  case (1 out v)
  then show ?case
    by (simp add: uleb_loop.simps [of "ys @ out"] uleb_loop.simps [of out] Let_def)
qed

lemma uleb_rec:
  "uleb v = (if drop_bit 7 v = 0 then [ucast (v AND 0x7f)]
             else (ucast (v AND 0x7f) OR 0x80) # uleb (drop_bit 7 v))"
  using uleb_loop_append [of "[ucast (v AND 0x7f) OR 0x80]" "[]" "drop_bit 7 v"]
  by (simp add: uleb_def uleb_loop.simps [of "[]" v] Let_def)

lemma uleb_nonempty [simp]: "uleb v \<noteq> []"
  by (subst uleb_rec) simp

lemma uleb_small: "drop_bit 7 v = 0 \<Longrightarrow> uleb v = [ucast (v AND 0x7f)]"
  by (subst uleb_rec) simp

lemma appendUleb_uleb: "appendUleb dst v = dst @ uleb v"
proof (induction dst v rule: appendUleb.induct)
  case (1 dst v)
  then show ?case
    by (simp add: appendUleb.simps [of dst] uleb_rec [of v] Let_def)
qed

lemma sleb_loop_append: "sleb_loop (ys @ out) v = ys @ sleb_loop out v"
proof (induction out v rule: sleb_loop.induct)
  case (1 out v)
  then show ?case
    by (simp add: sleb_loop.simps [of "ys @ out"] sleb_loop.simps [of out] Let_def)
qed

lemma sleb_rec:
  "sleb v = (if appendSleb_done v then [ucast (v AND 0x7f)]
             else (ucast (v AND 0x7f) OR 0x80) # sleb (signed_drop_bit 7 v))"
  using sleb_loop_append [of "[ucast (v AND 0x7f) OR 0x80]" "[]" "signed_drop_bit 7 v"]
  by (simp add: sleb_def sleb_loop.simps [of "[]" v] Let_def sleb_last_done)

lemma sleb_small: "appendSleb_done v \<Longrightarrow> sleb v = [ucast (v AND 0x7f)]"
  by (subst sleb_rec) simp

lemma appendSleb_sleb: "appendSleb dst v = dst @ sleb v"
proof (induction dst v rule: appendSleb.induct)
  case (1 dst v)
  then show ?case
    by (simp add: appendSleb.simps [of dst] sleb_rec [of v] Let_def)
qed

section \<open>Reading back\<close>

lemma payload_plain [leb_simps]:
  fixes v :: u64
  shows "ucast ((ucast (v AND 0x7f) :: byte) AND 0x7f) = take_bit 7 v"
  by (rule bit_word_eqI) (auto simp: leb_masks bit_simps)

lemma payload_cont [leb_simps]:
  fixes v :: u64
  shows "ucast (((ucast (v AND 0x7f) :: byte) OR 0x80) AND 0x7f) = take_bit 7 v"
  by (rule bit_word_eqI) (auto simp: leb_masks bit_simps)

lemma cont_clear [leb_simps]:
  fixes v :: u64
  shows "(ucast (v AND 0x7f) :: byte) AND 0x80 = 0"
  by (simp add: leb_masks bit_simps)

lemma cont_set [leb_simps]:
  fixes v :: u64
  shows "((ucast (v AND 0x7f) :: byte) OR 0x80) AND 0x80 \<noteq> 0"
  by (simp add: leb_masks bit_simps)

lemma shift_past_7: "sh \<le> n \<Longrightarrow> \<not> n - sh < 7 \<Longrightarrow> 7 + (n - (sh + 7)) = n - sh"
  for n sh :: nat
  by arith

lemma split_at_7:
  fixes v :: u64
  shows "push_bit sh (take_bit 7 v) OR push_bit (sh + 7) (drop_bit 7 v) = push_bit sh v"
proof (rule bit_word_eqI)
  fix n assume "n < LENGTH(64)"
  then show "bit (push_bit sh (take_bit 7 v) OR push_bit (sh + 7) (drop_bit 7 v)) n = bit (push_bit sh v) n"
    by (cases "n - sh < 7") (auto simp: bit_simps shift_past_7)
qed

lemma split_at_7_signed:
  fixes v :: i64
  shows "push_bit sh (take_bit 7 v) OR push_bit (sh + 7) (signed_drop_bit 7 v) = push_bit sh v"
proof (rule bit_word_eqI)
  fix n assume "n < LENGTH(64)"
  then show "bit (push_bit sh (take_bit 7 v) OR push_bit (sh + 7) (signed_drop_bit 7 v)) n = bit (push_bit sh v) n"
    by (cases "n - sh < 7") (auto simp: bit_simps shift_past_7)
qed

lemma readUleb_loop_uleb:
  "readUleb_loop (uleb v @ rest) i sh r = (r OR push_bit sh v, i + length (uleb v))"
proof (induction v arbitrary: i sh r rule: measure_induct_rule [of unat])
  case (less v)
  show ?case
  proof (cases "drop_bit 7 v = 0")
    case True
    then have "push_bit sh (take_bit 7 v) = push_bit sh v"
      using split_at_7 [of sh v] by simp
    with True show ?thesis
      by (simp add: uleb_rec [of v] leb_simps)
  next
    case False
    then have "unat (drop_bit 7 v) < unat v"
      by (intro drop_bit_word_less) auto
    note IH = less.IH [OF this]
    have "(r OR push_bit sh (take_bit 7 v)) OR push_bit (sh + 7) (drop_bit 7 v) = r OR push_bit sh v"
      by (simp add: or.assoc split_at_7)
    with False show ?thesis
      by (simp add: uleb_rec [of v] leb_simps IH)
  qed
qed

lemma sleb_done_sign:
  assumes "appendSleb_done v"
  shows "signed_drop_bit 7 v = (if bit v 6 then NOT 0 else 0)"
  using assms by (auto simp: appendSleb_done_def leb_masks)

lemma readSleb_loop_sleb:
  "readSleb_loop (sleb v @ rest) i sh r = (r OR push_bit sh v, i + length (sleb v))"
proof (induction v arbitrary: i sh r rule: measure_induct_rule [of sleb_dist])
  case (less v)
  have sign: "(ucast (v AND 0x7f) :: byte) AND 0x40 = 0 \<longleftrightarrow> \<not> bit v 6"
    by (simp only: sign_bit_ucast) (simp add: leb_masks)
  show ?case
  proof (cases "appendSleb_done v")
    case True
    have "push_bit sh (take_bit 7 v) OR push_bit (sh + 7) (if bit v 6 then NOT 0 else 0) = push_bit sh v"
      using split_at_7_signed [of sh v] sleb_done_sign [OF True] by simp
    with True show ?thesis
      by (auto simp add: sleb_rec [of v] leb_simps sign or.assoc split: if_splits)
  next
    case False
    note IH = less.IH [OF not_done_shrinks [OF False]]
    have "(r OR push_bit sh (take_bit 7 v)) OR push_bit (sh + 7) (signed_drop_bit 7 v) = r OR push_bit sh v"
      by (simp add: or.assoc split_at_7_signed)
    with False show ?thesis
      by (simp add: sleb_rec [of v] leb_simps IH)
  qed
qed

interpretation uleb_code: prefix_code uleb readUleb
  by unfold_locales (simp add: readUleb_def readUleb_loop_uleb)

interpretation sleb_code: prefix_code sleb readSleb
  by unfold_locales (simp add: readSleb_def readSleb_loop_sleb)

interpretation wasm_uleb_code: prefix_code "appendUleb []" readUleb
  by unfold_locales (simp add: appendUleb_uleb uleb_code.dec_enc)

interpretation wasm_sleb_code: prefix_code "appendSleb []" readSleb
  by unfold_locales (simp add: appendSleb_sleb sleb_code.dec_enc)

section \<open>Properties\<close>

lemma unat_drop_bit_7: "unat (drop_bit 7 (v :: u64)) = unat v div 128"
  by (simp only: unat_drop_bit_eq) (simp add: drop_bit_eq_div)

lemma drop_bit_7_zero: "drop_bit 7 (v :: u64) = 0 \<longleftrightarrow> unat v < 128"
  using unat_drop_bit_7 [of v] by (simp add: unat_eq_zero [symmetric] div_eq_0_iff del: unat_eq_zero)

lemma uleb_size:
  "1 \<le> length (uleb v) \<and> unat v < 128 ^ length (uleb v)
   \<and> (length (uleb v) = 1 \<or> 128 ^ (length (uleb v) - 1) \<le> unat v)"
proof (induction "unat v" arbitrary: v rule: less_induct)
  case less
  show ?case
  proof (cases "unat v < 128")
    case True
    then have "length (uleb v) = 1" by (subst uleb_rec) (simp add: drop_bit_7_zero)
    with True show ?thesis by simp
  next
    case False
    define w where "w = drop_bit 7 v"
    have w: "unat w = unat v div 128" by (simp add: w_def unat_drop_bit_7)
    have len: "length (uleb v) = Suc (length (uleb w))"
      using False by (subst uleb_rec) (simp add: drop_bit_7_zero w_def)
    have IH: "1 \<le> length (uleb w)" "unat w < 128 ^ length (uleb w)"
      "length (uleb w) = 1 \<or> 128 ^ (length (uleb w) - 1) \<le> unat w"
      using less [of w] False w by auto
    have "unat v < 128 ^ Suc (length (uleb w))"
      using IH(2) w by (simp add: div_less_iff_less_mult)
    moreover have "128 ^ (length (uleb w)) \<le> unat v"
    proof (cases "length (uleb w) = 1")
      case False
      then have "128 ^ (length (uleb w) - 1) \<le> unat v div 128" using IH(3) w by simp
      then have "128 ^ (length (uleb w) - 1) * 128 \<le> unat v" by linarith
      then show ?thesis using IH(1) by (cases "length (uleb w)") simp_all
    qed (use \<open>\<not> unat v < 128\<close> in simp)
    ultimately show ?thesis by (simp add: len)
  qed
qed

lemma uleb_length: "length (uleb v) \<le> 10"
proof (rule ccontr)
  assume "\<not> length (uleb v) \<le> 10"
  then have "(128 :: nat) ^ 10 \<le> 128 ^ (length (uleb v) - 1)" by (intro power_increasing) simp_all
  with uleb_size [of v] \<open>\<not> length (uleb v) \<le> 10\<close> have "128 ^ 10 \<le> unat v" by linarith
  moreover have "unat v < 2 ^ 64" using unsigned_less [of v] by simp
  ultimately show False by simp
qed

text \<open>The DWARF reader inverts the unsigned writer on every 64-bit value and whatever bytes
  follow: it returns the value and the number of bytes written.\<close>

theorem uleb_roundtrip: "readUleb (uleb v @ rest) = (v, length (uleb v))"
  by (rule uleb_code.dec_enc)

text \<open>C24. The same for the signed writer, over all of \<open>int64\<close>: the sign bit of the last byte is
  extended exactly when the value is negative.\<close>

theorem sleb_roundtrip: "readSleb (sleb v @ rest) = (v, length (sleb v))"
  by (rule sleb_code.dec_enc)

text \<open>The WebAssembly writer and the DWARF writer, two loops written separately, append the
  same bytes for every value, signed and unsigned.\<close>

theorem leb_writers_agree: "appendUleb dst v = dst @ uleb v \<and> appendSleb dst w = dst @ sleb w"
  by (simp add: appendUleb_uleb appendSleb_sleb)

text \<open>The unsigned encoding is as short as base 128 allows and never longer than ten bytes.\<close>

theorem uleb_minimal:
  "1 \<le> length (uleb v) \<and> length (uleb v) \<le> 10 \<and> unat v < 128 ^ length (uleb v)
   \<and> (length (uleb v) = 1 \<or> 128 ^ (length (uleb v) - 1) \<le> unat v)"
  using uleb_size [of v] uleb_length [of v] by simp

text \<open>A stream of numbers written one after the other is cut at the right places: two streams
  with the same bytes hold the same numbers.\<close>

theorem uleb_stream_injective:
  assumes "length vs = length ws" and "concat (map uleb vs) @ r = concat (map uleb ws) @ s"
  shows "vs = ws \<and> r = s"
proof -
  have "vs = ws"
    by (metis uleb_code.dec_many_concat assms)
  with assms show ?thesis by simp
qed

theorem uleb_stream_injective_witness:
  "concat (map uleb [624485, 3]) @ [7] \<noteq> concat (map uleb [624485, 4]) @ [7]"
proof
  assume "concat (map uleb [624485, 3]) @ [7] = concat (map uleb [624485, 4]) @ [7]"
  then have "([624485, 3] :: u64 list) = [624485, 4] \<and> ([7] :: byte list) = [7]"
    by (rule uleb_stream_injective [rotated]) simp
  then show False by simp
qed

end
