(* ===== verification/Bytecode_IO.thy ===== *)
theory Bytecode_IO
  imports Karkain_Prelude "HOL-Library.State_Monad"
begin

text \<open>
  The byte-level half of the \<open>.kbc\<close> serializer (pkg/ir/bytecode.go): the \<open>Writer\<close> and
  \<open>Reader\<close> primitives.  A writer is its buffer (the \<open>pos\<close> field of the Go struct is never
  read or written).  A reader is a record of the data and the position; every \<open>Read\<close> method
  returns the value or the EOF error together with the reader it leaves behind.  The callers in
  this file drop the error (\<open>v, _ := r.ReadX()\<close>) and go on with the zero value; \<open>rd\<close>
  is that idiom in the state monad.

  The interface the module-level code relies on is the locale \<open>codec\<close>: a write function that
  only appends and a reader that consumes exactly what was written.
\<close>

section \<open>Writer\<close>

type_synonym writer = "byte list"

definition MaxStringLen :: nat where
  "MaxStringLen = 65535"

definition WriteByteVal :: "writer \<Rightarrow> byte \<Rightarrow> writer" where
  "WriteByteVal w b = w @ [b]"

definition WriteUint16 :: "writer \<Rightarrow> u16 \<Rightarrow> writer" where
  "WriteUint16 w v = w @ [ucast v, ucast (drop_bit 8 v)]"

definition WriteUint32 :: "writer \<Rightarrow> u32 \<Rightarrow> writer" where
  "WriteUint32 w v =
     w @ [ucast v, ucast (drop_bit 8 v), ucast (drop_bit 16 v), ucast (drop_bit 24 v)]"

text \<open>The shifts of \<open>WriteInt64\<close> and \<open>WriteInt32\<close> are arithmetic: their operand is signed.\<close>

definition WriteInt64 :: "writer \<Rightarrow> i64 \<Rightarrow> writer" where
  "WriteInt64 w v =
     w @ [ucast v, ucast (signed_drop_bit 8 v), ucast (signed_drop_bit 16 v),
          ucast (signed_drop_bit 24 v), ucast (signed_drop_bit 32 v), ucast (signed_drop_bit 40 v),
          ucast (signed_drop_bit 48 v), ucast (signed_drop_bit 56 v)]"

definition WriteUint64 :: "writer \<Rightarrow> u64 \<Rightarrow> writer" where
  "WriteUint64 w v =
     w @ [ucast v, ucast (drop_bit 8 v), ucast (drop_bit 16 v), ucast (drop_bit 24 v),
          ucast (drop_bit 32 v), ucast (drop_bit 40 v), ucast (drop_bit 48 v), ucast (drop_bit 56 v)]"

definition WriteFloat64 :: "writer \<Rightarrow> f64 \<Rightarrow> writer" where
  "WriteFloat64 w v = WriteUint64 w v"

definition WriteInt32 :: "writer \<Rightarrow> 32 word \<Rightarrow> writer" where
  "WriteInt32 w v =
     w @ [ucast v, ucast (signed_drop_bit 8 v), ucast (signed_drop_bit 16 v),
          ucast (signed_drop_bit 24 v)]"

definition WriteString :: "writer \<Rightarrow> string \<Rightarrow> writer" where
  "WriteString w s =
     (let s' = (if length s > MaxStringLen then take MaxStringLen s else s)
      in WriteUint16 w (of_nat (length s')) @ bytes_of s')"

definition boolToByte :: "bool \<Rightarrow> byte" where
  "boolToByte b = (if b then 1 else 0)"

lemmas write_defs = WriteByteVal_def WriteUint16_def WriteUint32_def WriteInt64_def WriteUint64_def
  WriteFloat64_def WriteInt32_def

section \<open>Reader\<close>

record reader =
  rdata :: "byte list"
  rpos :: nat

datatype io_error = ErrUnexpectedEOF

definition ReadByte :: "reader \<Rightarrow> (io_error + byte) \<times> reader" where
  "ReadByte r =
     (if rpos r \<ge> length (rdata r) then (Inl ErrUnexpectedEOF, r)
      else (Inr (rdata r ! rpos r), r\<lparr>rpos := rpos r + 1\<rparr>))"

definition ReadBytes :: "nat \<Rightarrow> reader \<Rightarrow> (io_error + byte list) \<times> reader" where
  "ReadBytes n r =
     (if rpos r + n > length (rdata r) then (Inl ErrUnexpectedEOF, r)
      else (Inr (take n (drop (rpos r) (rdata r))), r\<lparr>rpos := rpos r + n\<rparr>))"

definition ReadUint16 :: "reader \<Rightarrow> (io_error + u16) \<times> reader" where
  "ReadUint16 r =
     (case ReadBytes 2 r of
        (Inl e, r') \<Rightarrow> (Inl e, r')
      | (Inr b, r') \<Rightarrow> (Inr (ucast (b ! 0) OR push_bit 8 (ucast (b ! 1))), r'))"

definition ReadUint32 :: "reader \<Rightarrow> (io_error + u32) \<times> reader" where
  "ReadUint32 r =
     (case ReadBytes 4 r of
        (Inl e, r') \<Rightarrow> (Inl e, r')
      | (Inr b, r') \<Rightarrow>
          (Inr (ucast (b ! 0) OR push_bit 8 (ucast (b ! 1)) OR push_bit 16 (ucast (b ! 2))
                OR push_bit 24 (ucast (b ! 3))), r'))"

definition ReadUint64 :: "reader \<Rightarrow> (io_error + u64) \<times> reader" where
  "ReadUint64 r =
     (case ReadBytes 8 r of
        (Inl e, r') \<Rightarrow> (Inl e, r')
      | (Inr b, r') \<Rightarrow>
          (Inr (ucast (b ! 0) OR push_bit 8 (ucast (b ! 1)) OR push_bit 16 (ucast (b ! 2))
                OR push_bit 24 (ucast (b ! 3)) OR push_bit 32 (ucast (b ! 4))
                OR push_bit 40 (ucast (b ! 5)) OR push_bit 48 (ucast (b ! 6))
                OR push_bit 56 (ucast (b ! 7))), r'))"

text \<open>\<open>ReadInt64\<close> combines the same eight bytes, converted to \<open>int64\<close> first.\<close>

definition ReadInt64 :: "reader \<Rightarrow> (io_error + i64) \<times> reader" where
  "ReadInt64 r =
     (case ReadBytes 8 r of
        (Inl e, r') \<Rightarrow> (Inl e, r')
      | (Inr b, r') \<Rightarrow>
          (Inr (ucast (b ! 0) OR push_bit 8 (ucast (b ! 1)) OR push_bit 16 (ucast (b ! 2))
                OR push_bit 24 (ucast (b ! 3)) OR push_bit 32 (ucast (b ! 4))
                OR push_bit 40 (ucast (b ! 5)) OR push_bit 48 (ucast (b ! 6))
                OR push_bit 56 (ucast (b ! 7))), r'))"

definition ReadFloat64 :: "reader \<Rightarrow> (io_error + f64) \<times> reader" where
  "ReadFloat64 r = ReadUint64 r"

definition ReadString :: "reader \<Rightarrow> (io_error + string) \<times> reader" where
  "ReadString r =
     (case ReadUint16 r of
        (Inl e, r1) \<Rightarrow> (Inl e, r1)
      | (Inr n, r1) \<Rightarrow>
          (case ReadBytes (unat n) r1 of
             (Inl e, r2) \<Rightarrow> (Inl e, r2)
           | (Inr b, r2) \<Rightarrow> (Inr (string_of b), r2)))"

text \<open>\<open>v, _ := r.ReadX()\<close>: the error is dropped, the value is the zero value of its type.\<close>

definition rd :: "'a \<Rightarrow> (reader \<Rightarrow> (io_error + 'a) \<times> reader) \<Rightarrow> (reader, 'a) state" where
  "rd zero f = State (\<lambda>r. case f r of (Inl _, r') \<Rightarrow> (zero, r') | (Inr v, r') \<Rightarrow> (v, r'))"

abbreviation rdByte :: "(reader, byte) state" where "rdByte \<equiv> rd 0 ReadByte"
abbreviation rdUint16 :: "(reader, u16) state" where "rdUint16 \<equiv> rd 0 ReadUint16"
abbreviation rdUint32 :: "(reader, u32) state" where "rdUint32 \<equiv> rd 0 ReadUint32"
abbreviation rdInt64 :: "(reader, i64) state" where "rdInt64 \<equiv> rd 0 ReadInt64"
abbreviation rdFloat64 :: "(reader, f64) state" where "rdFloat64 \<equiv> rd 0 ReadFloat64"
abbreviation rdString :: "(reader, string) state" where "rdString \<equiv> rd [] ReadString"

text \<open>\<open>for i := 0; i < n; i++\<close> filling a slice of length \<open>n\<close>.\<close>

primrec rep_read :: "nat \<Rightarrow> (reader, 'a) state \<Rightarrow> (reader, 'a list) state" where
  "rep_read 0 m = State_Monad.return []"
| "rep_read (Suc n) m = do { x \<leftarrow> m; xs \<leftarrow> rep_read n m; State_Monad.return (x # xs) }"

section \<open>Reading back what was written\<close>

definition reads :: "(reader, 'a) state \<Rightarrow> byte list \<Rightarrow> 'a \<Rightarrow> bool" where
  "reads m bs x \<longleftrightarrow>
     (\<forall>pre post. run_state m \<lparr>rdata = pre @ bs @ post, rpos = length pre\<rparr>
        = (x, \<lparr>rdata = pre @ bs @ post, rpos = length pre + length bs\<rparr>))"

lemma reads_return: "bs = [] \<Longrightarrow> reads (State_Monad.return x) bs x"
  by (simp add: reads_def)

lemma reads_bind:
  assumes "reads m bs1 x" and "reads (f x) bs2 y"
  shows "reads (m \<bind> f) (bs1 @ bs2) y"
  unfolding reads_def
proof (intro allI)
  fix pre post
  have "run_state (f x) \<lparr>rdata = (pre @ bs1) @ bs2 @ post, rpos = length (pre @ bs1)\<rparr>
      = (y, \<lparr>rdata = (pre @ bs1) @ bs2 @ post, rpos = length (pre @ bs1) + length bs2\<rparr>)"
    using assms(2) unfolding reads_def by blast
  moreover have "run_state m \<lparr>rdata = pre @ bs1 @ bs2 @ post, rpos = length pre\<rparr>
      = (x, \<lparr>rdata = pre @ bs1 @ bs2 @ post, rpos = length pre + length bs1\<rparr>)"
    using assms(1) unfolding reads_def by blast
  ultimately show "run_state (m \<bind> f) \<lparr>rdata = pre @ (bs1 @ bs2) @ post, rpos = length pre\<rparr>
      = (y, \<lparr>rdata = pre @ (bs1 @ bs2) @ post, rpos = length pre + length (bs1 @ bs2)\<rparr>)"
    by (simp add: State_Monad.bind_def add.assoc)
qed

lemma reads_bind_last:
  assumes "reads m bs x" and "f x = y"
  shows "reads (m \<bind> (\<lambda>x. State_Monad.return (f x))) bs y"
  using reads_bind [of m bs x "\<lambda>x. State_Monad.return (f x)" "[]" y] assms
  by (simp add: reads_return)

lemma reads_rep:
  assumes "list_all2 (reads m) bss xs"
  shows "reads (rep_read (length xs) m) (concat bss) xs"
  using assms
proof (induction rule: list_all2_induct)
  case Nil
  then show ?case by (simp add: reads_return)
next
  case (Cons bs bss x xs)
  then show ?case
    by (auto intro!: reads_bind reads_bind_last)
qed

text \<open>The bytes of a word, low to high, put together again.\<close>

lemma ucast_byte_at:
  fixes v :: "'a::len word"
  assumes "8 \<le> LENGTH('a)"
  shows "(ucast (ucast (drop_bit n v) :: byte) :: 'a word) = take_bit 8 (drop_bit n v)"
  by (rule bit_word_eqI) (use assms in \<open>auto simp: bit_simps\<close>)

lemma ucast_byte_at_0:
  fixes v :: "'a::len word"
  assumes "8 \<le> LENGTH('a)"
  shows "(ucast (ucast v :: byte) :: 'a word) = take_bit 8 v"
  using ucast_byte_at [of 0 v] assms by simp

lemma take_bit_byte_step:
  fixes v :: "'a::len word"
  shows "take_bit n v OR push_bit n (take_bit 8 (drop_bit n v)) = take_bit (n + 8) v"
  by (rule bit_word_eqI) (auto simp: bit_simps)

lemma ucast_signed_drop_bit:
  fixes v :: "'a::len word"
  assumes "n + 8 \<le> LENGTH('a)"
  shows "(ucast (signed_drop_bit n v) :: byte) = ucast (drop_bit n v)"
  by (rule bit_word_eqI) (use assms in \<open>auto simp: bit_simps\<close>)

lemma join_bytes_16:
  fixes v :: u16
  shows "take_bit 8 v OR push_bit 8 (take_bit 8 (drop_bit 8 v)) = v"
  using take_bit_byte_step [of 8 v] by (simp add: take_bit_word_eq_self)

lemma join_bytes_32:
  fixes v :: u32
  shows "take_bit 8 v OR push_bit 8 (take_bit 8 (drop_bit 8 v)) OR push_bit 16 (take_bit 8 (drop_bit 16 v))
     OR push_bit 24 (take_bit 8 (drop_bit 24 v)) = v"
  using take_bit_byte_step [of 8 v] take_bit_byte_step [of 16 v] take_bit_byte_step [of 24 v]
  by (simp add: or.assoc [symmetric] take_bit_word_eq_self)

lemma join_bytes_64:
  fixes v :: u64
  shows "take_bit 8 v OR push_bit 8 (take_bit 8 (drop_bit 8 v)) OR push_bit 16 (take_bit 8 (drop_bit 16 v))
     OR push_bit 24 (take_bit 8 (drop_bit 24 v)) OR push_bit 32 (take_bit 8 (drop_bit 32 v))
     OR push_bit 40 (take_bit 8 (drop_bit 40 v)) OR push_bit 48 (take_bit 8 (drop_bit 48 v))
     OR push_bit 56 (take_bit 8 (drop_bit 56 v)) = v"
  using take_bit_byte_step [of 8 v] take_bit_byte_step [of 16 v] take_bit_byte_step [of 24 v]
    take_bit_byte_step [of 32 v] take_bit_byte_step [of 40 v] take_bit_byte_step [of 48 v]
    take_bit_byte_step [of 56 v]
  by (simp add: or.assoc [symmetric] take_bit_word_eq_self)

lemmas join_bytes = ucast_byte_at ucast_byte_at_0 join_bytes_16 join_bytes_32 join_bytes_64

lemma WriteInt64_WriteUint64: "WriteInt64 w v = WriteUint64 w v"
  by (simp add: WriteInt64_def WriteUint64_def ucast_signed_drop_bit)

lemma WriteInt32_WriteUint32: "WriteInt32 w v = WriteUint32 w v"
  by (simp add: WriteInt32_def WriteUint32_def ucast_signed_drop_bit)

lemma ReadInt64_ReadUint64: "ReadInt64 = ReadUint64"
  by (rule ext) (simp add: ReadInt64_def ReadUint64_def)

lemma ReadBytes_append:
  "ReadBytes (length bs) \<lparr>rdata = pre @ bs @ post, rpos = length pre\<rparr>
     = (Inr bs, \<lparr>rdata = pre @ bs @ post, rpos = length pre + length bs\<rparr>)"
  by (simp add: ReadBytes_def)

lemma reads_byte: "reads rdByte [b] b"
  by (simp add: reads_def rd_def ReadByte_def nth_append)

lemma reads_fixed:
  assumes "\<And>r. f r = (case ReadBytes n r of (Inl e, r') \<Rightarrow> (Inl e, r') | (Inr b, r') \<Rightarrow> (Inr (g b), r'))"
    and "length bs = n" and "g bs = x"
  shows "reads (rd z f) bs x"
  using assms(2,3) by (auto simp: reads_def rd_def assms(1) ReadBytes_append)

lemma reads_uint16: "reads rdUint16 (WriteUint16 [] v) v"
  by (rule reads_fixed, rule ReadUint16_def) (simp_all add: WriteUint16_def join_bytes)

lemma reads_uint32: "reads rdUint32 (WriteUint32 [] v) v"
  by (rule reads_fixed, rule ReadUint32_def) (simp_all add: WriteUint32_def join_bytes)

lemma reads_uint64: "reads (rd 0 ReadUint64) (WriteUint64 [] v) v"
  by (rule reads_fixed, rule ReadUint64_def) (simp_all add: WriteUint64_def join_bytes)

lemma reads_int64: "reads rdInt64 (WriteInt64 [] v) v"
  by (simp add: WriteInt64_WriteUint64 ReadInt64_ReadUint64 reads_uint64)

lemma reads_float64: "reads rdFloat64 (WriteFloat64 [] v) v"
proof -
  have "ReadFloat64 = ReadUint64" by (rule ext) (simp add: ReadFloat64_def)
  then show ?thesis by (simp add: WriteFloat64_def reads_uint64)
qed

text \<open>A string that fits its 16-bit length prefix is read back whole.\<close>

definition string_ok :: "string \<Rightarrow> bool" where
  "string_ok s \<longleftrightarrow> length s \<le> MaxStringLen"

lemma ReadUint16_append:
  "ReadUint16 \<lparr>rdata = pre @ WriteUint16 [] v @ post, rpos = length pre\<rparr>
     = (Inr v, \<lparr>rdata = pre @ WriteUint16 [] v @ post, rpos = length pre + 2\<rparr>)"
proof -
  have "length (WriteUint16 [] v) = 2" by (simp add: WriteUint16_def)
  with ReadBytes_append [of "WriteUint16 [] v" pre post] show ?thesis
    by (simp add: ReadUint16_def) (simp add: WriteUint16_def join_bytes)
qed

lemma reads_string:
  assumes "string_ok s"
  shows "reads rdString (WriteString [] s) s"
  unfolding reads_def
proof (intro allI)
  fix pre post
  let ?n = "of_nat (length s) :: u16"
  let ?h = "WriteUint16 [] ?n"
  have n: "unat ?n = length s"
    using assms by (simp add: string_ok_def MaxStringLen_def unat_of_nat)
  have w: "WriteString [] s = ?h @ bytes_of s"
    using assms by (simp add: WriteString_def string_ok_def)
  have len: "length ?h = 2" by (simp add: WriteUint16_def)
  have "ReadBytes (length (bytes_of s)) \<lparr>rdata = (pre @ ?h) @ bytes_of s @ post, rpos = length (pre @ ?h)\<rparr>
      = (Inr (bytes_of s), \<lparr>rdata = (pre @ ?h) @ bytes_of s @ post, rpos = length (pre @ ?h) + length (bytes_of s)\<rparr>)"
    by (rule ReadBytes_append)
  with ReadUint16_append [of pre ?n "bytes_of s @ post"] n len
  show "run_state rdString \<lparr>rdata = pre @ WriteString [] s @ post, rpos = length pre\<rparr>
      = (s, \<lparr>rdata = pre @ WriteString [] s @ post, rpos = length pre + length (WriteString [] s)\<rparr>)"
    by (simp add: w rd_def ReadString_def comp_def)
qed

section \<open>The codec interface\<close>

text \<open>
  \<open>wr\<close> only appends, and \<open>rdr\<close> reads the value back from wherever it was appended.  The value
  read is \<open>norm x\<close>: a codec proper has the identity there, a lossy one says what is changed.
  \<open>enc_of wr x\<close> are the bytes \<open>wr\<close> appends; the collections \<open>enc_simps\<close> and
  \<open>codec_reads\<close> gather, from every interpretation, the rewriting of a writer into the bytes it
  appends and the rules that run the matching reader over them.
\<close>

definition enc_of :: "(writer \<Rightarrow> 'a \<Rightarrow> writer) \<Rightarrow> 'a \<Rightarrow> byte list" where
  "enc_of wr x = wr [] x"

named_theorems enc_simps \<open>a writer is an append of the bytes it encodes to\<close>
named_theorems codec_reads \<open>running a reader over the bytes of its writer\<close>

lemma unat_count [enc_simps]:
  "n < 4294967296 \<Longrightarrow> unat (of_nat n :: u32) = n"
  "n < 65536 \<Longrightarrow> unat (of_nat n :: u16) = n"
  by (simp_all add: unat_of_nat)

lemma list_all_True [enc_simps]: "list_all (\<lambda>_. True) xs"
  by (simp add: list_all_iff)

locale lossy_codec =
  fixes wr :: "writer \<Rightarrow> 'a \<Rightarrow> writer"
    and rdr :: "(reader, 'a) state"
    and ok :: "'a \<Rightarrow> bool"
    and norm :: "'a \<Rightarrow> 'a"
  assumes wr_append: "wr w x = w @ wr [] x"
    and rdr_wr: "ok x \<Longrightarrow> reads rdr (wr [] x) (norm x)"
begin

lemma wr_enc [enc_simps]: "wr w x = w @ enc_of wr x"
  unfolding enc_of_def by (rule wr_append)

lemma foldl_enc [enc_simps]: "foldl wr w xs = w @ concat (map (enc_of wr) xs)"
  by (induction xs arbitrary: w) (simp_all add: wr_enc)

lemma rdr_enc: "ok x \<Longrightarrow> reads rdr (enc_of wr x) (norm x)"
  unfolding enc_of_def by (rule rdr_wr)

lemma rdr_bind [codec_reads]:
  "ok x \<Longrightarrow> reads (f (norm x)) bs y \<Longrightarrow> reads (rdr \<bind> f) (enc_of wr x @ bs) y"
  by (rule reads_bind [OF rdr_enc])

lemma rdr_final:
  "ok x \<Longrightarrow> reads (f (norm x)) [] y \<Longrightarrow> reads (rdr \<bind> f) (enc_of wr x) y"
  using reads_bind [OF rdr_enc, of x f "[]" y] by simp

lemma rdr_last [codec_reads]:
  "ok x \<Longrightarrow> f (norm x) = y \<Longrightarrow> reads (rdr \<bind> (\<lambda>x. State_Monad.return (f x))) (enc_of wr x) y"
  by (rule reads_bind_last [OF rdr_enc])

lemma rep_enc:
  assumes "list_all ok xs" and "n = length xs"
  shows "reads (rep_read n rdr) (concat (map (enc_of wr) xs)) (map norm xs)"
proof -
  have "list_all2 (reads rdr) (map (enc_of wr) xs) (map norm xs)"
    using assms(1) by (induction xs) (auto intro: rdr_enc)
  from reads_rep [OF this] show ?thesis by (simp add: assms(2))
qed

lemma rep_bind [codec_reads]:
  "list_all ok xs \<Longrightarrow> n = length xs \<Longrightarrow> reads (f (map norm xs)) bs y
   \<Longrightarrow> reads (rep_read n rdr \<bind> f) (concat (map (enc_of wr) xs) @ bs) y"
  by (rule reads_bind [OF rep_enc])

lemma rep_last [codec_reads]:
  "list_all ok xs \<Longrightarrow> n = length xs \<Longrightarrow> f (map norm xs) = y
   \<Longrightarrow> reads (rep_read n rdr \<bind> (\<lambda>x. State_Monad.return (f x))) (concat (map (enc_of wr) xs)) y"
  by (rule reads_bind_last [OF rep_enc])

text \<open>A list behind its 32-bit length.\<close>

lemma counted32_enc:
  assumes "list_all ok xs" and "length xs < 2 ^ 32"
  shows "reads (rdUint32 \<bind> (\<lambda>n. rep_read (unat n) rdr))
     (enc_of WriteUint32 (of_nat (length xs)) @ concat (map (enc_of wr) xs)) (map norm xs)"
  unfolding enc_of_def [of WriteUint32]
  by (rule reads_bind [OF reads_uint32], rule rep_enc)
     (use assms in \<open>simp_all add: unat_of_nat\<close>)

end

locale codec = lossy_codec wr rdr ok "\<lambda>x. x"
  for wr :: "writer \<Rightarrow> 'a \<Rightarrow> writer" and rdr ok
begin

text \<open>Distinct admissible values have distinct encodings, whatever follows them.\<close>

lemma enc_inj:
  assumes "ok x" and "ok y" and "wr [] x @ r = wr [] y @ s"
  shows "x = y"
  using rdr_wr [OF assms(1), unfolded reads_def, rule_format, of "[]" r]
    rdr_wr [OF assms(2), unfolded reads_def, rule_format, of "[]" s] assms(3)
  by simp

end

interpretation byte_codec: codec WriteByteVal rdByte "\<lambda>_. True"
  by unfold_locales (simp_all add: WriteByteVal_def reads_byte)

interpretation u16_codec: codec WriteUint16 rdUint16 "\<lambda>_. True"
  by unfold_locales (simp add: WriteUint16_def, rule reads_uint16)

interpretation u32_codec: codec WriteUint32 rdUint32 "\<lambda>_. True"
  by unfold_locales (simp add: WriteUint32_def, rule reads_uint32)

interpretation i32_codec: codec WriteInt32 rdUint32 "\<lambda>_. True"
  by unfold_locales (simp add: WriteInt32_def, simp add: WriteInt32_WriteUint32 reads_uint32)

interpretation i64_codec: codec WriteInt64 rdInt64 "\<lambda>_. True"
  by unfold_locales (simp add: WriteInt64_def, rule reads_int64)

interpretation f64_codec: codec WriteFloat64 rdFloat64 "\<lambda>_. True"
  by unfold_locales (simp add: WriteFloat64_def WriteUint64_def, rule reads_float64)

interpretation string_codec: codec WriteString rdString string_ok
  by unfold_locales (simp add: WriteString_def WriteUint16_def Let_def, rule reads_string)

end
