(* ===== verification/Bytecode.thy ===== *)
theory Bytecode
  imports Bytecode_IO
begin

text \<open>
  The \<open>.kbc\<close> module format (pkg/ir/bytecode.go): the module's data types, \<open>SerializeModule\<close>
  with its per-section writers, \<open>DeserializeModule\<close> with its readers, and the opcode names.
  The Go structs are records with the struct's initials before the field name; \<open>Opcode\<close>,
  \<open>SymbolKind\<close> and \<open>TypeKind\<close> are \<open>uint8\<close> there and bytes here.  A slice is a list
  (nil and empty slices are not told apart), the fixed array \<open>[3]uint32\<close> is a triple.

  Every section is an instance of the \<open>codec\<close> interface, except the tensor graph, whose
  reader appends each dimension to a slice that already has the right length
  (\<open>make([]int32, n)\<close> followed by \<open>append\<close>): it is a \<open>lossy_codec\<close> that puts zeros
  in front of every shape.
\<close>

section \<open>Data types\<close>

definition magicBytes :: "byte list" where
  "magicBytes = [0x4B, 0x52, 0x4B, 0x01]"

definition BytecodeVersion :: u32 where
  "BytecodeVersion = 1"

definition SectionEOF :: byte where
  "SectionEOF = 0xFF"

record ModuleHeader =
  mh_Magic :: "byte list"
  mh_Version :: u32
  mh_Flags :: u32
  mh_EntryIdx :: u32
  mh_NumSyms :: u32
  mh_NumFuncs :: u32
  mh_NumKerns :: u32
  mh_NumQPU :: u32
  mh_NumTen :: u32
  mh_OffsetSym :: u32

record Section =
  sc_Type :: byte
  sc_Offset :: u32
  sc_Size :: u32

record SymbolEntry =
  se_Name :: string
  se_Kind :: byte
  se_Idx :: u32
  se_IsExported :: bool
  se_IsPublic :: bool

datatype TypeDesc = TypeDesc (td_Kind: byte) (td_Name: string) (td_Size: u32) (td_ElemType: "TypeDesc option")

record ParamInfo =
  pi_Name :: string
  pi_Type :: TypeDesc

record LocalInfo =
  li_Name :: string
  li_Type :: TypeDesc
  li_Index :: u16

record Instruction =
  in_Op :: byte
  in_Arg0 :: u16
  in_Arg1 :: u16
  in_Arg2 :: u16
  in_Imm :: i64

record Function =
  fn_Name :: string
  fn_NumParams :: u16
  fn_NumLocals :: u16
  fn_Params :: "ParamInfo list"
  fn_Locals :: "LocalInfo list"
  fn_Instructions :: "Instruction list"

record GPUKernel =
  gk_Name :: string
  gk_SourceLang :: string
  gk_Source :: string
  gk_NumBuffers :: u16
  gk_WorkGroup :: "u32 \<times> u32 \<times> u32"
  gk_Params :: "ParamInfo list"
  gk_Instructions :: "Instruction list"

record QuantumGateIR =
  qg_Op :: byte
  qg_Qubits :: "u16 list"
  qg_Angle :: f64
  qg_Control :: u16

record QuantumCircuit =
  qc_Name :: string
  qc_NumQubits :: u16
  qc_NumBits :: u16
  qc_Gates :: "QuantumGateIR list"
  qc_Params :: "ParamInfo list"

record TensorNode =
  tn_Op :: byte
  tn_Name :: string
  tn_Shape :: "32 word list"
  tn_Inputs :: "u32 list"

record TensorEdge =
  te_From :: u32
  te_To :: u32

record TensorGraph =
  tg_Name :: string
  tg_NumInputs :: u16
  tg_Nodes :: "TensorNode list"
  tg_Edges :: "TensorEdge list"

record Module =
  mod_Header :: ModuleHeader
  mod_Symbols :: "SymbolEntry list"
  mod_Functions :: "Function list"
  mod_Kernels :: "GPUKernel list"
  mod_Circuits :: "QuantumCircuit list"
  mod_Tensors :: "TensorGraph list"
  mod_Sections :: "Section list"

section \<open>Writers\<close>

fun writeTypeDesc :: "writer \<Rightarrow> TypeDesc \<Rightarrow> writer" where
  "writeTypeDesc w (TypeDesc kind name sz (Some elem)) =
     writeTypeDesc (WriteByteVal (WriteUint32 (WriteString (WriteByteVal w kind) name) sz) 1) elem"
| "writeTypeDesc w (TypeDesc kind name sz None) =
     WriteByteVal (WriteUint32 (WriteString (WriteByteVal w kind) name) sz) 0"

definition writeSymbolEntry :: "writer \<Rightarrow> SymbolEntry \<Rightarrow> writer" where
  "writeSymbolEntry w e =
     (let w = WriteString w (se_Name e);
          w = WriteByteVal w (se_Kind e);
          w = WriteUint32 w (se_Idx e);
          w = WriteByteVal w (boolToByte (se_IsExported e))
      in WriteByteVal w (boolToByte (se_IsPublic e)))"

definition writeSymbolTable :: "writer \<Rightarrow> SymbolEntry list \<Rightarrow> writer" where
  "writeSymbolTable w es = foldl writeSymbolEntry (WriteUint32 w (of_nat (length es))) es"

definition writeParamInfo :: "writer \<Rightarrow> ParamInfo \<Rightarrow> writer" where
  "writeParamInfo w p = writeTypeDesc (WriteString w (pi_Name p)) (pi_Type p)"

definition writeLocalInfo :: "writer \<Rightarrow> LocalInfo \<Rightarrow> writer" where
  "writeLocalInfo w l =
     WriteUint16 (writeTypeDesc (WriteString w (li_Name l)) (li_Type l)) (li_Index l)"

definition writeInstruction :: "writer \<Rightarrow> Instruction \<Rightarrow> writer" where
  "writeInstruction w i =
     (let w = WriteByteVal w (in_Op i);
          w = WriteUint16 w (in_Arg0 i);
          w = WriteUint16 w (in_Arg1 i);
          w = WriteUint16 w (in_Arg2 i)
      in WriteInt64 w (in_Imm i))"

definition writeFunction :: "writer \<Rightarrow> Function \<Rightarrow> writer" where
  "writeFunction w f =
     (let w = WriteString w (fn_Name f);
          w = WriteUint16 w (fn_NumParams f);
          w = WriteUint16 w (fn_NumLocals f);
          w = foldl writeParamInfo w (fn_Params f);
          w = foldl writeLocalInfo w (fn_Locals f);
          w = WriteUint32 w (of_nat (length (fn_Instructions f)))
      in foldl writeInstruction w (fn_Instructions f))"

definition writeGPUKernel :: "writer \<Rightarrow> GPUKernel \<Rightarrow> writer" where
  "writeGPUKernel w k =
     (let w = WriteString w (gk_Name k);
          w = WriteString w (gk_SourceLang k);
          w = WriteString w (gk_Source k);
          w = WriteUint16 w (gk_NumBuffers k);
          w = (case gk_WorkGroup k of (x, y, z) \<Rightarrow> WriteUint32 (WriteUint32 (WriteUint32 w x) y) z);
          w = WriteUint16 w (of_nat (length (gk_Params k)));
          w = foldl writeParamInfo w (gk_Params k);
          w = WriteUint32 w (of_nat (length (gk_Instructions k)))
      in foldl writeInstruction w (gk_Instructions k))"

definition writeGate :: "writer \<Rightarrow> QuantumGateIR \<Rightarrow> writer" where
  "writeGate w g =
     (let w = WriteByteVal w (qg_Op g);
          w = WriteUint16 w (of_nat (length (qg_Qubits g)));
          w = foldl WriteUint16 w (qg_Qubits g);
          w = WriteFloat64 w (qg_Angle g)
      in WriteUint16 w (qg_Control g))"

definition writeQuantumCircuit :: "writer \<Rightarrow> QuantumCircuit \<Rightarrow> writer" where
  "writeQuantumCircuit w q =
     (let w = WriteString w (qc_Name q);
          w = WriteUint16 w (qc_NumQubits q);
          w = WriteUint16 w (qc_NumBits q);
          w = WriteUint16 w (of_nat (length (qc_Params q)));
          w = foldl writeParamInfo w (qc_Params q);
          w = WriteUint32 w (of_nat (length (qc_Gates q)))
      in foldl writeGate w (qc_Gates q))"

definition writeTensorNode :: "writer \<Rightarrow> TensorNode \<Rightarrow> writer" where
  "writeTensorNode w n =
     (let w = WriteByteVal w (tn_Op n);
          w = WriteString w (tn_Name n);
          w = WriteUint32 w (of_nat (length (tn_Shape n)));
          w = foldl WriteInt32 w (tn_Shape n);
          w = WriteUint32 w (of_nat (length (tn_Inputs n)))
      in foldl WriteUint32 w (tn_Inputs n))"

definition writeTensorEdge :: "writer \<Rightarrow> TensorEdge \<Rightarrow> writer" where
  "writeTensorEdge w e = WriteUint32 (WriteUint32 w (te_From e)) (te_To e)"

definition writeTensorGraph :: "writer \<Rightarrow> TensorGraph \<Rightarrow> writer" where
  "writeTensorGraph w t =
     (let w = WriteString w (tg_Name t);
          w = WriteUint16 w (tg_NumInputs t);
          w = WriteUint32 w (of_nat (length (tg_Nodes t)));
          w = foldl writeTensorNode w (tg_Nodes t);
          w = WriteUint32 w (of_nat (length (tg_Edges t)))
      in foldl writeTensorEdge w (tg_Edges t))"

text \<open>\<open>copy(data[off:], bs)\<close> and \<open>binary.LittleEndian.PutUint32(data[off:], v)\<close>, used to fill the
  40 bytes the header reserved.\<close>

definition copy_at :: "nat \<Rightarrow> byte list \<Rightarrow> byte list \<Rightarrow> byte list" where
  "copy_at off bs data =
     take off data @ take (length data - off) bs @ drop (off + length bs) data"

definition PutUint32_at :: "nat \<Rightarrow> u32 \<Rightarrow> byte list \<Rightarrow> byte list" where
  "PutUint32_at off v data = copy_at off (WriteUint32 [] v) data"

definition SerializeModule :: "Module \<Rightarrow> byte list" where
  "SerializeModule m =
     (let w = foldl WriteByteVal [] (replicate 40 0);
          symStart = (of_nat (length w) :: u32);
          w = writeSymbolTable w (mod_Symbols m);
          w = foldl writeFunction (WriteUint32 w (of_nat (length (mod_Functions m)))) (mod_Functions m);
          w = foldl writeGPUKernel (WriteUint32 w (of_nat (length (mod_Kernels m)))) (mod_Kernels m);
          w = foldl writeQuantumCircuit (WriteUint32 w (of_nat (length (mod_Circuits m)))) (mod_Circuits m);
          w = foldl writeTensorGraph (WriteUint32 w (of_nat (length (mod_Tensors m)))) (mod_Tensors m);
          w = WriteByteVal w SectionEOF;
          w = copy_at 0 magicBytes w;
          w = PutUint32_at 4 BytecodeVersion w;
          w = PutUint32_at 8 (mh_Flags (mod_Header m)) w;
          w = PutUint32_at 12 (mh_EntryIdx (mod_Header m)) w;
          w = PutUint32_at 16 (of_nat (length (mod_Symbols m))) w;
          w = PutUint32_at 20 (of_nat (length (mod_Functions m))) w;
          w = PutUint32_at 24 (of_nat (length (mod_Kernels m))) w;
          w = PutUint32_at 28 (of_nat (length (mod_Circuits m))) w;
          w = PutUint32_at 32 (of_nat (length (mod_Tensors m))) w
      in PutUint32_at 36 symStart w)"

section \<open>Readers\<close>

text \<open>A step of a reader never changes the data and never moves back.\<close>

definition advances :: "reader \<Rightarrow> reader \<Rightarrow> bool" where
  "advances r r' \<longleftrightarrow> rdata r' = rdata r \<and> rpos r \<le> rpos r'"

lemma ReadBytes_advances: "ReadBytes n r = (x, r') \<Longrightarrow> advances r r'"
  by (auto simp: ReadBytes_def advances_def split: if_splits)

lemma ReadUint16_advances: "ReadUint16 r = (x, r') \<Longrightarrow> advances r r'"
  by (auto simp: ReadUint16_def dest: ReadBytes_advances split: prod.splits sum.splits)

lemma rdByte_advances: "run_state rdByte r = (x, r') \<Longrightarrow> advances r r'"
  by (auto simp: rd_def ReadByte_def advances_def split: if_splits)

lemma rdUint32_advances: "run_state rdUint32 r = (x, r') \<Longrightarrow> advances r r'"
  by (auto simp: rd_def ReadUint32_def dest: ReadBytes_advances split: prod.splits sum.splits)

lemma rdString_advances: "run_state rdString r = (x, r') \<Longrightarrow> advances r r'"
proof -
  assume "run_state rdString r = (x, r')"
  then obtain y r1 where 1: "ReadUint16 r = (y, r1)" and
    2: "r1 = r' \<or> (\<exists>n z. ReadBytes n r1 = (z, r'))"
    by (auto simp: rd_def ReadString_def split: prod.splits sum.splits)
  show "advances r r'"
    using ReadUint16_advances [OF 1] 2 ReadBytes_advances [of _ r1]
    by (fastforce simp: advances_def)
qed

lemma rdByte_nonzero:
  "run_state rdByte r = (x, r') \<Longrightarrow> x \<noteq> 0 \<Longrightarrow> rpos r < length (rdata r) \<and> rpos r' = rpos r + 1"
  by (auto simp: rd_def ReadByte_def split: if_splits)

lemma rdTypeDesc_decreases:
  assumes "run_state rdByte r = (kind, r1)" and "run_state rdString r1 = (name, r2)"
    and "run_state rdUint32 r2 = (sz, r3)" and "run_state rdByte r3 = (1, r4)"
  shows "length (rdata r4) - rpos r4 < length (rdata r) - rpos r"
  using rdByte_advances [OF assms(1)] rdString_advances [OF assms(2)] rdUint32_advances [OF assms(3)]
    rdByte_advances [OF assms(4)] rdByte_nonzero [OF assms(4)]
  by (auto simp: advances_def)

function readTypeDesc_run :: "reader \<Rightarrow> TypeDesc \<times> reader" where
  "readTypeDesc_run r =
     (case run_state rdByte r of (kind, r1) \<Rightarrow>
      case run_state rdString r1 of (name, r2) \<Rightarrow>
      case run_state rdUint32 r2 of (sz, r3) \<Rightarrow>
      case run_state rdByte r3 of (hasElem, r4) \<Rightarrow>
        if hasElem = 1
        then (case readTypeDesc_run r4 of (elem, r5) \<Rightarrow> (TypeDesc kind name sz (Some elem), r5))
        else (TypeDesc kind name sz None, r4))"
  by pat_completeness auto
termination
  by (relation "measure (\<lambda>r. length (rdata r) - rpos r)", simp, unfold in_measure)
     (rule rdTypeDesc_decreases; (erule sym | simp))

declare readTypeDesc_run.simps [simp del]

definition readTypeDesc :: "(reader, TypeDesc) state" where
  "readTypeDesc = State readTypeDesc_run"

definition readSymbolEntry :: "(reader, SymbolEntry) state" where
  "readSymbolEntry = do {
     name \<leftarrow> rdString; kind \<leftarrow> rdByte; idx \<leftarrow> rdUint32; exp \<leftarrow> rdByte; pub \<leftarrow> rdByte;
     State_Monad.return \<lparr>se_Name = name, se_Kind = kind, se_Idx = idx,
                         se_IsExported = (exp = 1), se_IsPublic = (pub = 1)\<rparr> }"

definition readSymbolTable :: "(reader, SymbolEntry list) state" where
  "readSymbolTable = do { n \<leftarrow> rdUint32; rep_read (unat n) readSymbolEntry }"

definition readParamInfo :: "(reader, ParamInfo) state" where
  "readParamInfo = do {
     name \<leftarrow> rdString; ty \<leftarrow> readTypeDesc; State_Monad.return \<lparr>pi_Name = name, pi_Type = ty\<rparr> }"

definition readLocalInfo :: "(reader, LocalInfo) state" where
  "readLocalInfo = do {
     name \<leftarrow> rdString; ty \<leftarrow> readTypeDesc; idx \<leftarrow> rdUint16;
     State_Monad.return \<lparr>li_Name = name, li_Type = ty, li_Index = idx\<rparr> }"

definition readInstruction :: "(reader, Instruction) state" where
  "readInstruction = do {
     op \<leftarrow> rdByte; arg0 \<leftarrow> rdUint16; arg1 \<leftarrow> rdUint16; arg2 \<leftarrow> rdUint16; imm \<leftarrow> rdInt64;
     State_Monad.return \<lparr>in_Op = op, in_Arg0 = arg0, in_Arg1 = arg1, in_Arg2 = arg2, in_Imm = imm\<rparr> }"

definition readFunction :: "(reader, Function) state" where
  "readFunction = do {
     name \<leftarrow> rdString; numParams \<leftarrow> rdUint16; numLocals \<leftarrow> rdUint16;
     params \<leftarrow> rep_read (unat numParams) readParamInfo;
     locals \<leftarrow> rep_read (unat numLocals) readLocalInfo;
     numInst \<leftarrow> rdUint32; insts \<leftarrow> rep_read (unat numInst) readInstruction;
     State_Monad.return \<lparr>fn_Name = name, fn_NumParams = numParams, fn_NumLocals = numLocals,
                         fn_Params = params, fn_Locals = locals, fn_Instructions = insts\<rparr> }"

definition readFunctions :: "(reader, Function list) state" where
  "readFunctions = do { n \<leftarrow> rdUint32; rep_read (unat n) readFunction }"

definition readGPUKernel :: "(reader, GPUKernel) state" where
  "readGPUKernel = do {
     name \<leftarrow> rdString; lang \<leftarrow> rdString; src \<leftarrow> rdString; nbuf \<leftarrow> rdUint16;
     x \<leftarrow> rdUint32; y \<leftarrow> rdUint32; z \<leftarrow> rdUint32;
     numParams \<leftarrow> rdUint16; params \<leftarrow> rep_read (unat numParams) readParamInfo;
     numInst \<leftarrow> rdUint32; insts \<leftarrow> rep_read (unat numInst) readInstruction;
     State_Monad.return \<lparr>gk_Name = name, gk_SourceLang = lang, gk_Source = src, gk_NumBuffers = nbuf,
                         gk_WorkGroup = (x, y, z), gk_Params = params, gk_Instructions = insts\<rparr> }"

definition readGPUKernels :: "(reader, GPUKernel list) state" where
  "readGPUKernels = do { n \<leftarrow> rdUint32; rep_read (unat n) readGPUKernel }"

definition readGate :: "(reader, QuantumGateIR) state" where
  "readGate = do {
     op \<leftarrow> rdByte;
     numQ \<leftarrow> rdUint16; qubits \<leftarrow> rep_read (unat numQ) rdUint16;
     angle \<leftarrow> rdFloat64; ctrl \<leftarrow> rdUint16;
     State_Monad.return \<lparr>qg_Op = op, qg_Qubits = qubits, qg_Angle = angle, qg_Control = ctrl\<rparr> }"

definition readQuantumCircuit :: "(reader, QuantumCircuit) state" where
  "readQuantumCircuit = do {
     name \<leftarrow> rdString; nq \<leftarrow> rdUint16; nb \<leftarrow> rdUint16;
     numParams \<leftarrow> rdUint16; params \<leftarrow> rep_read (unat numParams) readParamInfo;
     numGates \<leftarrow> rdUint32; gates \<leftarrow> rep_read (unat numGates) readGate;
     State_Monad.return \<lparr>qc_Name = name, qc_NumQubits = nq, qc_NumBits = nb,
                         qc_Gates = gates, qc_Params = params\<rparr> }"

definition readQuantumCircuits :: "(reader, QuantumCircuit list) state" where
  "readQuantumCircuits = do { n \<leftarrow> rdUint32; rep_read (unat n) readQuantumCircuit }"

text \<open>\<open>n2.Shape = make([]int32, numShape)\<close> and then \<open>numShape\<close> times
  \<open>n2.Shape = append(n2.Shape, int32(v))\<close>.\<close>

definition readShape :: "(reader, 32 word list) state" where
  "readShape = do {
     numShape \<leftarrow> rdUint32;
     vs \<leftarrow> rep_read (unat numShape) rdUint32;
     State_Monad.return (replicate (unat numShape) 0 @ vs) }"

definition readTensorNode :: "(reader, TensorNode) state" where
  "readTensorNode = do {
     op \<leftarrow> rdByte; name \<leftarrow> rdString;
     shape \<leftarrow> readShape;
     numInputs \<leftarrow> rdUint32; inputs \<leftarrow> rep_read (unat numInputs) rdUint32;
     State_Monad.return \<lparr>tn_Op = op, tn_Name = name, tn_Shape = shape, tn_Inputs = inputs\<rparr> }"

definition readTensorEdge :: "(reader, TensorEdge) state" where
  "readTensorEdge = do {
     from \<leftarrow> rdUint32; to \<leftarrow> rdUint32; State_Monad.return \<lparr>te_From = from, te_To = to\<rparr> }"

definition readTensorGraph :: "(reader, TensorGraph) state" where
  "readTensorGraph = do {
     name \<leftarrow> rdString; ni \<leftarrow> rdUint16;
     numNodes \<leftarrow> rdUint32; nodes \<leftarrow> rep_read (unat numNodes) readTensorNode;
     numEdges \<leftarrow> rdUint32; edges \<leftarrow> rep_read (unat numEdges) readTensorEdge;
     State_Monad.return \<lparr>tg_Name = name, tg_NumInputs = ni, tg_Nodes = nodes, tg_Edges = edges\<rparr> }"

definition readTensorGraphs :: "(reader, TensorGraph list) state" where
  "readTensorGraphs = do { n \<leftarrow> rdUint32; rep_read (unat n) readTensorGraph }"

text \<open>The three ways \<open>DeserializeModule\<close> refuses its input.\<close>

datatype kbc_error =
    FileTooSmall
  | InvalidMagic "byte list"
  | UnsupportedVersion u32

definition readHeader :: "u32 \<Rightarrow> (reader, ModuleHeader) state" where
  "readHeader version = do {
     flags \<leftarrow> rdUint32; entryIdx \<leftarrow> rdUint32; numSyms \<leftarrow> rdUint32; numFuncs \<leftarrow> rdUint32;
     numKerns \<leftarrow> rdUint32; numQPU \<leftarrow> rdUint32; numTen \<leftarrow> rdUint32; offsetSym \<leftarrow> rdUint32;
     State_Monad.return \<lparr>mh_Magic = [0, 0, 0, 0], mh_Version = version, mh_Flags = flags,
       mh_EntryIdx = entryIdx, mh_NumSyms = numSyms, mh_NumFuncs = numFuncs, mh_NumKerns = numKerns,
       mh_NumQPU = numQPU, mh_NumTen = numTen, mh_OffsetSym = offsetSym\<rparr> }"

definition readBody :: "ModuleHeader \<Rightarrow> (reader, Module) state" where
  "readBody header = do {
     syms \<leftarrow> readSymbolTable; funcs \<leftarrow> readFunctions; kernels \<leftarrow> readGPUKernels;
     circuits \<leftarrow> readQuantumCircuits; tensors \<leftarrow> readTensorGraphs;
     State_Monad.return \<lparr>mod_Header = header, mod_Symbols = syms, mod_Functions = funcs,
       mod_Kernels = kernels, mod_Circuits = circuits, mod_Tensors = tensors, mod_Sections = []\<rparr> }"

definition DeserializeModule :: "byte list \<Rightarrow> kbc_error + Module" where
  "DeserializeModule data =
     (let r = \<lparr>rdata = data, rpos = 0\<rparr> in
      if length data < 40 then Inl FileTooSmall
      else case run_state (rep_read 4 rdByte) r of (magic, r) \<Rightarrow>
        if magic \<noteq> magicBytes then Inl (InvalidMagic magic)
        else case run_state rdUint32 r of (version, r) \<Rightarrow>
          if version > BytecodeVersion then Inl (UnsupportedVersion version)
          else case run_state (readHeader version) r of (header, r) \<Rightarrow>
            let r = r\<lparr>rpos := unat (mh_OffsetSym header)\<rparr>
            in Inr (fst (run_state (readBody header) r)))"

section \<open>The sections as codecs\<close>

fun typeDesc_ok :: "TypeDesc \<Rightarrow> bool" where
  "typeDesc_ok (TypeDesc kind name sz None) = string_ok name"
| "typeDesc_ok (TypeDesc kind name sz (Some elem)) = (string_ok name \<and> typeDesc_ok elem)"

definition param_ok :: "ParamInfo \<Rightarrow> bool" where
  "param_ok p \<longleftrightarrow> string_ok (pi_Name p) \<and> typeDesc_ok (pi_Type p)"

definition local_ok :: "LocalInfo \<Rightarrow> bool" where
  "local_ok l \<longleftrightarrow> string_ok (li_Name l) \<and> typeDesc_ok (li_Type l)"

definition symbol_ok :: "SymbolEntry \<Rightarrow> bool" where
  "symbol_ok e \<longleftrightarrow> string_ok (se_Name e)"

definition function_ok :: "Function \<Rightarrow> bool" where
  "function_ok f \<longleftrightarrow> string_ok (fn_Name f) \<and> unat (fn_NumParams f) = length (fn_Params f)
     \<and> unat (fn_NumLocals f) = length (fn_Locals f) \<and> list_all param_ok (fn_Params f)
     \<and> list_all local_ok (fn_Locals f) \<and> length (fn_Instructions f) < 2 ^ 32"

definition kernel_ok :: "GPUKernel \<Rightarrow> bool" where
  "kernel_ok k \<longleftrightarrow> string_ok (gk_Name k) \<and> string_ok (gk_SourceLang k) \<and> string_ok (gk_Source k)
     \<and> length (gk_Params k) < 2 ^ 16 \<and> list_all param_ok (gk_Params k)
     \<and> length (gk_Instructions k) < 2 ^ 32"

definition gate_ok :: "QuantumGateIR \<Rightarrow> bool" where
  "gate_ok g \<longleftrightarrow> length (qg_Qubits g) < 2 ^ 16"

definition circuit_ok :: "QuantumCircuit \<Rightarrow> bool" where
  "circuit_ok q \<longleftrightarrow> string_ok (qc_Name q) \<and> length (qc_Params q) < 2 ^ 16
     \<and> list_all param_ok (qc_Params q) \<and> length (qc_Gates q) < 2 ^ 32 \<and> list_all gate_ok (qc_Gates q)"

definition node_ok :: "TensorNode \<Rightarrow> bool" where
  "node_ok n \<longleftrightarrow> string_ok (tn_Name n) \<and> length (tn_Shape n) < 2 ^ 32 \<and> length (tn_Inputs n) < 2 ^ 32"

definition graph_ok :: "TensorGraph \<Rightarrow> bool" where
  "graph_ok t \<longleftrightarrow> string_ok (tg_Name t) \<and> length (tg_Nodes t) < 2 ^ 32
     \<and> list_all node_ok (tg_Nodes t) \<and> length (tg_Edges t) < 2 ^ 32"

text \<open>What the tensor reader makes of a node and of a graph.\<close>

definition node_read :: "TensorNode \<Rightarrow> TensorNode" where
  "node_read n = n\<lparr>tn_Shape := replicate (length (tn_Shape n)) 0 @ tn_Shape n\<rparr>"

definition graph_read :: "TensorGraph \<Rightarrow> TensorGraph" where
  "graph_read t = t\<lparr>tg_Nodes := map node_read (tg_Nodes t)\<rparr>"

lemma writeTypeDesc_append: "writeTypeDesc w t = w @ writeTypeDesc [] t"
proof (induction t arbitrary: w)
  case (TypeDesc kind name sz el)
  show ?case
  proof (cases el)
    case (Some e)
    then have IH: "writeTypeDesc v e = v @ writeTypeDesc [] e" for v
      by (intro TypeDesc.IH) simp
    from Some show ?thesis by (simp add: enc_simps IH [of "_ @ _"])
  qed (simp add: enc_simps)
qed

lemma reads_readTypeDesc:
  "reads (do {
     kind \<leftarrow> rdByte; name \<leftarrow> rdString; sz \<leftarrow> rdUint32; hasElem \<leftarrow> rdByte;
     if hasElem = 1 then do { elem \<leftarrow> readTypeDesc; State_Monad.return (TypeDesc kind name sz (Some elem)) }
     else State_Monad.return (TypeDesc kind name sz None) }) bs t
   \<Longrightarrow> reads readTypeDesc bs t"
proof -
  have "readTypeDesc = do {
     kind \<leftarrow> rdByte; name \<leftarrow> rdString; sz \<leftarrow> rdUint32; hasElem \<leftarrow> rdByte;
     if hasElem = 1 then do { elem \<leftarrow> readTypeDesc; State_Monad.return (TypeDesc kind name sz (Some elem)) }
     else State_Monad.return (TypeDesc kind name sz None) }"
    by (rule state.expand, rule ext, subst (1) readTypeDesc_def, simp only: state.sel, subst readTypeDesc_run.simps)
       (simp add: State_Monad.bind_def readTypeDesc_def split: prod.splits)
  then show "reads (do {
     kind \<leftarrow> rdByte; name \<leftarrow> rdString; sz \<leftarrow> rdUint32; hasElem \<leftarrow> rdByte;
     if hasElem = 1 then do { elem \<leftarrow> readTypeDesc; State_Monad.return (TypeDesc kind name sz (Some elem)) }
     else State_Monad.return (TypeDesc kind name sz None) }) bs t \<Longrightarrow> reads readTypeDesc bs t"
    by simp
qed

interpretation typeDesc_codec: codec writeTypeDesc readTypeDesc typeDesc_ok
proof unfold_locales
  show "writeTypeDesc w t = w @ writeTypeDesc [] t" for w t
    by (rule writeTypeDesc_append)
  show "typeDesc_ok t \<Longrightarrow> reads readTypeDesc (writeTypeDesc [] t) t" for t
  proof (induction t)
    case (TypeDesc kind name sz el)
    show ?case
    proof (cases el)
      case None
      then show ?thesis using TypeDesc.prems
        by (auto simp: enc_simps intro!: reads_readTypeDesc codec_reads byte_codec.rdr_final reads_return)
    next
      case (Some e)
      then have "reads readTypeDesc (writeTypeDesc [] e) e" using TypeDesc by simp
      from reads_bind_last [OF this, of "\<lambda>e. TypeDesc kind name sz (Some e)"]
      show ?thesis using TypeDesc.prems Some
        by (simp add: enc_simps writeTypeDesc_append [of "_ @ _"])
          (rule reads_readTypeDesc, auto intro!: codec_reads)
    qed
  qed
qed

interpretation symbol_codec: codec writeSymbolEntry readSymbolEntry symbol_ok
  by unfold_locales
    (auto simp: writeSymbolEntry_def readSymbolEntry_def symbol_ok_def boolToByte_def enc_simps intro!: codec_reads)

interpretation param_codec: codec writeParamInfo readParamInfo param_ok
  by unfold_locales
    (auto simp: writeParamInfo_def readParamInfo_def param_ok_def enc_simps intro!: codec_reads)

interpretation local_codec: codec writeLocalInfo readLocalInfo local_ok
  by unfold_locales
    (auto simp: writeLocalInfo_def readLocalInfo_def local_ok_def enc_simps intro!: codec_reads)

interpretation instruction_codec: codec writeInstruction readInstruction "\<lambda>_. True"
  by unfold_locales
    (auto simp: writeInstruction_def readInstruction_def enc_simps intro!: codec_reads)

interpretation function_codec: codec writeFunction readFunction function_ok
  by unfold_locales
    (auto simp: writeFunction_def readFunction_def function_ok_def enc_simps intro!: codec_reads)

interpretation kernel_codec: codec writeGPUKernel readGPUKernel kernel_ok
  by unfold_locales
    (auto simp: writeGPUKernel_def readGPUKernel_def kernel_ok_def enc_simps split: prod.splits intro!: codec_reads)

interpretation gate_codec: codec writeGate readGate gate_ok
  by unfold_locales
    (auto simp: writeGate_def readGate_def gate_ok_def enc_simps intro!: codec_reads)

interpretation circuit_codec: codec writeQuantumCircuit readQuantumCircuit circuit_ok
  by unfold_locales
    (auto simp: writeQuantumCircuit_def readQuantumCircuit_def circuit_ok_def enc_simps intro!: codec_reads)

interpretation edge_codec: codec writeTensorEdge readTensorEdge "\<lambda>_. True"
  by unfold_locales
    (auto simp: writeTensorEdge_def readTensorEdge_def enc_simps intro!: codec_reads)

interpretation node_codec: lossy_codec writeTensorNode readTensorNode node_ok node_read
  by unfold_locales
    (auto simp: writeTensorNode_def readTensorNode_def readShape_def node_ok_def node_read_def enc_simps
      intro!: codec_reads)

interpretation graph_codec: lossy_codec writeTensorGraph readTensorGraph graph_ok graph_read
  by unfold_locales
    (auto simp: writeTensorGraph_def readTensorGraph_def graph_ok_def graph_read_def enc_simps
      intro!: codec_reads)

section \<open>The whole module\<close>

definition header_bytes :: "Module \<Rightarrow> byte list" where
  "header_bytes m =
     enc_of WriteUint32 (mh_Flags (mod_Header m)) @ enc_of WriteUint32 (mh_EntryIdx (mod_Header m))
     @ enc_of WriteUint32 (of_nat (length (mod_Symbols m)))
     @ enc_of WriteUint32 (of_nat (length (mod_Functions m)))
     @ enc_of WriteUint32 (of_nat (length (mod_Kernels m)))
     @ enc_of WriteUint32 (of_nat (length (mod_Circuits m)))
     @ enc_of WriteUint32 (of_nat (length (mod_Tensors m))) @ enc_of WriteUint32 40"

definition body_bytes :: "Module \<Rightarrow> byte list" where
  "body_bytes m =
     (enc_of WriteUint32 (of_nat (length (mod_Symbols m))) @ concat (map (enc_of writeSymbolEntry) (mod_Symbols m)))
     @ (enc_of WriteUint32 (of_nat (length (mod_Functions m))) @ concat (map (enc_of writeFunction) (mod_Functions m)))
     @ (enc_of WriteUint32 (of_nat (length (mod_Kernels m))) @ concat (map (enc_of writeGPUKernel) (mod_Kernels m)))
     @ (enc_of WriteUint32 (of_nat (length (mod_Circuits m))) @ concat (map (enc_of writeQuantumCircuit) (mod_Circuits m)))
     @ (enc_of WriteUint32 (of_nat (length (mod_Tensors m))) @ concat (map (enc_of writeTensorGraph) (mod_Tensors m)))"

lemma copy_at_inside:
  "off + length bs \<le> length data \<Longrightarrow> copy_at off bs data = take off data @ bs @ drop (off + length bs) data"
  by (simp add: copy_at_def)

lemma SerializeModule_layout:
  "SerializeModule m =
     magicBytes @ enc_of WriteUint32 BytecodeVersion @ header_bytes m @ body_bytes m @ [SectionEOF]"
proof -
  have zeros: "foldl WriteByteVal [] (replicate 40 0) = replicate 40 0"
    by (simp add: enc_simps) (simp add: enc_of_def WriteByteVal_def eval_nat_numeral)
  have "SerializeModule m = PutUint32_at 36 40 (PutUint32_at 32 (of_nat (length (mod_Tensors m)))
     (PutUint32_at 28 (of_nat (length (mod_Circuits m))) (PutUint32_at 24 (of_nat (length (mod_Kernels m)))
     (PutUint32_at 20 (of_nat (length (mod_Functions m))) (PutUint32_at 16 (of_nat (length (mod_Symbols m)))
     (PutUint32_at 12 (mh_EntryIdx (mod_Header m)) (PutUint32_at 8 (mh_Flags (mod_Header m))
     (PutUint32_at 4 BytecodeVersion (copy_at 0 magicBytes
       (replicate 40 0 @ body_bytes m @ [SectionEOF]))))))))))"
    unfolding SerializeModule_def zeros Let_def
    by (simp add: enc_simps writeSymbolTable_def body_bytes_def) (simp add: enc_of_def WriteByteVal_def)
  also have "\<dots> = magicBytes @ enc_of WriteUint32 BytecodeVersion @ header_bytes m @ body_bytes m @ [SectionEOF]"
    by (simp add: PutUint32_at_def copy_at_inside magicBytes_def enc_of_def WriteUint32_def
        header_bytes_def eval_nat_numeral)
  finally show ?thesis .
qed

text \<open>What the sections of a module need to fit their length fields, and the module that comes
  back: the counts and the version of the header are the ones written, the magic bytes are not
  kept, there are no \<open>Sections\<close>, and the tensor shapes are those of \<open>graph_read\<close>.\<close>

definition module_ok :: "Module \<Rightarrow> bool" where
  "module_ok m \<longleftrightarrow>
     length (mod_Symbols m) < 2 ^ 32 \<and> list_all symbol_ok (mod_Symbols m)
     \<and> length (mod_Functions m) < 2 ^ 32 \<and> list_all function_ok (mod_Functions m)
     \<and> length (mod_Kernels m) < 2 ^ 32 \<and> list_all kernel_ok (mod_Kernels m)
     \<and> length (mod_Circuits m) < 2 ^ 32 \<and> list_all circuit_ok (mod_Circuits m)
     \<and> length (mod_Tensors m) < 2 ^ 32 \<and> list_all graph_ok (mod_Tensors m)"

definition header_read :: "Module \<Rightarrow> ModuleHeader" where
  "header_read m =
     \<lparr>mh_Magic = [0, 0, 0, 0], mh_Version = BytecodeVersion, mh_Flags = mh_Flags (mod_Header m),
      mh_EntryIdx = mh_EntryIdx (mod_Header m), mh_NumSyms = of_nat (length (mod_Symbols m)),
      mh_NumFuncs = of_nat (length (mod_Functions m)), mh_NumKerns = of_nat (length (mod_Kernels m)),
      mh_NumQPU = of_nat (length (mod_Circuits m)), mh_NumTen = of_nat (length (mod_Tensors m)),
      mh_OffsetSym = 40\<rparr>"

definition module_read :: "Module \<Rightarrow> Module" where
  "module_read m = m\<lparr>mod_Header := header_read m, mod_Tensors := map graph_read (mod_Tensors m), mod_Sections := []\<rparr>"

lemma enc_bytes: "concat (map (enc_of WriteByteVal) xs) = xs"
  by (induction xs) (simp_all add: enc_of_def WriteByteVal_def)

lemma reads_magic: "reads (rep_read 4 rdByte) magicBytes magicBytes"
  using byte_codec.rep_enc [of magicBytes 4]
  by (simp add: magicBytes_def enc_of_def WriteByteVal_def)

lemma reads_header: "reads (readHeader BytecodeVersion) (header_bytes m) (header_read m)"
  unfolding readHeader_def header_bytes_def header_read_def by (auto intro!: codec_reads)

lemma reads_body:
  assumes "module_ok m"
  shows "reads (readBody (header_read m)) (body_bytes m) (module_read m)"
  unfolding readBody_def readSymbolTable_def readFunctions_def readGPUKernels_def
    readQuantumCircuits_def readTensorGraphs_def body_bytes_def
  by (use assms in \<open>auto simp: module_ok_def module_read_def enc_simps intro!: codec_reads\<close>)

text \<open>A reader's result on data of which it only needs the start.\<close>

lemma reads_run:
  assumes "reads m bs x" and "drop (rpos r) (rdata r) = bs @ post" and "rpos r \<le> length (rdata r)"
  shows "run_state m r = (x, r\<lparr>rpos := rpos r + length bs\<rparr>)"
proof -
  define pre where "pre = take (rpos r) (rdata r)"
  have "r = \<lparr>rdata = pre @ bs @ post, rpos = length pre\<rparr>"
    using assms(2,3) append_take_drop_id [of "rpos r" "rdata r"] by (cases r) (simp add: pre_def)
  with assms(1) show ?thesis by (simp add: reads_def)
qed

lemma DeserializeModule_SerializeModule_read:
  assumes "module_ok m"
  shows "DeserializeModule (SerializeModule m) = Inr (module_read m)"
proof -
  let ?d = "SerializeModule m" and ?v = "enc_of WriteUint32 BytecodeVersion"
  have d: "?d = magicBytes @ ?v @ header_bytes m @ body_bytes m @ [SectionEOF]"
    by (rule SerializeModule_layout)
  have len: "length magicBytes = 4" "length ?v = 4" "length (header_bytes m) = 32"
    by (simp_all add: magicBytes_def header_bytes_def enc_of_def WriteUint32_def)
  have "run_state (rep_read 4 rdByte) \<lparr>rdata = ?d, rpos = 0\<rparr> = (magicBytes, \<lparr>rdata = ?d, rpos = 4\<rparr>)"
    by (subst reads_run [OF reads_magic, where post = "?v @ header_bytes m @ body_bytes m @ [SectionEOF]"])
       (simp_all add: d len)
  moreover have "run_state rdUint32 \<lparr>rdata = ?d, rpos = 4\<rparr> = (BytecodeVersion, \<lparr>rdata = ?d, rpos = 8\<rparr>)"
    by (subst reads_run [OF u32_codec.rdr_enc [of BytecodeVersion], where post = "header_bytes m @ body_bytes m @ [SectionEOF]"])
       (simp_all add: d len)
  moreover have "run_state (readHeader BytecodeVersion) \<lparr>rdata = ?d, rpos = 8\<rparr> = (header_read m, \<lparr>rdata = ?d, rpos = 40\<rparr>)"
    by (subst reads_run [OF reads_header [of m], where post = "body_bytes m @ [SectionEOF]"]) (simp_all add: d len)
  moreover have "fst (run_state (readBody (header_read m)) \<lparr>rdata = ?d, rpos = 40\<rparr>) = module_read m"
    by (subst reads_run [OF reads_body [OF assms], where post = "[SectionEOF]"]) (simp_all add: d len)
  moreover have "mh_OffsetSym (header_read m) = 40" by (simp add: header_read_def)
  ultimately show ?thesis
    by (simp add: DeserializeModule_def d len)
qed

section \<open>Opcode names\<close>

text \<open>The opcode constants are consecutive in four ranges: the CPU opcodes from 0
  (\<open>OpNop\<close> to \<open>OpAssert\<close>), the GPU opcodes from 0x40, the quantum opcodes from 0x80 and
  the tensor opcodes from 0xA0.\<close>

definition OpAssert :: byte where "OpAssert = 38"
definition OpGPUKernel :: byte where "OpGPUKernel = 0x40"
definition OpGPUSetArg :: byte where "OpGPUSetArg = 0x48"
definition OpQPUH :: byte where "OpQPUH = 0x80"
definition OpQPUSnapshot :: byte where "OpQPUSnapshot = 0x90"
definition OpTensorCreate :: byte where "OpTensorCreate = 0xA0"
definition OpTensorBackward :: byte where "OpTensorBackward = 0xA8"

lemmas opcode_defs = OpAssert_def OpGPUKernel_def OpGPUSetArg_def OpQPUH_def OpQPUSnapshot_def
  OpTensorCreate_def OpTensorBackward_def

definition cpuNames :: "string list" where
  "cpuNames = [
      ''nop'', ''const_int'', ''const_float'', ''const_bool'', ''const_string'', ''load'',
      ''store'', ''add'', ''sub'', ''mul'', ''div'', ''mod'', ''neg'', ''not'', ''and'',
      ''or'', ''eq'', ''neq'', ''lt'', ''le'', ''gt'', ''ge'', ''jump'', ''jump_if'',
      ''jump_if_not'', ''call'', ''return'', ''pop'', ''dup'', ''print'', ''cast'',
      ''index'', ''field'', ''new_struct'', ''new_array'', ''array_push'', ''array_len'',
      ''make_slice'', ''assert'']"

definition gpuNames :: "string list" where
  "gpuNames = [
      ''gpu_kernel'', ''gpu_buf_alloc'', ''gpu_buf_free'', ''gpu_buf_write'',
      ''gpu_buf_read'', ''gpu_dispatch'', ''gpu_sync'', ''gpu_build_kernel'', ''gpu_set_arg'']"

definition qpuNames :: "string list" where
  "qpuNames = [
      ''qpu_h'', ''qpu_x'', ''qpu_y'', ''qpu_z'', ''qpu_xor'', ''qpu_yor'', ''qpu_zor'',
      ''qpu_rx'', ''qpu_ry'', ''qpu_rz'', ''qpu_ccx'', ''qpu_measure'', ''qpu_circuit'',
      ''qpu_qubit'', ''qpu_clear'', ''qpu_barrier'', ''qpu_snapshot'']"

definition tensorNames :: "string list" where
  "tensorNames = [
      ''tensor_create'', ''tensor_add'', ''tensor_mul'', ''tensor_matmul'',
      ''tensor_reshape'', ''tensor_slice'', ''tensor_sum'', ''tensor_grad'',
      ''tensor_backward'']"

definition cpuOpcodeName :: "byte \<Rightarrow> string" where
  "cpuOpcodeName op =
     (if unat op < length cpuNames then cpuNames ! unat op else ''unknown_cpu'')"

text \<open>The callers guarantee \<open>op\<close> is at least the first opcode of its range, so the index is not
  negative; the GPU lookup, unlike the other two, does not check it.\<close>

definition gpuOpcodeName :: "byte \<Rightarrow> string" where
  "gpuOpcodeName op =
     (let idx = uint op - uint OpGPUKernel
      in if idx < int (length gpuNames) then gpuNames ! nat idx else ''unknown_gpu'')"

definition qpuOpcodeName :: "byte \<Rightarrow> string" where
  "qpuOpcodeName op =
     (let idx = uint op - uint OpQPUH
      in if idx \<ge> 0 \<and> idx < int (length qpuNames) then qpuNames ! nat idx else ''unknown_qpu'')"

definition tensorOpcodeName :: "byte \<Rightarrow> string" where
  "tensorOpcodeName op =
     (let idx = uint op - uint OpTensorCreate
      in if idx \<ge> 0 \<and> idx < int (length tensorNames) then tensorNames ! nat idx else ''unknown_tensor'')"

definition hexDigit :: "nat \<Rightarrow> char" where
  "hexDigit n = ''0123456789ABCDEF'' ! n"

definition OpcodeName :: "byte \<Rightarrow> string" where
  "OpcodeName op =
     (if op \<le> OpAssert then cpuOpcodeName op
      else if op \<ge> OpGPUKernel \<and> op \<le> OpGPUSetArg then gpuOpcodeName op
      else if op \<ge> OpQPUH \<and> op \<le> OpQPUSnapshot then qpuOpcodeName op
      else if op \<ge> OpTensorCreate \<and> op \<le> OpTensorBackward then tensorOpcodeName op
      else ''Unknown(0x'' @ [hexDigit (unat op div 16), hexDigit (unat op mod 16)] @ '')'')"

text \<open>The valid opcodes index one table of distinct names.\<close>

definition allNames :: "string list" where
  "allNames = cpuNames @ gpuNames @ qpuNames @ tensorNames"

definition opcode_valid :: "byte \<Rightarrow> bool" where
  "opcode_valid op \<longleftrightarrow> op \<le> OpAssert \<or> (op \<ge> OpGPUKernel \<and> op \<le> OpGPUSetArg)
     \<or> (op \<ge> OpQPUH \<and> op \<le> OpQPUSnapshot) \<or> (op \<ge> OpTensorCreate \<and> op \<le> OpTensorBackward)"

definition opcode_index :: "byte \<Rightarrow> nat" where
  "opcode_index op =
     (if unat op \<le> 38 then unat op else if unat op \<le> 0x48 then unat op - 0x40 + 39
      else if unat op \<le> 0x90 then unat op - 0x80 + 48 else unat op - 0xA0 + 65)"

lemma allNames_distinct: "distinct allNames"
  by code_simp

lemma word_unat_less: "unat (b :: byte) < 256"
  using unsigned_less [of b] by simp

lemma hexDigit_inj: "a < 16 \<Longrightarrow> b < 16 \<Longrightarrow> hexDigit a = hexDigit b \<Longrightarrow> a = b"
proof -
  have "distinct (''0123456789ABCDEF'' :: string)" by simp
  from nth_eq_iff_index_eq [OF this] show "a < 16 \<Longrightarrow> b < 16 \<Longrightarrow> hexDigit a = hexDigit b \<Longrightarrow> a = b"
    by (simp add: hexDigit_def)
qed

lemma names_length: "length cpuNames = 39" "length gpuNames = 9" "length qpuNames = 17" "length tensorNames = 9"
  by (simp_all add: cpuNames_def gpuNames_def qpuNames_def tensorNames_def)

lemma opcode_bounds: "opcode_valid op \<longleftrightarrow> unat op \<le> 38 \<or> (0x40 \<le> unat op \<and> unat op \<le> 0x48)
    \<or> (0x80 \<le> unat op \<and> unat op \<le> 0x90) \<or> (0xA0 \<le> unat op \<and> unat op \<le> 0xA8)"
  by (simp add: opcode_valid_def opcode_defs word_le_nat_alt)

lemma rangeName:
  fixes op base :: byte
  assumes "unat base \<le> unat op" and "unat op < unat base + length names"
  shows "(let idx = uint op - uint base in if idx < int (length names) then names ! nat idx else other)
      = names ! (unat op - unat base)"
    and "(let idx = uint op - uint base in if idx \<ge> 0 \<and> idx < int (length names) then names ! nat idx else other)
      = names ! (unat op - unat base)"
proof -
  define k where "k = unat op - unat base"
  have e: "uint op - uint base = int k"
    using assms(1) by (simp add: of_nat_diff k_def)
  have k: "k < length names" using assms by (simp add: k_def)
  show "(let idx = uint op - uint base in if idx < int (length names) then names ! nat idx else other)
      = names ! (unat op - unat base)"
    and "(let idx = uint op - uint base in if idx \<ge> 0 \<and> idx < int (length names) then names ! nat idx else other)
      = names ! (unat op - unat base)"
    unfolding e Let_def k_def [symmetric] using k by auto
qed

lemma OpcodeName_valid:
  assumes "opcode_valid op"
  shows "OpcodeName op = allNames ! opcode_index op \<and> opcode_index op < 74"
proof -
  consider "unat op \<le> 38" | "0x40 \<le> unat op" "unat op \<le> 0x48"
    | "0x80 \<le> unat op" "unat op \<le> 0x90" | "0xA0 \<le> unat op" "unat op \<le> 0xA8"
    using assms by (auto simp: opcode_bounds)
  then show ?thesis
  proof cases
    case 1
    then show ?thesis
      by (simp add: OpcodeName_def cpuOpcodeName_def opcode_defs word_le_nat_alt names_length
          opcode_index_def allNames_def nth_append)
  next
    case 2
    define k where "k = unat op - 0x40"
    have k: "unat op = 0x40 + k" "k < 9" using 2 by (simp_all add: k_def)
    then have "gpuOpcodeName op = gpuNames ! k"
      using rangeName(1) [of OpGPUKernel op gpuNames] by (simp add: gpuOpcodeName_def OpGPUKernel_def names_length)
    with k show ?thesis
      by (simp add: OpcodeName_def opcode_defs word_le_nat_alt names_length opcode_index_def allNames_def nth_append)
  next
    case 3
    define k where "k = unat op - 0x80"
    have k: "unat op = 0x80 + k" "k < 17" using 3 by (simp_all add: k_def)
    then have "qpuOpcodeName op = qpuNames ! k"
      using rangeName(2) [of OpQPUH op qpuNames] by (simp add: qpuOpcodeName_def OpQPUH_def names_length)
    with k show ?thesis
      by (simp add: OpcodeName_def opcode_defs word_le_nat_alt names_length opcode_index_def allNames_def nth_append)
  next
    case 4
    define k where "k = unat op - 0xA0"
    have k: "unat op = 0xA0 + k" "k < 9" using 4 by (simp_all add: k_def)
    then have "tensorOpcodeName op = tensorNames ! k"
      using rangeName(2) [of OpTensorCreate op tensorNames] by (simp add: tensorOpcodeName_def OpTensorCreate_def names_length)
    with k show ?thesis
      by (simp add: OpcodeName_def opcode_defs word_le_nat_alt names_length opcode_index_def allNames_def nth_append)
  qed
qed

lemma OpcodeName_invalid:
  assumes "\<not> opcode_valid op"
  shows "OpcodeName op = ''Unknown(0x'' @ [hexDigit (unat op div 16), hexDigit (unat op mod 16)] @ '')''"
  using assms by (auto simp: OpcodeName_def opcode_valid_def)

lemma OpcodeName_known:
  assumes "opcode_valid op"
  shows "OpcodeName op \<in> set allNames"
  using OpcodeName_valid [OF assms] nth_mem [of "opcode_index op" allNames]
  by (simp add: names_length allNames_def del: nth_mem)

lemma allNames_not_Unknown: "\<forall>n \<in> set allNames. take 7 n \<noteq> ''Unknown''"
  by code_simp

lemma OpcodeName_valid_invalid:
  assumes "opcode_valid a" and "\<not> opcode_valid b"
  shows "OpcodeName a \<noteq> OpcodeName b"
  using OpcodeName_known [OF assms(1)] OpcodeName_invalid [OF assms(2)] allNames_not_Unknown by auto

lemma opcode_index_inj:
  "opcode_valid a \<Longrightarrow> opcode_valid b \<Longrightarrow> opcode_index a = opcode_index b \<Longrightarrow> a = b"
  by (auto simp: opcode_bounds opcode_index_def word_unat_eq_iff split: if_splits)

section \<open>Properties\<close>

text \<open>The smallest module that has every kind of section.\<close>

definition sample_type :: TypeDesc where
  "sample_type = TypeDesc 7 ''[]int'' 8 (Some (TypeDesc 1 ''int'' 8 None))"

definition sample_module :: "32 word list \<Rightarrow> Module" where
  "sample_module shape =
     \<lparr>mod_Header = \<lparr>mh_Magic = magicBytes, mh_Version = 1, mh_Flags = 2, mh_EntryIdx = 0, mh_NumSyms = 0,
        mh_NumFuncs = 0, mh_NumKerns = 0, mh_NumQPU = 0, mh_NumTen = 0, mh_OffsetSym = 0\<rparr>,
      mod_Symbols = [\<lparr>se_Name = ''main'', se_Kind = 0, se_Idx = 0, se_IsExported = True, se_IsPublic = False\<rparr>],
      mod_Functions = [\<lparr>fn_Name = ''main'', fn_NumParams = 1, fn_NumLocals = 1,
        fn_Params = [\<lparr>pi_Name = ''xs'', pi_Type = sample_type\<rparr>],
        fn_Locals = [\<lparr>li_Name = ''n'', li_Type = sample_type, li_Index = 1\<rparr>],
        fn_Instructions = [\<lparr>in_Op = 1, in_Arg0 = 0, in_Arg1 = 0, in_Arg2 = 0, in_Imm = -5\<rparr>]\<rparr>],
      mod_Kernels = [\<lparr>gk_Name = ''k'', gk_SourceLang = ''wgsl'', gk_Source = [], gk_NumBuffers = 2,
        gk_WorkGroup = (64, 1, 1), gk_Params = [], gk_Instructions = []\<rparr>],
      mod_Circuits = [\<lparr>qc_Name = ''bell'', qc_NumQubits = 2, qc_NumBits = 2,
        qc_Gates = [\<lparr>qg_Op = 0x80, qg_Qubits = [0, 1], qg_Angle = 0, qg_Control = 0\<rparr>], qc_Params = []\<rparr>],
      mod_Tensors = [\<lparr>tg_Name = ''t'', tg_NumInputs = 1,
        tg_Nodes = [\<lparr>tn_Op = 0xA0, tn_Name = ''a'', tn_Shape = shape, tn_Inputs = [0]\<rparr>],
        tg_Edges = [\<lparr>te_From = 0, te_To = 0\<rparr>]\<rparr>],
      mod_Sections = []\<rparr>"

lemma sample_module_ok: "length shape < 2 ^ 32 \<Longrightarrow> module_ok (sample_module shape)"
  by (simp add: sample_module_def module_ok_def symbol_ok_def function_ok_def kernel_ok_def circuit_ok_def
      graph_ok_def gate_ok_def node_ok_def param_ok_def local_ok_def sample_type_def string_ok_def MaxStringLen_def)

definition shapes_of :: "Module \<Rightarrow> 32 word list list" where
  "shapes_of m = concat (map (\<lambda>t. map tn_Shape (tg_Nodes t)) (mod_Tensors m))"

lemma graph_read_id: "(\<forall>n \<in> set (tg_Nodes t). tn_Shape n = []) \<longleftrightarrow> graph_read t = t"
proof -
  have "node_read n = n \<longleftrightarrow> tn_Shape n = []" for n
    by (cases n) (simp add: node_read_def)
  then have "map node_read ns = ns \<longleftrightarrow> (\<forall>n \<in> set ns. tn_Shape n = [])" for ns
    by (induction ns) auto
  then show ?thesis by (cases t) (simp add: graph_read_def)
qed

lemma graphs_read_id: "map graph_read ts = ts \<longleftrightarrow> (\<forall>t \<in> set ts. \<forall>n \<in> set (tg_Nodes t). tn_Shape n = [])"
  by (induction ts) (auto simp: graph_read_id)

lemma shapes_empty: "(\<forall>s \<in> set (shapes_of m). s = []) \<longleftrightarrow> map graph_read (mod_Tensors m) = mod_Tensors m"
  by (auto simp: shapes_of_def graphs_read_id)

lemma zeros_append_inj:
  assumes "replicate (length xs) z @ xs = replicate (length ys) z @ ys"
  shows "xs = ys"
proof -
  have "length xs + length xs = length ys + length ys"
    using arg_cong [OF assms, of length] by simp
  then have "length xs = length ys" by simp
  with assms show ?thesis by simp
qed

lemma node_read_inj: "node_read x = node_read y \<Longrightarrow> x = y"
  by (cases x, cases y) (auto simp: node_read_def dest: zeros_append_inj)

lemma graph_read_inj: "graph_read t = graph_read u \<Longrightarrow> t = u"
proof -
  have "inj node_read" by (rule injI) (rule node_read_inj)
  then show "graph_read t = graph_read u \<Longrightarrow> t = u"
    by (cases t, cases u) (simp add: graph_read_def inj_map_eq_map)
qed



text \<open>C26. What the reader makes of any admissible module: everything but the tensor shapes comes
  back, and the tensor graphs come back unchanged only if every shape is empty (the reader puts as
  many zeros in front of a shape as it has dimensions).\<close>

theorem kbc_tensor_shapes_not_preserved:
  assumes "module_ok m"
  shows "\<exists>m'. DeserializeModule (SerializeModule m) = Inr m' \<and> mod_Symbols m' = mod_Symbols m
     \<and> mod_Functions m' = mod_Functions m \<and> mod_Kernels m' = mod_Kernels m \<and> mod_Circuits m' = mod_Circuits m
     \<and> shapes_of m' = map (\<lambda>s. replicate (length s) 0 @ s) (shapes_of m)
     \<and> (mod_Tensors m' = mod_Tensors m \<longleftrightarrow> (\<forall>s \<in> set (shapes_of m). s = []))"
proof -
  have "shapes_of (module_read m) = map (\<lambda>s. replicate (length s) 0 @ s) (shapes_of m)"
    by (simp add: shapes_of_def module_read_def map_concat comp_def graph_read_def node_read_def)
  then show ?thesis
    using DeserializeModule_SerializeModule_read [OF assms]
    by (simp add: shapes_empty) (simp add: module_read_def)
qed

theorem kbc_tensor_shapes_not_preserved_witness:
  "\<exists>m'. DeserializeModule (SerializeModule (sample_module [2, 3])) = Inr m'
     \<and> shapes_of m' = [[0, 0, 2, 3]] \<and> mod_Tensors m' \<noteq> mod_Tensors (sample_module [2, 3])"
proof -
  have "shapes_of (sample_module [2, 3]) = [[2, 3]]"
    by (simp add: shapes_of_def sample_module_def)
  moreover have "module_ok (sample_module [2, 3])" by (rule sample_module_ok) simp
  ultimately show ?thesis
    using kbc_tensor_shapes_not_preserved [of "sample_module [2, 3]"] by fastforce
qed

text \<open>The encoding loses nothing the writer is given: two admissible modules with the same
  bytes have the same sections, flags and entry index.\<close>

theorem kbc_injective:
  assumes "module_ok m" and "module_ok n" and "SerializeModule m = SerializeModule n"
  shows "mod_Symbols m = mod_Symbols n \<and> mod_Functions m = mod_Functions n \<and> mod_Kernels m = mod_Kernels n
     \<and> mod_Circuits m = mod_Circuits n \<and> mod_Tensors m = mod_Tensors n
     \<and> mh_Flags (mod_Header m) = mh_Flags (mod_Header n) \<and> mh_EntryIdx (mod_Header m) = mh_EntryIdx (mod_Header n)"
proof -
  have eq: "module_read m = module_read n"
    using DeserializeModule_SerializeModule_read [OF assms(1)]
      DeserializeModule_SerializeModule_read [OF assms(2)] assms(3) by simp
  have "inj graph_read" by (rule injI) (rule graph_read_inj)
  moreover have "map graph_read (mod_Tensors m) = map graph_read (mod_Tensors n)"
    using arg_cong [OF eq, of mod_Tensors] by (simp add: module_read_def)
  ultimately have "mod_Tensors m = mod_Tensors n" by (simp add: inj_map_eq_map)
  with eq show ?thesis
    by (cases m, cases n) (simp add: module_read_def header_read_def)
qed

theorem kbc_injective_witness:
  "mod_Symbols (sample_module [2])
     = mod_Symbols ((sample_module [2])\<lparr>mod_Sections := [\<lparr>sc_Type = 1, sc_Offset = 0, sc_Size = 0\<rparr>]\<rparr>)"
proof -
  have "module_ok (sample_module [2])" by (rule sample_module_ok) simp
  moreover have "module_ok ((sample_module [2])\<lparr>mod_Sections := s\<rparr>) = module_ok (sample_module [2])" for s
    by (simp add: module_ok_def)
  moreover have "SerializeModule (sample_module [2]) = SerializeModule ((sample_module [2])\<lparr>mod_Sections := s\<rparr>)" for s
    by (simp add: SerializeModule_layout header_bytes_def body_bytes_def)
  ultimately show ?thesis
    using kbc_injective [of "sample_module [2]" "(sample_module [2])\<lparr>mod_Sections := [\<lparr>sc_Type = 1, sc_Offset = 0, sc_Size = 0\<rparr>]\<rparr>"]
    by blast
qed

definition version_field :: "byte list \<Rightarrow> u32" where
  "version_field data = ucast (data ! 4) OR push_bit 8 (ucast (data ! 5)) OR push_bit 16 (ucast (data ! 6))
     OR push_bit 24 (ucast (data ! 7))"

text \<open>C25. The reader is total and refuses exactly three kinds of input, in this order: fewer than
  40 bytes, four wrong magic bytes, and a version above the supported one.\<close>

theorem DeserializeModule_errors:
  "(DeserializeModule data = Inl FileTooSmall \<longleftrightarrow> length data < 40)
   \<and> (DeserializeModule data = Inl (InvalidMagic magic) \<longleftrightarrow>
        40 \<le> length data \<and> magic = take 4 data \<and> magic \<noteq> magicBytes)
   \<and> (DeserializeModule data = Inl (UnsupportedVersion version) \<longleftrightarrow>
        40 \<le> length data \<and> take 4 data = magicBytes \<and> version = version_field data \<and> version > 1)"
proof (cases "length data < 40")
  case False
  have "reads (rep_read 4 rdByte) (take 4 data) (take 4 data)"
    using byte_codec.rep_enc [of "take 4 data" 4] False by (simp add: enc_simps enc_bytes)
  from reads_run [OF this, where post = "drop 4 data"] False
  have "run_state (rep_read 4 rdByte) \<lparr>rdata = data, rpos = 0\<rparr> = (take 4 data, \<lparr>rdata = data, rpos = 4\<rparr>)"
    by simp
  moreover have "run_state rdUint32 \<lparr>rdata = data, rpos = 4\<rparr> = (version_field data, \<lparr>rdata = data, rpos = 8\<rparr>)"
    using False by (simp add: rd_def ReadUint32_def ReadBytes_def version_field_def)
  ultimately show ?thesis
    using False by (auto simp: DeserializeModule_def Let_def BytecodeVersion_def split: prod.splits)
qed (simp add: DeserializeModule_def)

text \<open>Distinct opcodes have distinct printed names, over all 256 bytes; a byte that is no opcode
  prints as \<open>Unknown(0x..)\<close>, which is no opcode's name.\<close>

theorem OpcodeName_inj: "inj OpcodeName"
proof (rule injI)
  fix a b :: byte
  assume eq: "OpcodeName a = OpcodeName b"
  show "a = b"
  proof (cases "opcode_valid a"; cases "opcode_valid b")
    assume "opcode_valid a" "opcode_valid b"
    then show ?thesis
      using eq OpcodeName_valid [of a] OpcodeName_valid [of b] nth_eq_iff_index_eq [OF allNames_distinct]
      by (simp add: allNames_def names_length opcode_index_inj)
  next
    assume "\<not> opcode_valid a" "\<not> opcode_valid b"
    then have "unat a div 16 = unat b div 16" "unat a mod 16 = unat b mod 16"
      using eq word_unat_less [of a] word_unat_less [of b]
      by (auto simp: OpcodeName_invalid less_mult_imp_div_less intro!: hexDigit_inj)
    then show ?thesis by (metis div_mult_mod_eq word_unat_eq_iff)
  qed (use eq OpcodeName_valid_invalid in metis)+
qed


end
