(* ===== verification/Wasm_Module.thy ===== *)
theory Wasm_Module
  imports Leb128 "HOL-Library.Monad_Syntax"
begin

text \<open>
  The WebAssembly module writer (pkg/wasm/module.go) and the component envelope
  (pkg/wasm/component.go).  \<open>ModuleBuilder\<close> is the record of its Go struct, the section builder
  is its buffer, and \<open>Encode\<close> is the composition of one function per section.  Go \<open>int\<close>
  fields are 64-bit words, read signed where the source compares them.

  The reference against which the writer is proved is a decoder of the binary format, written as
  functions from bytes to a value and the remaining bytes: \<open>dec_sections\<close> cuts a module into
  sections, and \<open>dec_types\<close>, \<open>dec_imports\<close>, \<open>dec_funcs\<close>, \<open>dec_exports\<close>,
  \<open>dec_codes\<close> and \<open>dec_datas\<close> read their payloads.  The locale \<open>byte_format\<close> is the
  contract between an encoder and its decoder.
\<close>

section \<open>Data types\<close>

type_synonym ValueType = byte

definition I32 :: ValueType where "I32 = 0x7f"
definition I64 :: ValueType where "I64 = 0x7e"
definition F32 :: ValueType where "F32 = 0x7d"
definition F64 :: ValueType where "F64 = 0x7c"

record FuncType =
  ft_Params :: "ValueType list"
  ft_Results :: "ValueType list"

definition ImportFunc :: byte where "ImportFunc = 0"
definition ImportMem :: byte where "ImportMem = 2"

definition ExportFunc :: byte where "ExportFunc = 0"
definition ExportMemory :: byte where "ExportMemory = 2"
definition ExportGlobal :: byte where "ExportGlobal = 3"

record Import =
  im_Module :: string
  im_Field :: string
  im_Kind :: byte
  im_TypeIdx :: i64
  im_Min :: i64

record Export =
  ex_Name :: string
  ex_Kind :: byte
  ex_Idx :: i64

record Global =
  gl_Type :: ValueType
  gl_Mut :: bool
  gl_Init :: "byte list"

record DataSeg =
  ds_Offset :: i64
  ds_Bytes :: "byte list"

record Code =
  cd_Body :: "byte list"
  cd_Locals :: "ValueType list"

record ModuleBuilder =
  mb_Types :: "FuncType list"
  mb_Imports :: "Import list"
  mb_FuncTypes :: "i64 list"
  mb_Globals :: "Global list"
  mb_Exports :: "Export list"
  mb_HasStart :: bool
  mb_StartIdx :: i64
  mb_Data :: "DataSeg list"
  mb_MemoryMin :: i64
  mb_MemoryMax :: i64
  mb_Codes :: "Code list"

section \<open>Interning function types\<close>

text \<open>The comparison loops of \<open>AddType\<close>; they run over equally long slices.\<close>

fun same_types :: "ValueType list \<Rightarrow> ValueType list \<Rightarrow> bool" where
  "same_types (a # as) (b # bs) = (if a \<noteq> b then False else same_types as bs)"
| "same_types _ _ = True"

definition AddType_match :: "FuncType \<Rightarrow> FuncType \<Rightarrow> bool" where
  "AddType_match t fn \<longleftrightarrow>
     (if length (ft_Params t) = length (ft_Params fn) \<and> length (ft_Results t) = length (ft_Results fn)
      then (let same = same_types (ft_Params t) (ft_Params fn)
            in if same then same_types (ft_Results t) (ft_Results fn) else False)
      else False)"

fun AddType_find :: "nat \<Rightarrow> FuncType list \<Rightarrow> FuncType \<Rightarrow> nat option" where
  "AddType_find i [] fn = None"
| "AddType_find i (t # ts) fn = (if AddType_match t fn then Some i else AddType_find (i + 1) ts fn)"

definition AddType :: "ModuleBuilder \<Rightarrow> FuncType \<Rightarrow> nat \<times> ModuleBuilder" where
  "AddType m fn =
     (case AddType_find 0 (mb_Types m) fn of
        Some i \<Rightarrow> (i, m)
      | None \<Rightarrow> (let m' = m\<lparr>mb_Types := mb_Types m @ [fn]\<rparr> in (length (mb_Types m') - 1, m')))"

section \<open>Section builder\<close>

type_synonym secBuilder = "byte list"

definition sb_byte :: "byte \<Rightarrow> secBuilder \<Rightarrow> secBuilder" where
  "sb_byte v s = s @ [v]"

definition sb_raw :: "byte list \<Rightarrow> secBuilder \<Rightarrow> secBuilder" where
  "sb_raw p s = s @ p"

definition sb_ul :: "u64 \<Rightarrow> secBuilder \<Rightarrow> secBuilder" where
  "sb_ul v s = appendUleb s v"

definition sb_uln :: "nat \<Rightarrow> secBuilder \<Rightarrow> secBuilder" where
  "sb_uln n s = appendUleb s (of_nat n)"

definition sb_uint32 :: "u32 \<Rightarrow> secBuilder \<Rightarrow> secBuilder" where
  "sb_uint32 v s = appendUleb s (ucast v)"

definition sb_sl :: "i64 \<Rightarrow> secBuilder \<Rightarrow> secBuilder" where
  "sb_sl v s = appendSleb s v"

definition sb_str :: "string \<Rightarrow> secBuilder \<Rightarrow> secBuilder" where
  "sb_str p s = sb_ul (of_nat (length p)) s @ bytes_of p"

definition sb_bytesv :: "byte list \<Rightarrow> secBuilder \<Rightarrow> secBuilder" where
  "sb_bytesv p s = sb_ul (of_nat (length p)) s @ p"

definition sb_typedVec :: "ValueType list \<Rightarrow> secBuilder \<Rightarrow> secBuilder" where
  "sb_typedVec v s = fold sb_byte v (sb_uln (length v) s)"

definition sb_sub :: "secBuilder \<Rightarrow> secBuilder \<Rightarrow> secBuilder" where
  "sb_sub other s = sb_uln (length other) s @ other"

definition sb_appendTo :: "secBuilder \<Rightarrow> byte list \<Rightarrow> byte list" where
  "sb_appendTo s dst = appendUleb dst (of_nat (length s)) @ s"

record groupedLocal =
  lg_typ :: ValueType
  lg_count :: nat

definition runLengthLocals_step :: "groupedLocal list \<Rightarrow> ValueType \<Rightarrow> groupedLocal list" where
  "runLengthLocals_step out t =
     (if length out = 0 \<or> lg_typ (out ! (length out - 1)) \<noteq> t
      then out @ [\<lparr>lg_typ = t, lg_count = 1\<rparr>]
      else out[length out - 1 := (out ! (length out - 1))\<lparr>lg_count := lg_count (out ! (length out - 1)) + 1\<rparr>])"

definition runLengthLocals :: "ValueType list \<Rightarrow> groupedLocal list" where
  "runLengthLocals l = foldl runLengthLocals_step [] l"

section \<open>Encode\<close>

definition encType :: "FuncType \<Rightarrow> secBuilder \<Rightarrow> secBuilder" where
  "encType t sb = sb_typedVec (ft_Results t) (sb_typedVec (ft_Params t) (sb_byte 0x60 sb))"

definition encImport :: "Import \<Rightarrow> secBuilder \<Rightarrow> secBuilder" where
  "encImport im sb =
     (let sb = sb_byte (im_Kind im) (sb_str (im_Field im) (sb_str (im_Module im) sb))
      in if im_Kind im = ImportFunc then sb_uint32 (ucast (im_TypeIdx im)) sb
         else if im_Kind im = ImportMem then sb_uint32 (ucast (im_Min im)) (sb_byte 0 sb)
         else sb)"

definition encGlobal :: "Global \<Rightarrow> secBuilder \<Rightarrow> secBuilder" where
  "encGlobal g sb =
     (let sb = sb_byte (gl_Type g) sb;
          sb = (if gl_Mut g then sb_byte 1 sb else sb_byte 0 sb)
      in sb_raw (gl_Init g) sb)"

definition encExport :: "Export \<Rightarrow> secBuilder \<Rightarrow> secBuilder" where
  "encExport e sb = sb_uint32 (ucast (ex_Idx e)) (sb_byte (ex_Kind e) (sb_str (ex_Name e) sb))"

definition encGroup :: "groupedLocal \<Rightarrow> secBuilder \<Rightarrow> secBuilder" where
  "encGroup g cb = sb_byte (lg_typ g) (sb_uln (lg_count g) cb)"

definition encCode :: "Code \<Rightarrow> secBuilder \<Rightarrow> secBuilder" where
  "encCode c sb =
     (let groups = runLengthLocals (cd_Locals c);
          cb = fold encGroup groups (sb_uln (length groups) []);
          cb = sb_raw (cd_Body c) cb
      in sb_sub cb sb)"

definition encData :: "DataSeg \<Rightarrow> secBuilder \<Rightarrow> secBuilder" where
  "encData d sb =
     sb_bytesv (ds_Bytes d) (sb_byte 0x0b (sb_sl (ds_Offset d) (sb_byte 0x41 (sb_byte 0x00 sb))))"

text \<open>\<open>buf = append(buf, id); var sb secBuilder; sb.uln(len(xs)); for x in xs { enc }; buf = sb.appendTo(buf)\<close>\<close>

definition encVecSection :: "byte \<Rightarrow> ('a \<Rightarrow> secBuilder \<Rightarrow> secBuilder) \<Rightarrow> 'a list \<Rightarrow> byte list \<Rightarrow> byte list" where
  "encVecSection i enc xs buf =
     (if length xs > 0 then sb_appendTo (fold enc xs (sb_uln (length xs) [])) (buf @ [i]) else buf)"

definition encMemorySection :: "ModuleBuilder \<Rightarrow> byte list \<Rightarrow> byte list" where
  "encMemorySection m buf =
     (if sint (mb_MemoryMin m) > 0 \<or> sint (mb_MemoryMax m) \<ge> 0
      then (let sb = sb_byte 1 [];
                sb = (if sint (mb_MemoryMax m) \<ge> 0
                      then sb_uint32 (ucast (mb_MemoryMax m)) (sb_uint32 (ucast (mb_MemoryMin m)) (sb_byte 0x01 sb))
                      else sb_uint32 (ucast (mb_MemoryMin m)) (sb_byte 0x00 sb))
            in sb_appendTo sb (buf @ [5]))
      else buf)"

definition encStartSection :: "ModuleBuilder \<Rightarrow> byte list \<Rightarrow> byte list" where
  "encStartSection m buf =
     (if mb_HasStart m then sb_appendTo (sb_uint32 (ucast (mb_StartIdx m)) []) (buf @ [8]) else buf)"

definition encFuncIdx :: "i64 \<Rightarrow> secBuilder \<Rightarrow> secBuilder" where
  "encFuncIdx ti sb = sb_uint32 (ucast ti) sb"

definition Encode :: "ModuleBuilder \<Rightarrow> byte list" where
  "Encode m =
     (let buf = [0x00, 0x61, 0x73, 0x6d];
          buf = buf @ [0x01, 0x00, 0x00, 0x00];
          buf = encVecSection 1 encType (mb_Types m) buf;
          buf = encVecSection 2 encImport (mb_Imports m) buf;
          buf = encVecSection 3 encFuncIdx (mb_FuncTypes m) buf;
          buf = encMemorySection m buf;
          buf = encVecSection 6 encGlobal (mb_Globals m) buf;
          buf = encVecSection 7 encExport (mb_Exports m) buf;
          buf = encStartSection m buf;
          buf = encVecSection 10 encCode (mb_Codes m) buf
      in encVecSection 11 encData (mb_Data m) buf)"

definition MagicOK :: "byte list \<Rightarrow> bool" where
  "MagicOK b \<longleftrightarrow>
     (if length b < 8 then False
      else b ! 0 = 0x00 \<and> b ! 1 = 0x61 \<and> b ! 2 = 0x73 \<and> b ! 3 = 0x6d
         \<and> b ! 4 = 0x01 \<and> b ! 5 = 0x00 \<and> b ! 6 = 0x00 \<and> b ! 7 = 0x00)"

section \<open>The component envelope\<close>

text \<open>The reader of component.go: at most ten bytes, \<open>-1\<close> when the slice ends first.\<close>

fun readUleb10_loop :: "byte list \<Rightarrow> nat \<Rightarrow> nat \<Rightarrow> u64 \<Rightarrow> u64 \<times> int" where
  "readUleb10_loop [] i shift v = (0, -1)"
| "readUleb10_loop (c # b) i shift v =
     (if i \<ge> 10 then (0, -1)
      else let v = v OR push_bit shift (ucast (c AND 0x7f))
           in if c AND 0x80 = 0 then (v, int i + 1) else readUleb10_loop b (i + 1) (shift + 7) v)"

definition readUleb10 :: "byte list \<Rightarrow> u64 \<times> int" where
  "readUleb10 b = readUleb10_loop b 0 0 0"

definition asm_magic :: "byte list" where
  "asm_magic = [0x00, 0x61, 0x73, 0x6d]"

definition componentSectionCoreModule :: u64 where
  "componentSectionCoreModule = 2"

datatype component_error = NotCoreModule | TruncatedComponent | BadPreamble | NoCoreSection
  | TruncatedSection | PayloadLacksMagic

definition WrapComponent :: "byte list \<Rightarrow> component_error + byte list" where
  "WrapComponent core =
     (if length core < 8 \<or> take 4 core \<noteq> asm_magic then Inl NotCoreModule
      else (let out = asm_magic @ [0x01, 0x01];
                out = appendUleb out componentSectionCoreModule;
                out = appendUleb out (of_nat (length core))
            in Inr (out @ core)))"

definition UnwrapComponent :: "byte list \<Rightarrow> component_error + byte list" where
  "UnwrapComponent cmp =
     (if length cmp < 8 then Inl TruncatedComponent
      else if take 4 cmp \<noteq> asm_magic \<or> cmp ! 4 \<noteq> 0x01 \<or> cmp ! 5 \<noteq> 0x01 then Inl BadPreamble
      else let rest = drop 6 cmp in
        case readUleb10 rest of (i, n) \<Rightarrow>
          if n \<le> 0 \<or> i \<noteq> componentSectionCoreModule then Inl NoCoreSection
          else let rest = drop (nat n) rest in
            case readUleb10 rest of (sz, k) \<Rightarrow>
              if k \<le> 0 \<or> length (drop (nat k) rest) < unat sz then Inl TruncatedSection
              else let core = take (unat sz) (drop (nat k) rest) in
                if length core < 4 \<or> take 4 core \<noteq> asm_magic then Inl PayloadLacksMagic
                else Inr core)"

section \<open>The bytes each operation appends\<close>

named_theorems sb_simps \<open>a section builder operation is an append\<close>

lemmas sb_append [sb_simps] = sb_byte_def sb_raw_def sb_ul_def sb_uln_def sb_uint32_def sb_sl_def
  sb_str_def sb_bytesv_def sb_sub_def sb_appendTo_def appendUleb_uleb appendSleb_sleb

lemma fold_append:
  assumes "\<And>x s. f x s = s @ f x []"
  shows "fold f xs s = s @ concat (map (\<lambda>x. f x []) xs)"
proof (induction xs arbitrary: s)
  case (Cons x xs)
  then show ?case using assms [of x s] by simp
qed simp

lemma fold_sb_byte [sb_simps]: "fold sb_byte v s = s @ v"
  using fold_append [of sb_byte v s] by (simp add: sb_byte_def)

lemma sb_typedVec_append [sb_simps]: "sb_typedVec v s = s @ uleb (of_nat (length v)) @ v"
  by (simp add: sb_typedVec_def sb_simps)

section \<open>The reference decoder\<close>

type_synonym 'a decoder = "byte list \<Rightarrow> ('a \<times> byte list) option"

definition dec_u :: "u64 decoder" where
  "dec_u bs = (case readUleb10 bs of (v, n) \<Rightarrow> if n \<le> 0 then None else Some (v, drop (nat n) bs))"

definition dec_byte :: "byte decoder" where
  "dec_byte bs = (case bs of [] \<Rightarrow> None | b # bs \<Rightarrow> Some (b, bs))"

definition dec_take :: "nat \<Rightarrow> byte list decoder" where
  "dec_take n bs = (if n \<le> length bs then Some (take n bs, drop n bs) else None)"

definition dec_bytesv :: "byte list decoder" where
  "dec_bytesv bs = do { (n, bs) \<leftarrow> dec_u bs; dec_take (unat n) bs }"

primrec dec_rep :: "nat \<Rightarrow> 'a decoder \<Rightarrow> 'a list decoder" where
  "dec_rep 0 d bs = Some ([], bs)"
| "dec_rep (Suc n) d bs = do { (x, bs) \<leftarrow> d bs; (xs, bs) \<leftarrow> dec_rep n d bs; Some (x # xs, bs) }"

definition dec_vec :: "'a decoder \<Rightarrow> 'a list decoder" where
  "dec_vec d bs = do { (n, bs) \<leftarrow> dec_u bs; dec_rep (unat n) d bs }"

lemma readUleb10_loop_uleb:
  assumes "i + length (uleb v) \<le> 10"
  shows "readUleb10_loop (uleb v @ rest) i sh r = (r OR push_bit sh v, int i + int (length (uleb v)))"
  using assms
proof (induction v arbitrary: i sh r rule: measure_induct_rule [of unat])
  case (less v)
  show ?case
  proof (cases "drop_bit 7 v = 0")
    case True
    then have "push_bit sh (take_bit 7 v) = push_bit sh v"
      using split_at_7 [of sh v] by simp
    with True less.prems show ?thesis
      by (simp add: uleb_rec [of v] leb_simps)
  next
    case False
    then have "unat (drop_bit 7 v) < unat v"
      by (intro drop_bit_word_less) auto
    note IH = less.IH [OF this]
    have "(r OR push_bit sh (take_bit 7 v)) OR push_bit (sh + 7) (drop_bit 7 v) = r OR push_bit sh v"
      by (simp add: or.assoc split_at_7)
    with False less.prems show ?thesis
      by (simp add: uleb_rec [of v] leb_simps IH)
  qed
qed


lemma dec_u_uleb [sb_simps]: "dec_u (uleb v @ rest) = Some (v, rest)"
  using readUleb10_loop_uleb [of 0 v rest 0 0] uleb_length [of v] uleb_size [of v]
  by (auto simp: dec_u_def readUleb10_def)

lemma dec_byte_Cons [sb_simps]: "dec_byte (b # bs) = Some (b, bs)"
  by (simp add: dec_byte_def)

lemma dec_take_append: "n = length xs \<Longrightarrow> dec_take n (xs @ rest) = Some (xs, rest)"
  by (simp add: dec_take_def)

lemma unat_len [sb_simps]: "n < 18446744073709551616 \<Longrightarrow> unat (of_nat n :: u64) = n"
  by (simp add: unat_of_nat)

lemma dec_bytesv_append:
  "length p < 2 ^ 64 \<Longrightarrow> dec_bytesv (uleb (of_nat (length p)) @ p @ rest) = Some (p, rest)"
  by (simp add: dec_bytesv_def sb_simps dec_take_append)

text \<open>
  The contract of an encoder of the module writer and the decoder of the format: \<open>wr\<close> only
  appends, and \<open>dec\<close> gets \<open>view x\<close> (what the format keeps of \<open>x\<close>) from the bytes \<open>wr\<close> appended
  and leaves what follows.
\<close>

locale byte_format =
  fixes wr :: "'a \<Rightarrow> secBuilder \<Rightarrow> secBuilder"
    and dec :: "'b decoder"
    and ok :: "'a \<Rightarrow> bool"
    and view :: "'a \<Rightarrow> 'b"
  assumes wr_append: "wr x s = s @ wr x []"
    and dec_wr: "ok x \<Longrightarrow> dec (wr x [] @ rest) = Some (view x, rest)"
begin

lemma fold_wr: "fold wr xs s = s @ concat (map (\<lambda>x. wr x []) xs)"
  by (rule fold_append) (rule wr_append)

lemma dec_rep_concat:
  "list_all ok xs \<Longrightarrow> dec_rep (length xs) dec (concat (map (\<lambda>x. wr x []) xs) @ rest) = Some (map view xs, rest)"
  by (induction xs) (simp_all add: dec_wr)

lemma dec_vec_fold:
  assumes "list_all ok xs" and "length xs < 2 ^ 64"
  shows "dec_vec dec (fold wr xs (sb_uln (length xs) []) @ rest) = Some (map view xs, rest)"
  using assms by (simp add: dec_vec_def fold_wr sb_simps dec_rep_concat)

end

text \<open>Decoders of the entries of each section.\<close>

definition dec_types :: "ValueType list decoder" where
  "dec_types = dec_bytesv"

definition dec_type :: "FuncType decoder" where
  "dec_type bs = do { (b, bs) \<leftarrow> dec_byte bs;
     if b \<noteq> 0x60 then None
     else do { (ps, bs) \<leftarrow> dec_types bs; (rs, bs) \<leftarrow> dec_types bs; Some (\<lparr>ft_Params = ps, ft_Results = rs\<rparr>, bs) } }"

definition dec_name :: "string decoder" where
  "dec_name bs = map_option (\<lambda>(p, bs). (string_of p, bs)) (dec_bytesv bs)"

datatype import_desc = ImportsFunc u64 | ImportsMemory u64

definition dec_import :: "(string \<times> string \<times> import_desc) decoder" where
  "dec_import bs = do { (md, bs) \<leftarrow> dec_name bs; (fd, bs) \<leftarrow> dec_name bs; (k, bs) \<leftarrow> dec_byte bs;
     if k = 0 then do { (i, bs) \<leftarrow> dec_u bs; Some ((md, fd, ImportsFunc i), bs) }
     else if k = 2 then do { (l, bs) \<leftarrow> dec_byte bs; if l \<noteq> 0 then None
       else do { (mn, bs) \<leftarrow> dec_u bs; Some ((md, fd, ImportsMemory mn), bs) } }
     else None }"

definition dec_export :: "(string \<times> byte \<times> u64) decoder" where
  "dec_export bs = do { (n, bs) \<leftarrow> dec_name bs; (k, bs) \<leftarrow> dec_byte bs; (i, bs) \<leftarrow> dec_u bs; Some ((n, k, i), bs) }"

definition dec_group :: "(ValueType \<times> nat) decoder" where
  "dec_group bs = do { (n, bs) \<leftarrow> dec_u bs; (t, bs) \<leftarrow> dec_byte bs; Some ((t, unat n), bs) }"

text \<open>A code entry: its size, the local groups, and the rest of its bytes as the body; the locals
  are what the groups expand to.\<close>

definition dec_code :: "(ValueType list \<times> byte list) decoder" where
  "dec_code bs = do { (entry, bs) \<leftarrow> dec_bytesv bs; (gs, body) \<leftarrow> dec_vec dec_group entry;
     Some ((concat (map (\<lambda>(t, n). replicate n t) gs), body), bs) }"

definition dec_s :: "i64 decoder" where
  "dec_s bs = (case readSleb bs of (v, n) \<Rightarrow> Some (v, drop n bs))"

definition dec_data :: "(i64 \<times> byte list) decoder" where
  "dec_data bs = do { (z, bs) \<leftarrow> dec_byte bs; (c, bs) \<leftarrow> dec_byte bs;
     if z \<noteq> 0 \<or> c \<noteq> 0x41 then None
     else do { (off, bs) \<leftarrow> dec_s bs; (e, bs) \<leftarrow> dec_byte bs;
       if e \<noteq> 0x0b then None
       else do { (p, bs) \<leftarrow> dec_bytesv bs; Some ((off, p), bs) } } }"


section \<open>Run-length groups of locals\<close>

definition expand_groups :: "groupedLocal list \<Rightarrow> ValueType list" where
  "expand_groups gs = concat (map (\<lambda>g. replicate (lg_count g) (lg_typ g)) gs)"

lemma step_Nil: "runLengthLocals_step [] t = [\<lparr>lg_typ = t, lg_count = 1\<rparr>]"
  by (simp add: runLengthLocals_step_def)

lemma step_snoc:
  "runLengthLocals_step (out @ [g]) t =
     (if lg_typ g \<noteq> t then out @ [g, \<lparr>lg_typ = t, lg_count = 1\<rparr>] else out @ [g\<lparr>lg_count := lg_count g + 1\<rparr>])"
  by (simp add: runLengthLocals_step_def list_update_append)

lemma step_expand: "expand_groups (runLengthLocals_step out t) = expand_groups out @ [t]"
proof (cases out rule: rev_cases)
  case (snoc o' g)
  then show ?thesis
    by (auto simp: step_snoc expand_groups_def replicate_append_same [symmetric] simp del: replicate_append_same)
qed (simp add: step_Nil expand_groups_def)

text \<open>No two neighbouring groups have the same type and no group is empty.\<close>

definition groups_ok :: "groupedLocal list \<Rightarrow> bool" where
  "groups_ok gs \<longleftrightarrow> (\<forall>g \<in> set gs. lg_count g > 0) \<and> successively (\<lambda>g h. lg_typ g \<noteq> lg_typ h) gs"

lemma step_groups_ok: "groups_ok out \<Longrightarrow> groups_ok (runLengthLocals_step out t)"
proof (cases out rule: rev_cases)
  case (snoc o' g)
  assume "groups_ok out"
  with snoc show ?thesis
    unfolding snoc step_snoc by (auto simp: groups_ok_def successively_append_iff)
qed (simp add: step_Nil groups_ok_def)

lemma runLengthLocals_expand: "expand_groups (runLengthLocals l) = l"
proof -
  have "expand_groups (foldl runLengthLocals_step out l) = expand_groups out @ l" for out
    by (induction l arbitrary: out) (simp_all add: step_expand)
  then show ?thesis by (simp add: runLengthLocals_def expand_groups_def)
qed

lemma runLengthLocals_ok: "groups_ok (runLengthLocals l)"
proof -
  have "groups_ok out \<Longrightarrow> groups_ok (foldl runLengthLocals_step out l)" for out
    by (induction l arbitrary: out) (simp_all add: step_groups_ok)
  from this [of "[]"] show ?thesis by (simp add: runLengthLocals_def) (simp add: groups_ok_def)
qed

lemma length_expand: "length (expand_groups gs) = sum_list (map lg_count gs)"
  by (simp add: expand_groups_def length_concat comp_def)

lemma group_count_bound: "g \<in> set (runLengthLocals l) \<Longrightarrow> lg_count g \<le> length l"
  using length_expand [of "runLengthLocals l"] member_le_sum_list [of "lg_count g" "map lg_count (runLengthLocals l)"]
  by (simp add: runLengthLocals_expand)

lemma groups_length: "length (runLengthLocals l) \<le> length l"
proof -
  have "(\<forall>g \<in> set gs. lg_count g > 0) \<Longrightarrow> length gs \<le> sum_list (map lg_count gs)" for gs
    by (induction gs) auto
  from this [of "runLengthLocals l"] show ?thesis
    using runLengthLocals_ok [of l] length_expand [of "runLengthLocals l"]
    by (simp add: groups_ok_def runLengthLocals_expand)
qed

section \<open>The sections as formats\<close>

definition name_ok :: "string \<Rightarrow> bool" where
  "name_ok s \<longleftrightarrow> length s < 2 ^ 64"

definition type_ok :: "FuncType \<Rightarrow> bool" where
  "type_ok t \<longleftrightarrow> length (ft_Params t) < 2 ^ 64 \<and> length (ft_Results t) < 2 ^ 64"

definition import_ok :: "Import \<Rightarrow> bool" where
  "import_ok im \<longleftrightarrow> name_ok (im_Module im) \<and> name_ok (im_Field im) \<and> (im_Kind im = ImportFunc \<or> im_Kind im = ImportMem)"

definition import_view :: "Import \<Rightarrow> string \<times> string \<times> import_desc" where
  "import_view im = (im_Module im, im_Field im,
     if im_Kind im = ImportFunc then ImportsFunc (ucast (ucast (im_TypeIdx im) :: u32))
     else ImportsMemory (ucast (ucast (im_Min im) :: u32)))"

definition export_view :: "Export \<Rightarrow> string \<times> byte \<times> u64" where
  "export_view e = (ex_Name e, ex_Kind e, ucast (ucast (ex_Idx e) :: u32))"

lemma dec_name_append [sb_simps]:
  "name_ok n \<Longrightarrow> dec_name (uleb (of_nat (length n)) @ bytes_of n @ rest) = Some (n, rest)"
  using dec_bytesv_append [of "bytes_of n" rest] by (simp add: dec_name_def name_ok_def comp_def)

interpretation type_format: byte_format encType dec_type type_ok "\<lambda>t. t"
  by unfold_locales
    (simp_all add: encType_def dec_type_def dec_types_def type_ok_def sb_simps dec_bytesv_append)

interpretation import_format: byte_format encImport dec_import import_ok import_view
  by unfold_locales
    (auto simp: encImport_def dec_import_def import_ok_def import_view_def ImportFunc_def ImportMem_def Let_def sb_simps)

interpretation funcidx_format: byte_format encFuncIdx dec_u "\<lambda>_. True" "\<lambda>i. ucast (ucast i :: u32)"
  by unfold_locales (simp_all add: encFuncIdx_def sb_simps)

interpretation export_format: byte_format encExport dec_export "\<lambda>e. name_ok (ex_Name e)" export_view
  by unfold_locales (simp_all add: encExport_def dec_export_def export_view_def sb_simps)

interpretation group_format: byte_format encGroup dec_group "\<lambda>g. lg_count g < 2 ^ 64" "\<lambda>g. (lg_typ g, lg_count g)"
  by unfold_locales (simp_all add: encGroup_def dec_group_def sb_simps)

interpretation data_format: byte_format encData dec_data "\<lambda>d. length (ds_Bytes d) < 2 ^ 64" "\<lambda>d. (ds_Offset d, ds_Bytes d)"
  by unfold_locales
    (simp_all add: encData_def dec_data_def dec_s_def sb_simps dec_bytesv_append sleb_code.dec_enc)


definition code_entry :: "Code \<Rightarrow> byte list" where
  "code_entry c =
     fold encGroup (runLengthLocals (cd_Locals c)) (sb_uln (length (runLengthLocals (cd_Locals c))) []) @ cd_Body c"

lemma encCode_entry: "encCode c sb = sb @ uleb (of_nat (length (code_entry c))) @ code_entry c"
  by (simp add: encCode_def code_entry_def Let_def sb_simps)

interpretation code_format: byte_format encCode dec_code
  "\<lambda>c. length (code_entry c) < 2 ^ 64 \<and> length (cd_Locals c) < 2 ^ 64" "\<lambda>c. (cd_Locals c, cd_Body c)"
proof unfold_locales
  show "encCode x s = s @ encCode x []" for x s by (simp add: encCode_entry)
  fix c rest
  assume ok: "length (code_entry c) < 2 ^ 64 \<and> length (cd_Locals c) < 2 ^ 64"
  let ?gs = "runLengthLocals (cd_Locals c)"
  have "list_all (\<lambda>g. lg_count g < 2 ^ 64) ?gs"
    using ok group_count_bound [of _ "cd_Locals c"] by (fastforce simp: list_all_iff)
  moreover have "length ?gs < 2 ^ 64" using ok groups_length [of "cd_Locals c"] by simp
  ultimately have "dec_vec dec_group (code_entry c) = Some (map (\<lambda>g. (lg_typ g, lg_count g)) ?gs, cd_Body c)"
    using group_format.dec_vec_fold [of ?gs "cd_Body c"] by (simp add: code_entry_def)
  moreover have "concat (map (\<lambda>(t, n). replicate n t) (map (\<lambda>g. (lg_typ g, lg_count g)) ?gs)) = cd_Locals c"
    using runLengthLocals_expand [of "cd_Locals c"] by (simp add: expand_groups_def comp_def)
  ultimately show "dec_code (encCode c [] @ rest) = Some ((cd_Locals c, cd_Body c), rest)"
    using ok dec_bytesv_append [of "code_entry c" rest]
    by (simp add: dec_code_def encCode_entry)
qed

section \<open>The module as a list of sections\<close>

definition vec_section :: "byte \<Rightarrow> ('a \<Rightarrow> secBuilder \<Rightarrow> secBuilder) \<Rightarrow> 'a list \<Rightarrow> (byte \<times> byte list) list" where
  "vec_section i enc xs = (if xs = [] then [] else [(i, fold enc xs (sb_uln (length xs) []))])"

definition memory_payload :: "ModuleBuilder \<Rightarrow> byte list" where
  "memory_payload m = 1 # (if sint (mb_MemoryMax m) \<ge> 0
     then 1 # uleb (ucast (ucast (mb_MemoryMin m) :: u32)) @ uleb (ucast (ucast (mb_MemoryMax m) :: u32))
     else 0 # uleb (ucast (ucast (mb_MemoryMin m) :: u32)))"

definition sections :: "ModuleBuilder \<Rightarrow> (byte \<times> byte list) list" where
  "sections m =
     vec_section 1 encType (mb_Types m) @ vec_section 2 encImport (mb_Imports m)
     @ vec_section 3 encFuncIdx (mb_FuncTypes m)
     @ (if sint (mb_MemoryMin m) > 0 \<or> sint (mb_MemoryMax m) \<ge> 0 then [(5, memory_payload m)] else [])
     @ vec_section 6 encGlobal (mb_Globals m) @ vec_section 7 encExport (mb_Exports m)
     @ (if mb_HasStart m then [(8, uleb (ucast (ucast (mb_StartIdx m) :: u32)))] else [])
     @ vec_section 10 encCode (mb_Codes m) @ vec_section 11 encData (mb_Data m)"

definition section_bytes :: "byte \<times> byte list \<Rightarrow> byte list" where
  "section_bytes s = fst s # uleb (of_nat (length (snd s))) @ snd s"

definition preamble :: "byte list" where
  "preamble = [0x00, 0x61, 0x73, 0x6d, 0x01, 0x00, 0x00, 0x00]"

lemma encVecSection_bytes:
  "encVecSection i enc xs buf = buf @ concat (map section_bytes (vec_section i enc xs))"
  by (simp add: encVecSection_def vec_section_def section_bytes_def sb_simps)

lemma encMemorySection_bytes:
  "encMemorySection m buf = buf @ concat (map section_bytes
     (if sint (mb_MemoryMin m) > 0 \<or> sint (mb_MemoryMax m) \<ge> 0 then [(5, memory_payload m)] else []))"
  by (auto simp: encMemorySection_def section_bytes_def memory_payload_def sb_simps Let_def)

lemma encStartSection_bytes:
  "encStartSection m buf = buf @ concat (map section_bytes
     (if mb_HasStart m then [(8, uleb (ucast (ucast (mb_StartIdx m) :: u32)))] else []))"
  by (simp add: encStartSection_def section_bytes_def sb_simps)

lemma Encode_sections: "Encode m = preamble @ concat (map section_bytes (sections m))"
  unfolding Encode_def Let_def encVecSection_bytes encMemorySection_bytes encStartSection_bytes sections_def
  by (simp add: preamble_def)

definition dec_section :: "(byte \<times> byte list) decoder" where
  "dec_section bs = do { (i, bs) \<leftarrow> dec_byte bs; (p, bs) \<leftarrow> dec_bytesv bs; Some ((i, p), bs) }"

text \<open>The decoder of a module: sections up to the end of the bytes.  Each one has at least two
  bytes, so the number of bytes is enough fuel.\<close>

fun dec_sections :: "nat \<Rightarrow> byte list \<Rightarrow> (byte \<times> byte list) list option" where
  "dec_sections fuel [] = Some []"
| "dec_sections 0 bs = None"
| "dec_sections (Suc fuel) bs = do { (s, bs) \<leftarrow> dec_section bs; ss \<leftarrow> dec_sections fuel bs; Some (s # ss) }"

definition dec_module :: "byte list \<Rightarrow> (byte \<times> byte list) list option" where
  "dec_module bs = (if take 8 bs \<noteq> preamble then None else dec_sections (length bs) (drop 8 bs))"

lemma dec_section_bytes:
  "length (snd s) < 2 ^ 64 \<Longrightarrow> dec_section (section_bytes s @ rest) = Some (s, rest)"
  using dec_bytesv_append [of "snd s" rest]
  by (cases s) (simp add: dec_section_def section_bytes_def dec_byte_def)

lemma dec_sections_concat:
  "\<forall>s \<in> set ss. length (snd s) < 2 ^ 64 \<Longrightarrow> length ss \<le> fuel
   \<Longrightarrow> dec_sections fuel (concat (map section_bytes ss)) = Some ss"
proof (induction ss arbitrary: fuel)
  case (Cons s ss)
  then obtain f where f: "fuel = Suc f" by (cases fuel) simp_all
  obtain b bs where b: "concat (map section_bytes (s # ss)) = b # bs"
    by (simp add: section_bytes_def)
  have "dec_sections fuel (b # bs) = do { (s, bs) \<leftarrow> dec_section (b # bs); ss \<leftarrow> dec_sections f bs; Some (s # ss) }"
    by (simp add: f)
  with Cons f dec_section_bytes [of s "concat (map section_bytes ss)"] show ?case
    unfolding b [symmetric] by simp
qed simp

lemma sections_length: "length (sections m) \<le> 9"
  by (simp add: sections_def vec_section_def)

lemma dec_module_Encode:
  assumes "\<forall>s \<in> set (sections m). length (snd s) < 2 ^ 64"
  shows "dec_module (Encode m) = Some (sections m)"
proof -
  have "length (concat (map section_bytes ss)) \<ge> length ss" for ss
    by (induction ss) (simp_all add: section_bytes_def)
  then have "length (sections m) \<le> length (Encode m)"
    by (simp add: Encode_sections trans_le_add2)
  with dec_sections_concat [OF assms this] show ?thesis
    by (simp add: dec_module_def Encode_sections preamble_def)
qed


text \<open>The contents of the section with a given number; a section that is absent is an empty vector.\<close>

definition dec_contents :: "(byte \<times> byte list) list \<Rightarrow> byte \<Rightarrow> 'a decoder \<Rightarrow> 'a list option" where
  "dec_contents ss i d =
     (case map_of ss i of
        None \<Rightarrow> Some []
      | Some p \<Rightarrow> (case dec_vec d p of Some (xs, []) \<Rightarrow> Some xs | _ \<Rightarrow> None))"

definition module_fits :: "ModuleBuilder \<Rightarrow> bool" where
  "module_fits m \<longleftrightarrow>
     (\<forall>s \<in> set (sections m). length (snd s) < 2 ^ 64)
     \<and> length (mb_Types m) < 2 ^ 64 \<and> list_all type_ok (mb_Types m)
     \<and> length (mb_Imports m) < 2 ^ 64 \<and> list_all import_ok (mb_Imports m)
     \<and> length (mb_FuncTypes m) < 2 ^ 64
     \<and> length (mb_Exports m) < 2 ^ 64 \<and> list_all (\<lambda>e. name_ok (ex_Name e)) (mb_Exports m)
     \<and> length (mb_Codes m) < 2 ^ 64
     \<and> list_all (\<lambda>c. length (code_entry c) < 2 ^ 64 \<and> length (cd_Locals c) < 2 ^ 64) (mb_Codes m)
     \<and> length (mb_Data m) < 2 ^ 64 \<and> list_all (\<lambda>d. length (ds_Bytes d) < 2 ^ 64) (mb_Data m)"

context byte_format
begin

lemma dec_contents_vec:
  assumes "map_of ss i = map_of (vec_section i wr xs) i" and "list_all ok xs" and "length xs < 2 ^ 64"
  shows "dec_contents ss i dec = Some (map view xs)"
  using assms dec_vec_fold [of xs "[]"] by (simp add: dec_contents_def vec_section_def)

end

lemma map_of_sections:
  "map_of (sections m) 1 = map_of (vec_section 1 encType (mb_Types m)) 1"
  "map_of (sections m) 2 = map_of (vec_section 2 encImport (mb_Imports m)) 2"
  "map_of (sections m) 3 = map_of (vec_section 3 encFuncIdx (mb_FuncTypes m)) 3"
  "map_of (sections m) 7 = map_of (vec_section 7 encExport (mb_Exports m)) 7"
  "map_of (sections m) 10 = map_of (vec_section 10 encCode (mb_Codes m)) 10"
  "map_of (sections m) 11 = map_of (vec_section 11 encData (mb_Data m)) 11"
  by (simp_all add: sections_def vec_section_def)

lemma sections_sorted: "sorted_wrt (<) (map fst (sections m))"
  by (simp add: sections_def vec_section_def)

section \<open>Interning\<close>

lemma same_types_eq: "length as = length bs \<Longrightarrow> same_types as bs \<longleftrightarrow> as = bs"
  by (induction as bs rule: same_types.induct) auto

lemma AddType_match_eq: "AddType_match t fn \<longleftrightarrow> t = fn"
  by (cases t, cases fn) (auto simp: AddType_match_def same_types_eq)

lemma AddType_find_Some:
  "AddType_find i ts fn = Some j \<Longrightarrow> i \<le> j \<and> j - i < length ts \<and> ts ! (j - i) = fn"
  by (induction i ts fn rule: AddType_find.induct)
    (auto simp: AddType_match_eq Suc_diff_le nth_Cons' split: if_splits)

lemma AddType_find_None: "AddType_find i ts fn = None \<longleftrightarrow> fn \<notin> set ts"
  by (induction i ts fn rule: AddType_find.induct) (auto simp: AddType_match_eq)

section \<open>Properties\<close>

text \<open>C3. A decoder of the WebAssembly binary format reads back what \<open>Encode\<close> was given: the
  preamble is right, the sections come in strictly increasing order, and the types, imports,
  function type indices, exports, code entries (locals expanded from their run-length groups, and
  body) and data segments are those of the builder, indices reduced to 32 bits.\<close>

theorem Encode_decodes:
  assumes "module_fits m"
  shows "\<exists>ss. dec_module (Encode m) = Some ss \<and> MagicOK (Encode m) \<and> sorted_wrt (<) (map fst ss)
     \<and> dec_contents ss 1 dec_type = Some (mb_Types m)
     \<and> dec_contents ss 2 dec_import = Some (map import_view (mb_Imports m))
     \<and> dec_contents ss 3 dec_u = Some (map (\<lambda>i. ucast (ucast i :: u32)) (mb_FuncTypes m))
     \<and> dec_contents ss 7 dec_export = Some (map export_view (mb_Exports m))
     \<and> dec_contents ss 10 dec_code = Some (map (\<lambda>c. (cd_Locals c, cd_Body c)) (mb_Codes m))
     \<and> dec_contents ss 11 dec_data = Some (map (\<lambda>d. (ds_Offset d, ds_Bytes d)) (mb_Data m))"
proof -
  note fits = assms [unfolded module_fits_def]
  have "MagicOK (Encode m)"
    by (simp add: MagicOK_def Encode_sections preamble_def)
  then show ?thesis
    using fits dec_module_Encode [of m] sections_sorted [of m]
      type_format.dec_contents_vec [OF map_of_sections(1)]
      import_format.dec_contents_vec [OF map_of_sections(2)]
      funcidx_format.dec_contents_vec [OF map_of_sections(3)]
      export_format.dec_contents_vec [OF map_of_sections(4)]
      code_format.dec_contents_vec [OF map_of_sections(5)]
      data_format.dec_contents_vec [OF map_of_sections(6)]
    by (intro exI [of _ "sections m"]) (simp add: list_all_iff)
qed

definition sample_builder :: ModuleBuilder where
  "sample_builder =
     \<lparr>mb_Types = [\<lparr>ft_Params = [I64], ft_Results = [I64]\<rparr>],
      mb_Imports = [\<lparr>im_Module = ''wasi'', im_Field = ''fd_write'', im_Kind = ImportFunc, im_TypeIdx = 0, im_Min = 0\<rparr>],
      mb_FuncTypes = [0], mb_Globals = [], mb_Exports = [\<lparr>ex_Name = ''main'', ex_Kind = ExportFunc, ex_Idx = 1\<rparr>],
      mb_HasStart = False, mb_StartIdx = 0, mb_Data = [\<lparr>ds_Offset = 8, ds_Bytes = [1, 2]\<rparr>],
      mb_MemoryMin = 1, mb_MemoryMax = -1,
      mb_Codes = [\<lparr>cd_Body = [0x20, 0, 0x0b], cd_Locals = [I64, I64, I32]\<rparr>]\<rparr>"

lemma sample_builder_fits: "module_fits sample_builder"
  by (simp add: module_fits_def sections_def vec_section_def sample_builder_def memory_payload_def
      type_ok_def import_ok_def name_ok_def code_entry_def runLengthLocals_def runLengthLocals_step_def
      encType_def encImport_def encFuncIdx_def encExport_def encCode_def encData_def encGroup_def Let_def
      I32_def I64_def ImportFunc_def ExportFunc_def sb_simps uleb_small sleb_small appendSleb_done_def)

theorem Encode_decodes_witness:
  "\<exists>ss. dec_module (Encode sample_builder) = Some ss
     \<and> dec_contents ss 10 dec_code = Some [([I64, I64, I32], [0x20, 0, 0x0b])]"
  using Encode_decodes [OF sample_builder_fits] by (auto simp: sample_builder_def)

text \<open>\<open>AddType\<close> interns: the index it returns holds the type in the table it leaves, no index
  handed out before changes its type, a type already there is not added again, and a table without
  duplicates stays without duplicates.\<close>

theorem AddType_interns:
  assumes "AddType m fn = (i, m')"
  shows "i < length (mb_Types m') \<and> mb_Types m' ! i = fn \<and> take (length (mb_Types m)) (mb_Types m') = mb_Types m
     \<and> (m' = m \<longleftrightarrow> fn \<in> set (mb_Types m)) \<and> (distinct (mb_Types m') \<longleftrightarrow> distinct (mb_Types m))"
proof (cases "AddType_find 0 (mb_Types m) fn")
  case None
  then have "fn \<notin> set (mb_Types m)" by (simp add: AddType_find_None)
  moreover have "m' = m\<lparr>mb_Types := mb_Types m @ [fn]\<rparr>" "i = length (mb_Types m)"
    using None assms by (simp_all add: AddType_def Let_def)
  moreover have "m\<lparr>mb_Types := mb_Types m @ [fn]\<rparr> \<noteq> m"
    by (metis ModuleBuilder.select_convs(1) ModuleBuilder.surjective ModuleBuilder.update_convs(1) append_self_conv not_Cons_self2)
  ultimately show ?thesis by simp
next
  case (Some j)
  then have "fn \<in> set (mb_Types m)" using AddType_find_None [of 0 "mb_Types m" fn] by auto
  with Some AddType_find_Some [OF Some] assms show ?thesis by (auto simp: AddType_def)
qed

theorem AddType_interns_witness:
  "AddType sample_builder \<lparr>ft_Params = [], ft_Results = []\<rparr>
     = (1, sample_builder\<lparr>mb_Types := mb_Types sample_builder @ [\<lparr>ft_Params = [], ft_Results = []\<rparr>]\<rparr>)
   \<and> 1 < length (mb_Types (snd (AddType sample_builder \<lparr>ft_Params = [], ft_Results = []\<rparr>)))"
proof -
  have e: "AddType sample_builder \<lparr>ft_Params = [], ft_Results = []\<rparr>
     = (1, sample_builder\<lparr>mb_Types := mb_Types sample_builder @ [\<lparr>ft_Params = [], ft_Results = []\<rparr>]\<rparr>)"
    by (simp add: AddType_def sample_builder_def AddType_match_def)
  from AddType_interns [OF e] e show ?thesis by simp
qed

text \<open>The local groups of a code entry expand to the locals they were made from, no group is
  empty, and neighbouring groups differ in type.\<close>

theorem runLengthLocals_correct:
  "expand_groups (runLengthLocals l) = l \<and> groups_ok (runLengthLocals l)"
  by (simp add: runLengthLocals_expand runLengthLocals_ok)

text \<open>C34. \<open>UnwrapComponent\<close> inverts \<open>WrapComponent\<close> on every core module it accepts, and
  \<open>WrapComponent\<close> accepts exactly the inputs of at least eight bytes that start with the magic.\<close>

theorem component_roundtrip:
  assumes "length core < 2 ^ 64"
  shows "case WrapComponent core of
     Inl e \<Rightarrow> length core < 8 \<or> take 4 core \<noteq> asm_magic
   | Inr c \<Rightarrow> 8 \<le> length core \<and> take 4 core = asm_magic \<and> UnwrapComponent c = Inr core"
proof (cases "length core < 8 \<or> take 4 core \<noteq> asm_magic")
  case False
  define c where "c = asm_magic @ [1, 1] @ uleb 2 @ uleb (of_nat (length core)) @ core"
  have w: "WrapComponent core = Inr c"
    using False by (simp add: WrapComponent_def c_def appendUleb_uleb componentSectionCoreModule_def)
  have "readUleb10 (uleb v @ rest) = (v, int (length (uleb v)))" for v rest
    using readUleb10_loop_uleb [of 0 v rest 0 0] uleb_length [of v] by (simp add: readUleb10_def)
  moreover have "drop 6 c = uleb 2 @ uleb (of_nat (length core)) @ core" "take 4 c = asm_magic"
    "c ! 4 = 1" "c ! 5 = 1" "\<not> length c < 8"
    using False by (simp_all add: c_def asm_magic_def)
  ultimately have "UnwrapComponent c = Inr core"
    using False assms
    by (simp add: UnwrapComponent_def componentSectionCoreModule_def Let_def sb_simps)
  with w False show ?thesis by simp
qed (simp add: WrapComponent_def)

theorem component_roundtrip_witness:
  "\<exists>c. WrapComponent (preamble @ [1, 4, 1]) = Inr c \<and> UnwrapComponent c = Inr (preamble @ [1, 4, 1])"
proof -
  have "length (preamble @ [1, 4, 1]) < 2 ^ 64" by (simp add: preamble_def)
  from component_roundtrip [OF this] show ?thesis
    by (auto simp: preamble_def asm_magic_def WrapComponent_def split: sum.splits)
qed


end
