(* ===== verification/Wasm_Emitter.thy ===== *)
theory Wasm_Emitter
  imports Wasm_Module
begin

text \<open>
  The instruction emitter of the WebAssembly backend (pkg/wasm/emit.go): the opcode table, one
  definition per \<open>Emitter\<close> method (named with an \<open>e\<close> before the Go name), and the frame stack
  that \<open>BeginBlock\<close>, \<open>BeginLoop\<close>, \<open>BeginIf\<close> and \<open>Close\<close> maintain.  \<open>Close\<close> panics on
  an empty stack: it returns an option.

  A program of the backend is a sequence of method calls; \<open>emit_call\<close> runs one and
  \<open>emit_calls\<close> a sequence.  The reference is a decoder of instructions, \<open>dec_instrs\<close>.
\<close>

section \<open>Opcodes\<close>

definition opUnreachable :: byte where "opUnreachable = 0x00"
definition opNop :: byte where "opNop = 0x01"
definition opBlock :: byte where "opBlock = 0x02"
definition opLoop :: byte where "opLoop = 0x03"
definition opIf :: byte where "opIf = 0x04"
definition opElse :: byte where "opElse = 0x05"
definition opBr :: byte where "opBr = 0x0c"
definition opBrIf :: byte where "opBrIf = 0x0d"
definition opReturn :: byte where "opReturn = 0x0f"
definition opCall :: byte where "opCall = 0x10"
definition opDrop :: byte where "opDrop = 0x1a"
definition opLocalGet :: byte where "opLocalGet = 0x20"
definition opLocalSet :: byte where "opLocalSet = 0x21"
definition opLocalTee :: byte where "opLocalTee = 0x22"
definition opGlobalGet :: byte where "opGlobalGet = 0x23"
definition opGlobalSet :: byte where "opGlobalSet = 0x24"
definition opI32Load :: byte where "opI32Load = 0x28"
definition opI64Load :: byte where "opI64Load = 0x29"
definition opI32Load8U :: byte where "opI32Load8U = 0x2d"
definition opI32Store :: byte where "opI32Store = 0x36"
definition opI64Store :: byte where "opI64Store = 0x37"
definition opI32Store8 :: byte where "opI32Store8 = 0x3a"
definition opMemorySize :: byte where "opMemorySize = 0x3f"
definition opMemoryGrow :: byte where "opMemoryGrow = 0x40"
definition opI32Const :: byte where "opI32Const = 0x41"
definition opI64Const :: byte where "opI64Const = 0x42"
definition opI32Eqz :: byte where "opI32Eqz = 0x45"
definition opI32Eq :: byte where "opI32Eq = 0x46"
definition opI32Ne :: byte where "opI32Ne = 0x47"
definition opI32LtS :: byte where "opI32LtS = 0x48"
definition opI32GtS :: byte where "opI32GtS = 0x4a"
definition opI32LeS :: byte where "opI32LeS = 0x4c"
definition opI32GeS :: byte where "opI32GeS = 0x4e"
definition opI32LtU :: byte where "opI32LtU = 0x49"
definition opI32GtU :: byte where "opI32GtU = 0x4b"
definition opI32LeU :: byte where "opI32LeU = 0x4d"
definition opI32GeU :: byte where "opI32GeU = 0x4f"
definition opI64Eqz :: byte where "opI64Eqz = 0x50"
definition opI64Eq :: byte where "opI64Eq = 0x51"
definition opI64Ne :: byte where "opI64Ne = 0x52"
definition opI64LtS :: byte where "opI64LtS = 0x53"
definition opI64GtS :: byte where "opI64GtS = 0x55"
definition opI64LeS :: byte where "opI64LeS = 0x57"
definition opI64GeS :: byte where "opI64GeS = 0x59"
definition opI64Add :: byte where "opI64Add = 0x7c"
definition opI64Sub :: byte where "opI64Sub = 0x7d"
definition opI64Mul :: byte where "opI64Mul = 0x7e"
definition opI64DivS :: byte where "opI64DivS = 0x7f"
definition opI64RemS :: byte where "opI64RemS = 0x81"
definition opI32WrapI64 :: byte where "opI32WrapI64 = 0xa7"
definition opI64ExtendI32S :: byte where "opI64ExtendI32S = 0xac"
definition opI64ExtendI32U :: byte where "opI64ExtendI32U = 0xad"
definition opI64Shl :: byte where "opI64Shl = 0x86"
definition opI64ShrS :: byte where "opI64ShrS = 0x87"
definition opI32And :: byte where "opI32And = 0x71"
definition opI32Or :: byte where "opI32Or = 0x72"
definition opI64Xor :: byte where "opI64Xor = 0x85"
definition opI64And :: byte where "opI64And = 0x83"
definition opI64Or :: byte where "opI64Or = 0x84"
definition opI32Add :: byte where "opI32Add = 0x6a"
definition opI32Sub :: byte where "opI32Sub = 0x6b"
definition opI32ShrS :: byte where "opI32ShrS = 0x75"
definition opI32ShrU :: byte where "opI32ShrU = 0x76"
definition opEnd :: byte where "opEnd = 0x0b"

lemmas op_defs = opUnreachable_def opNop_def opBlock_def opLoop_def opIf_def opElse_def
  opBr_def opBrIf_def opReturn_def opCall_def opDrop_def opLocalGet_def
  opLocalSet_def opLocalTee_def opGlobalGet_def opGlobalSet_def opI32Load_def opI64Load_def
  opI32Load8U_def opI32Store_def opI64Store_def opI32Store8_def opMemorySize_def opMemoryGrow_def
  opI32Const_def opI64Const_def opI32Eqz_def opI32Eq_def opI32Ne_def opI32LtS_def
  opI32GtS_def opI32LeS_def opI32GeS_def opI32LtU_def opI32GtU_def opI32LeU_def
  opI32GeU_def opI64Eqz_def opI64Eq_def opI64Ne_def opI64LtS_def opI64GtS_def
  opI64LeS_def opI64GeS_def opI64Add_def opI64Sub_def opI64Mul_def opI64DivS_def
  opI64RemS_def opI32WrapI64_def opI64ExtendI32S_def opI64ExtendI32U_def opI64Shl_def opI64ShrS_def
  opI32And_def opI32Or_def opI64Xor_def opI64And_def opI64Or_def opI32Add_def
  opI32Sub_def opI32ShrS_def opI32ShrU_def opEnd_def

section \<open>The emitter\<close>

record Emitter =
  em_buf :: "byte list"
  em_labels :: "nat list"
  em_ifStack :: "bool list"
  em_ParamCount :: i64
  em_ExtraLocals :: "ValueType list"

definition NewEmitter :: Emitter where
  "NewEmitter = \<lparr>em_buf = [], em_labels = [], em_ifStack = [], em_ParamCount = 0, em_ExtraLocals = []\<rparr>"

text \<open>\<open>e.buf = append(e.buf, bs...)\<close>\<close>

definition put :: "byte list \<Rightarrow> Emitter \<Rightarrow> Emitter" where
  "put bs e = e\<lparr>em_buf := em_buf e @ bs\<rparr>"

definition put_u :: "u64 \<Rightarrow> Emitter \<Rightarrow> Emitter" where
  "put_u v e = e\<lparr>em_buf := appendUleb (em_buf e) v\<rparr>"

definition put_s :: "i64 \<Rightarrow> Emitter \<Rightarrow> Emitter" where
  "put_s v e = e\<lparr>em_buf := appendSleb (em_buf e) v\<rparr>"

text \<open>Instructions without immediates.\<close>

definition eUnreachable :: "Emitter \<Rightarrow> Emitter" where "eUnreachable e = put [opUnreachable] e"
definition eNop :: "Emitter \<Rightarrow> Emitter" where "eNop e = put [opNop] e"
definition eReturn :: "Emitter \<Rightarrow> Emitter" where "eReturn e = put [opReturn] e"
definition eDrop :: "Emitter \<Rightarrow> Emitter" where "eDrop e = put [opDrop] e"
definition eEnd :: "Emitter \<Rightarrow> Emitter" where "eEnd e = put [opEnd] e"
definition eI32Eqz :: "Emitter \<Rightarrow> Emitter" where "eI32Eqz e = put [opI32Eqz] e"
definition eI32Eq :: "Emitter \<Rightarrow> Emitter" where "eI32Eq e = put [opI32Eq] e"
definition eI32Ne :: "Emitter \<Rightarrow> Emitter" where "eI32Ne e = put [opI32Ne] e"
definition eI32LtS :: "Emitter \<Rightarrow> Emitter" where "eI32LtS e = put [opI32LtS] e"
definition eI32GtS :: "Emitter \<Rightarrow> Emitter" where "eI32GtS e = put [opI32GtS] e"
definition eI32LeS :: "Emitter \<Rightarrow> Emitter" where "eI32LeS e = put [opI32LeS] e"
definition eI32GeS :: "Emitter \<Rightarrow> Emitter" where "eI32GeS e = put [opI32GeS] e"
definition eI32LtU :: "Emitter \<Rightarrow> Emitter" where "eI32LtU e = put [opI32LtU] e"
definition eI32GtU :: "Emitter \<Rightarrow> Emitter" where "eI32GtU e = put [opI32GtU] e"
definition eI32LeU :: "Emitter \<Rightarrow> Emitter" where "eI32LeU e = put [opI32LeU] e"
definition eI32GeU :: "Emitter \<Rightarrow> Emitter" where "eI32GeU e = put [opI32GeU] e"
definition eI32ShrU :: "Emitter \<Rightarrow> Emitter" where "eI32ShrU e = put [opI32ShrU] e"
definition eI32And :: "Emitter \<Rightarrow> Emitter" where "eI32And e = put [opI32And] e"
definition eI32Or :: "Emitter \<Rightarrow> Emitter" where "eI32Or e = put [opI32Or] e"
definition eI32Add :: "Emitter \<Rightarrow> Emitter" where "eI32Add e = put [opI32Add] e"
definition eI32Sub :: "Emitter \<Rightarrow> Emitter" where "eI32Sub e = put [opI32Sub] e"
definition eI64Eqz :: "Emitter \<Rightarrow> Emitter" where "eI64Eqz e = put [opI64Eqz] e"
definition eI64Eq :: "Emitter \<Rightarrow> Emitter" where "eI64Eq e = put [opI64Eq] e"
definition eI64Ne :: "Emitter \<Rightarrow> Emitter" where "eI64Ne e = put [opI64Ne] e"
definition eI64LtS :: "Emitter \<Rightarrow> Emitter" where "eI64LtS e = put [opI64LtS] e"
definition eI64GtS :: "Emitter \<Rightarrow> Emitter" where "eI64GtS e = put [opI64GtS] e"
definition eI64LeS :: "Emitter \<Rightarrow> Emitter" where "eI64LeS e = put [opI64LeS] e"
definition eI64GeS :: "Emitter \<Rightarrow> Emitter" where "eI64GeS e = put [opI64GeS] e"
definition eI64Add :: "Emitter \<Rightarrow> Emitter" where "eI64Add e = put [opI64Add] e"
definition eI64Sub :: "Emitter \<Rightarrow> Emitter" where "eI64Sub e = put [opI64Sub] e"
definition eI64Mul :: "Emitter \<Rightarrow> Emitter" where "eI64Mul e = put [opI64Mul] e"
definition eI64DivS :: "Emitter \<Rightarrow> Emitter" where "eI64DivS e = put [opI64DivS] e"
definition eI64RemS :: "Emitter \<Rightarrow> Emitter" where "eI64RemS e = put [opI64RemS] e"
definition eI64Shl :: "Emitter \<Rightarrow> Emitter" where "eI64Shl e = put [opI64Shl] e"
definition eI64ShrS :: "Emitter \<Rightarrow> Emitter" where "eI64ShrS e = put [opI64ShrS] e"
definition eI64Xor :: "Emitter \<Rightarrow> Emitter" where "eI64Xor e = put [opI64Xor] e"
definition eI64And :: "Emitter \<Rightarrow> Emitter" where "eI64And e = put [opI64And] e"
definition eI64Or :: "Emitter \<Rightarrow> Emitter" where "eI64Or e = put [opI64Or] e"
definition eI32WrapI64 :: "Emitter \<Rightarrow> Emitter" where "eI32WrapI64 e = put [opI32WrapI64] e"
definition eI64ExtendI32S :: "Emitter \<Rightarrow> Emitter" where "eI64ExtendI32S e = put [opI64ExtendI32S] e"
definition eI64ExtendI32U :: "Emitter \<Rightarrow> Emitter" where "eI64ExtendI32U e = put [opI64ExtendI32U] e"

text \<open>Instructions with an index.\<close>

definition eLocalGet :: "i64 \<Rightarrow> Emitter \<Rightarrow> Emitter" where "eLocalGet i e = put_u i (put [opLocalGet] e)"
definition eLocalSet :: "i64 \<Rightarrow> Emitter \<Rightarrow> Emitter" where "eLocalSet i e = put_u i (put [opLocalSet] e)"
definition eLocalTee :: "i64 \<Rightarrow> Emitter \<Rightarrow> Emitter" where "eLocalTee i e = put_u i (put [opLocalTee] e)"
definition eGlobalGet :: "i64 \<Rightarrow> Emitter \<Rightarrow> Emitter" where "eGlobalGet i e = put_u i (put [opGlobalGet] e)"
definition eGlobalSet :: "i64 \<Rightarrow> Emitter \<Rightarrow> Emitter" where "eGlobalSet i e = put_u i (put [opGlobalSet] e)"
definition eCall :: "i64 \<Rightarrow> Emitter \<Rightarrow> Emitter" where "eCall i e = put_u i (put [opCall] e)"
definition eBr :: "i64 \<Rightarrow> Emitter \<Rightarrow> Emitter" where "eBr i e = put_u i (put [opBr] e)"
definition eBrIf :: "i64 \<Rightarrow> Emitter \<Rightarrow> Emitter" where "eBrIf i e = put_u i (put [opBrIf] e)"

text \<open>Constants.\<close>

definition eI32Const :: "i64 \<Rightarrow> Emitter \<Rightarrow> Emitter" where "eI32Const v e = put_s v (put [opI32Const] e)"
definition eI64Const :: "i64 \<Rightarrow> Emitter \<Rightarrow> Emitter" where "eI64Const v e = put_s v (put [opI64Const] e)"

text \<open>The loop of \<open>memArg\<close> looks for the largest \<open>l2\<close>, up to 31, with \<open>1 << l2 <= align\<close>.\<close>

function memArg_l2 :: "int \<Rightarrow> nat \<Rightarrow> nat" where
  "memArg_l2 align l2 = (if (2 :: int) ^ (l2 + 1) \<le> align \<and> l2 < 31 then memArg_l2 align (l2 + 1) else l2)"
  by pat_completeness auto
termination by (relation "measure (\<lambda>(align, l2). 31 - l2)") auto

declare memArg_l2.simps [simp del]

definition memArg :: "i64 \<Rightarrow> i64 \<Rightarrow> Emitter \<Rightarrow> Emitter" where
  "memArg align offset e = put_u offset (put_u (of_nat (memArg_l2 (sint align) 0)) e)"

definition eI32Load :: "i64 \<Rightarrow> i64 \<Rightarrow> Emitter \<Rightarrow> Emitter" where "eI32Load align offset e = memArg align offset (put [opI32Load] e)"
definition eI64Load :: "i64 \<Rightarrow> i64 \<Rightarrow> Emitter \<Rightarrow> Emitter" where "eI64Load align offset e = memArg align offset (put [opI64Load] e)"
definition eI32Store :: "i64 \<Rightarrow> i64 \<Rightarrow> Emitter \<Rightarrow> Emitter" where "eI32Store align offset e = memArg align offset (put [opI32Store] e)"
definition eI64Store :: "i64 \<Rightarrow> i64 \<Rightarrow> Emitter \<Rightarrow> Emitter" where "eI64Store align offset e = memArg align offset (put [opI64Store] e)"
definition eI32Load8U :: "i64 \<Rightarrow> Emitter \<Rightarrow> Emitter" where "eI32Load8U offset e = memArg 1 offset (put [opI32Load8U] e)"
definition eI32Store8 :: "i64 \<Rightarrow> Emitter \<Rightarrow> Emitter" where "eI32Store8 offset e = memArg 1 offset (put [opI32Store8] e)"
definition eMemorySize :: "Emitter \<Rightarrow> Emitter" where "eMemorySize e = put [opMemorySize, 0] e"
definition eMemoryGrow :: "Emitter \<Rightarrow> Emitter" where "eMemoryGrow e = put [opMemoryGrow, 0] e"

text \<open>Structured control flow.\<close>

definition emitBlockType :: "ValueType \<Rightarrow> Emitter \<Rightarrow> Emitter" where
  "emitBlockType result e =
     (if result = I64 then put [I64] e else if result = I32 then put [I32] e else put [0x40] e)"

definition push_frame :: "bool \<Rightarrow> Emitter \<Rightarrow> Emitter" where
  "push_frame isIf e = e\<lparr>em_labels := em_labels e @ [length (em_labels e)], em_ifStack := em_ifStack e @ [isIf]\<rparr>"

definition eBeginBlock :: "ValueType \<Rightarrow> Emitter \<Rightarrow> Emitter" where
  "eBeginBlock result e = push_frame False (emitBlockType result (put [opBlock] e))"

definition eBeginLoop :: "ValueType \<Rightarrow> Emitter \<Rightarrow> Emitter" where
  "eBeginLoop result e = push_frame False (emitBlockType result (put [opLoop] e))"

definition eBeginIf :: "ValueType \<Rightarrow> Emitter \<Rightarrow> Emitter" where
  "eBeginIf result e = push_frame True (emitBlockType result (put [opIf] e))"

definition eElse :: "Emitter \<Rightarrow> Emitter" where
  "eElse e = put [opElse] e"

definition eClose :: "Emitter \<Rightarrow> Emitter option" where
  "eClose e =
     (let e = put [opEnd] e
      in if length (em_labels e) = 0 then None
         else Some (e\<lparr>em_labels := take (length (em_labels e) - 1) (em_labels e),
                      em_ifStack := take (length (em_ifStack e) - 1) (em_ifStack e)\<rparr>))"

definition ifOpen :: "Emitter \<Rightarrow> bool" where
  "ifOpen e \<longleftrightarrow> (if length (em_ifStack e) = 0 then False else em_ifStack e ! (length (em_ifStack e) - 1))"

definition frameDepth :: "Emitter \<Rightarrow> nat" where
  "frameDepth e = length (em_labels e)"


section \<open>The reference decoder\<close>

datatype instr = Plain byte | Indexed byte u64 | Const byte i64 | Mem byte u64 u64 | Sized byte | Block byte byte

definition indexed_ops :: "byte list" where
  "indexed_ops = [opLocalGet, opLocalSet, opLocalTee, opGlobalGet, opGlobalSet, opCall, opBr, opBrIf]"

definition mem_ops :: "byte list" where
  "mem_ops = [opI32Load, opI64Load, opI32Store, opI64Store, opI32Load8U, opI32Store8]"

definition dec_instr :: "instr decoder" where
  "dec_instr bs = do { (op, bs) \<leftarrow> dec_byte bs;
     if op \<in> set indexed_ops then do { (i, bs) \<leftarrow> dec_u bs; Some (Indexed op i, bs) }
     else if op \<in> {opI32Const, opI64Const} then do { (v, bs) \<leftarrow> dec_s bs; Some (Const op v, bs) }
     else if op \<in> set mem_ops then do { (al, bs) \<leftarrow> dec_u bs; (off, bs) \<leftarrow> dec_u bs; Some (Mem op al off, bs) }
     else if op \<in> {opMemorySize, opMemoryGrow} then do { (z, bs) \<leftarrow> dec_byte bs; if z = 0 then Some (Sized op, bs) else None }
     else if op \<in> {opBlock, opLoop, opIf} then do { (t, bs) \<leftarrow> dec_byte bs; Some (Block op t, bs) }
     else Some (Plain op, bs) }"

fun dec_instrs :: "nat \<Rightarrow> byte list \<Rightarrow> instr list option" where
  "dec_instrs fuel [] = Some []"
| "dec_instrs 0 bs = None"
| "dec_instrs (Suc fuel) bs = do { (i, bs) \<leftarrow> dec_instr bs; is \<leftarrow> dec_instrs fuel bs; Some (i # is) }"

text \<open>The instruction each call stands for.\<close>

definition block_type :: "ValueType \<Rightarrow> byte" where
  "block_type r = (if r = I64 \<or> r = I32 then r else 0x40)"

definition log2_align :: "i64 \<Rightarrow> u64" where
  "log2_align a = of_nat (memArg_l2 (sint a) 0)"

section \<open>The emitter as a transition system\<close>

text \<open>\<open>emits e i e'\<close>: some method call takes \<open>e\<close> to \<open>e'\<close> and stands for instruction \<open>i\<close>.  A panicking
  \<open>Close\<close> is no transition.\<close>

inductive emits :: "Emitter \<Rightarrow> instr \<Rightarrow> Emitter \<Rightarrow> bool" where
  "emits e (Plain opUnreachable) (eUnreachable e)"
| "emits e (Plain opNop) (eNop e)"
| "emits e (Plain opReturn) (eReturn e)"
| "emits e (Plain opDrop) (eDrop e)"
| "emits e (Plain opEnd) (eEnd e)"
| "emits e (Plain opI32Eqz) (eI32Eqz e)"
| "emits e (Plain opI32Eq) (eI32Eq e)"
| "emits e (Plain opI32Ne) (eI32Ne e)"
| "emits e (Plain opI32LtS) (eI32LtS e)"
| "emits e (Plain opI32GtS) (eI32GtS e)"
| "emits e (Plain opI32LeS) (eI32LeS e)"
| "emits e (Plain opI32GeS) (eI32GeS e)"
| "emits e (Plain opI32LtU) (eI32LtU e)"
| "emits e (Plain opI32GtU) (eI32GtU e)"
| "emits e (Plain opI32LeU) (eI32LeU e)"
| "emits e (Plain opI32GeU) (eI32GeU e)"
| "emits e (Plain opI32ShrU) (eI32ShrU e)"
| "emits e (Plain opI32And) (eI32And e)"
| "emits e (Plain opI32Or) (eI32Or e)"
| "emits e (Plain opI32Add) (eI32Add e)"
| "emits e (Plain opI32Sub) (eI32Sub e)"
| "emits e (Plain opI64Eqz) (eI64Eqz e)"
| "emits e (Plain opI64Eq) (eI64Eq e)"
| "emits e (Plain opI64Ne) (eI64Ne e)"
| "emits e (Plain opI64LtS) (eI64LtS e)"
| "emits e (Plain opI64GtS) (eI64GtS e)"
| "emits e (Plain opI64LeS) (eI64LeS e)"
| "emits e (Plain opI64GeS) (eI64GeS e)"
| "emits e (Plain opI64Add) (eI64Add e)"
| "emits e (Plain opI64Sub) (eI64Sub e)"
| "emits e (Plain opI64Mul) (eI64Mul e)"
| "emits e (Plain opI64DivS) (eI64DivS e)"
| "emits e (Plain opI64RemS) (eI64RemS e)"
| "emits e (Plain opI64Shl) (eI64Shl e)"
| "emits e (Plain opI64ShrS) (eI64ShrS e)"
| "emits e (Plain opI64Xor) (eI64Xor e)"
| "emits e (Plain opI64And) (eI64And e)"
| "emits e (Plain opI64Or) (eI64Or e)"
| "emits e (Plain opI32WrapI64) (eI32WrapI64 e)"
| "emits e (Plain opI64ExtendI32S) (eI64ExtendI32S e)"
| "emits e (Plain opI64ExtendI32U) (eI64ExtendI32U e)"
| "emits e (Indexed opLocalGet i) (eLocalGet i e)"
| "emits e (Indexed opLocalSet i) (eLocalSet i e)"
| "emits e (Indexed opLocalTee i) (eLocalTee i e)"
| "emits e (Indexed opGlobalGet i) (eGlobalGet i e)"
| "emits e (Indexed opGlobalSet i) (eGlobalSet i e)"
| "emits e (Indexed opCall i) (eCall i e)"
| "emits e (Indexed opBr i) (eBr i e)"
| "emits e (Indexed opBrIf i) (eBrIf i e)"
| "emits e (Const opI32Const v) (eI32Const v e)"
| "emits e (Const opI64Const v) (eI64Const v e)"
| "emits e (Mem opI32Load (log2_align a) off) (eI32Load a off e)"
| "emits e (Mem opI64Load (log2_align a) off) (eI64Load a off e)"
| "emits e (Mem opI32Store (log2_align a) off) (eI32Store a off e)"
| "emits e (Mem opI64Store (log2_align a) off) (eI64Store a off e)"
| "emits e (Mem opI32Load8U (log2_align 1) off) (eI32Load8U off e)"
| "emits e (Mem opI32Store8 (log2_align 1) off) (eI32Store8 off e)"
| "emits e (Sized opMemorySize) (eMemorySize e)"
| "emits e (Sized opMemoryGrow) (eMemoryGrow e)"
| "emits e (Block opBlock (block_type r)) (eBeginBlock r e)"
| "emits e (Block opLoop (block_type r)) (eBeginLoop r e)"
| "emits e (Block opIf (block_type r)) (eBeginIf r e)"
| "emits e (Plain opElse) (eElse e)"
| "eClose e = Some e' \<Longrightarrow> emits e (Plain opEnd) e'"

inductive emits_all :: "Emitter \<Rightarrow> instr list \<Rightarrow> Emitter \<Rightarrow> bool" where
  emits_none: "emits_all e [] e"
| emits_snoc: "emits_all e is e' \<Longrightarrow> emits e' i e'' \<Longrightarrow> emits_all e (is @ [i]) e''"


fun instr_bytes :: "instr \<Rightarrow> byte list" where
  "instr_bytes (Plain op) = [op]"
| "instr_bytes (Indexed op i) = op # uleb i"
| "instr_bytes (Const op v) = op # sleb v"
| "instr_bytes (Mem op al off) = op # uleb al @ uleb off"
| "instr_bytes (Sized op) = [op, 0]"
| "instr_bytes (Block op t) = [op, t]"

lemmas emitter_defs = eUnreachable_def eNop_def eReturn_def eDrop_def eEnd_def eI32Eqz_def
  eI32Eq_def eI32Ne_def eI32LtS_def eI32GtS_def eI32LeS_def eI32GeS_def
  eI32LtU_def eI32GtU_def eI32LeU_def eI32GeU_def eI32ShrU_def eI32And_def
  eI32Or_def eI32Add_def eI32Sub_def eI64Eqz_def eI64Eq_def eI64Ne_def
  eI64LtS_def eI64GtS_def eI64LeS_def eI64GeS_def eI64Add_def eI64Sub_def
  eI64Mul_def eI64DivS_def eI64RemS_def eI64Shl_def eI64ShrS_def eI64Xor_def
  eI64And_def eI64Or_def eI32WrapI64_def eI64ExtendI32S_def eI64ExtendI32U_def eLocalGet_def
  eLocalSet_def eLocalTee_def eGlobalGet_def eGlobalSet_def eCall_def eBr_def
  eBrIf_def eI32Const_def eI64Const_def eI32Load_def eI64Load_def eI32Store_def
  eI64Store_def eI32Load8U_def eI32Store8_def eMemorySize_def eMemoryGrow_def eBeginBlock_def
  eBeginLoop_def eBeginIf_def eElse_def

section \<open>What a call appends\<close>

definition instr_ok :: "instr \<Rightarrow> bool" where
  "instr_ok i =
     (case i of
        Plain op \<Rightarrow> op \<notin> set indexed_ops \<union> set mem_ops
          \<union> {opI32Const, opI64Const, opMemorySize, opMemoryGrow, opBlock, opLoop, opIf}
      | Indexed op i \<Rightarrow> op \<in> set indexed_ops
      | Const op v \<Rightarrow> op \<in> {opI32Const, opI64Const}
      | Mem op al off \<Rightarrow> op \<in> set mem_ops
      | Sized op \<Rightarrow> op \<in> {opMemorySize, opMemoryGrow}
      | Block op t \<Rightarrow> op \<in> {opBlock, opLoop, opIf})"

lemma put_buf:
  "em_buf (put bs e) = em_buf e @ bs" "em_labels (put bs e) = em_labels e" "em_ifStack (put bs e) = em_ifStack e"
  by (simp_all add: put_def)

lemma put_u_buf:
  "em_buf (put_u v e) = em_buf e @ uleb v" "em_labels (put_u v e) = em_labels e" "em_ifStack (put_u v e) = em_ifStack e"
  by (simp_all add: put_u_def appendUleb_uleb)

lemma put_s_buf:
  "em_buf (put_s v e) = em_buf e @ sleb v" "em_labels (put_s v e) = em_labels e" "em_ifStack (put_s v e) = em_ifStack e"
  by (simp_all add: put_s_def appendSleb_sleb)

lemma memArg_buf:
  "em_buf (memArg a off e) = em_buf e @ uleb (log2_align a) @ uleb off"
  "em_labels (memArg a off e) = em_labels e" "em_ifStack (memArg a off e) = em_ifStack e"
  by (simp_all add: memArg_def log2_align_def put_u_buf)

lemma emitBlockType_put: "emitBlockType r e = put [block_type r] e"
  by (auto simp: emitBlockType_def block_type_def)

lemma push_frame_buf:
  "em_buf (push_frame b e) = em_buf e" "em_labels (push_frame b e) = em_labels e @ [length (em_labels e)]"
  "em_ifStack (push_frame b e) = em_ifStack e @ [b]"
  by (simp_all add: push_frame_def)

lemma eClose_Some:
  "eClose e = Some e' \<longleftrightarrow> em_labels e \<noteq> [] \<and>
     e' = e\<lparr>em_buf := em_buf e @ [opEnd], em_labels := butlast (em_labels e), em_ifStack := butlast (em_ifStack e)\<rparr>"
  by (auto simp: eClose_def put_def butlast_conv_take Let_def split: if_splits)

lemmas buf_simps = put_buf put_u_buf put_s_buf memArg_buf emitBlockType_put push_frame_buf

lemma emits_bytes: "emits e i e' \<Longrightarrow> em_buf e' = em_buf e @ instr_bytes i"
  by (induction rule: emits.induct) (simp_all add: emitter_defs buf_simps eClose_Some)

lemma emits_ok: "emits e i e' \<Longrightarrow> instr_ok i"
  by (induction rule: emits.induct) (simp_all add: instr_ok_def op_defs indexed_ops_def mem_ops_def)


section \<open>Frames\<close>

text \<open>The invariant of the frame stacks: the labels are the depths 0, 1, 2, ... and every frame has
  its entry in \<open>ifStack\<close>.\<close>

definition frames_ok :: "Emitter \<Rightarrow> bool" where
  "frames_ok e \<longleftrightarrow> em_labels e = [0..<length (em_labels e)] \<and> length (em_ifStack e) = length (em_labels e)"

definition opens :: "instr list \<Rightarrow> nat" where
  "opens is = length (filter (\<lambda>i. case i of Block _ _ \<Rightarrow> True | _ \<Rightarrow> False) is)"

definition ends :: "instr list \<Rightarrow> nat" where
  "ends is = length (filter (\<lambda>i. i = Plain opEnd) is)"

text \<open>How a call changes the frames: it leaves them, pushes one, or (only \<open>Close\<close>) pops one.\<close>

definition same_frames :: "Emitter \<Rightarrow> Emitter \<Rightarrow> bool" where
  "same_frames e e' \<longleftrightarrow> em_labels e' = em_labels e \<and> em_ifStack e' = em_ifStack e"

definition pushed_frame :: "Emitter \<Rightarrow> Emitter \<Rightarrow> bool" where
  "pushed_frame e e' \<longleftrightarrow> em_labels e' = em_labels e @ [length (em_labels e)] \<and> length (em_ifStack e') = Suc (length (em_ifStack e))"

definition popped_frame :: "Emitter \<Rightarrow> Emitter \<Rightarrow> bool" where
  "popped_frame e e' \<longleftrightarrow> em_labels e \<noteq> [] \<and> em_labels e' = butlast (em_labels e) \<and> em_ifStack e' = butlast (em_ifStack e)"

lemma emits_frames:
  assumes "emits e i e'"
  shows "(case i of Block _ _ \<Rightarrow> pushed_frame e e' | _ \<Rightarrow> same_frames e e' \<or> (i = Plain opEnd \<and> popped_frame e e'))"
  using assms
  by (induction rule: emits.induct)
    (simp_all add: emitter_defs buf_simps eClose_Some same_frames_def pushed_frame_def popped_frame_def)

lemma butlast_upt: "butlast [0..<n] = [0..<n - 1]"
  by (cases n) simp_all

lemma frames_ok_step:
  assumes "frames_ok e"
  shows "same_frames e e' \<Longrightarrow> frames_ok e'" "pushed_frame e e' \<Longrightarrow> frames_ok e'" "popped_frame e e' \<Longrightarrow> frames_ok e'"
proof -
  have l: "butlast (em_labels e) = [0..<length (em_labels e) - 1]"
    using assms butlast_upt [of "length (em_labels e)"] by (simp add: frames_ok_def)
  show "same_frames e e' \<Longrightarrow> frames_ok e'" "pushed_frame e e' \<Longrightarrow> frames_ok e'" "popped_frame e e' \<Longrightarrow> frames_ok e'"
    using assms l by (simp_all add: same_frames_def pushed_frame_def popped_frame_def frames_ok_def)
qed

lemma emits_frames_ok: "emits e i e' \<Longrightarrow> frames_ok e \<Longrightarrow> frames_ok e'"
  using emits_frames [of e i e'] frames_ok_step [of e e'] by (auto split: instr.splits)

lemma emits_all_frames_ok: "emits_all e is e' \<Longrightarrow> frames_ok e \<Longrightarrow> frames_ok e'"
  by (induction rule: emits_all.induct) (auto intro: emits_frames_ok)

lemma emits_depth:
  "emits e i e' \<Longrightarrow> frameDepth e + opens [i] \<le> frameDepth e' + ends [i]"
  using emits_frames [of e i e']
  by (auto simp: frameDepth_def opens_def ends_def same_frames_def pushed_frame_def popped_frame_def split: instr.splits)

lemma emits_all_depth:
  "emits_all e is e' \<Longrightarrow> frameDepth e + opens is \<le> frameDepth e' + ends is"
proof (induction rule: emits_all.induct)
  case (emits_snoc e "is" e' i e'')
  then show ?case using emits_depth [of e' i e''] by (simp add: opens_def ends_def)
qed (simp add: opens_def ends_def)

lemma mem_op_class:
  "op \<in> set mem_ops \<Longrightarrow> op \<notin> set indexed_ops \<and> op \<noteq> opI32Const \<and> op \<noteq> opI64Const"
  by (simp only: mem_ops_def indexed_ops_def list.set insert_iff empty_iff, elim disjE)
    (simp_all add: op_defs)

lemma fixed_op_class:
  "op \<in> {opI32Const, opI64Const} \<Longrightarrow> op \<notin> set indexed_ops"
  "op \<in> {opMemorySize, opMemoryGrow, opBlock, opLoop, opIf} \<Longrightarrow>
     op \<notin> set indexed_ops \<and> op \<notin> set mem_ops \<and> op \<noteq> opI32Const \<and> op \<noteq> opI64Const"
  by (auto simp: op_defs mem_ops_def indexed_ops_def)

lemma block_op_class: "op \<in> {opBlock, opLoop, opIf} \<Longrightarrow> op \<noteq> opMemorySize \<and> op \<noteq> opMemoryGrow"
  by (simp only: insert_iff empty_iff, elim disjE, simp_all add: op_defs)

lemma dec_instr_bytes: "instr_ok i \<Longrightarrow> dec_instr (instr_bytes i @ rest) = Some (i, rest)"
proof (cases i)
  case (Const op v)
  assume "instr_ok i"
  with Const fixed_op_class(1) [of op] show ?thesis
    by (simp add: instr_ok_def dec_instr_def dec_byte_def dec_s_def sleb_code.dec_enc)
next
  case (Mem op al off)
  assume "instr_ok i"
  with Mem mem_op_class [of op] show ?thesis
    by (simp add: instr_ok_def dec_instr_def dec_byte_def dec_u_uleb)
next
  case (Sized op)
  assume "instr_ok i"
  with Sized have "op \<in> {opMemorySize, opMemoryGrow}" by (simp add: instr_ok_def)
  moreover from this have "op \<notin> set indexed_ops \<and> op \<notin> set mem_ops \<and> op \<noteq> opI32Const \<and> op \<noteq> opI64Const"
    by (intro fixed_op_class(2)) auto
  ultimately show ?thesis using Sized
    by (simp add: instr_ok_def dec_instr_def dec_byte_def)
next
  case (Block op t)
  assume "instr_ok i"
  with Block have b: "op \<in> {opBlock, opLoop, opIf}" by (simp add: instr_ok_def)
  moreover from b have "op \<notin> set indexed_ops \<and> op \<notin> set mem_ops \<and> op \<noteq> opI32Const \<and> op \<noteq> opI64Const"
    by (intro fixed_op_class(2)) auto
  ultimately show ?thesis using Block block_op_class [OF b]
    by (simp add: instr_ok_def dec_instr_def dec_byte_def)
qed (simp_all add: instr_ok_def dec_instr_def dec_byte_def dec_u_uleb)

lemma instr_bytes_nonempty: "0 < length (instr_bytes i)"
  by (cases i) simp_all

lemma dec_instrs_concat:
  "list_all instr_ok is \<Longrightarrow> length is \<le> fuel \<Longrightarrow> dec_instrs fuel (concat (map instr_bytes is)) = Some is"
proof (induction "is" arbitrary: fuel)
  case (Cons i "is")
  then obtain f where f: "fuel = Suc f" by (cases fuel) simp_all
  obtain b bs where b: "concat (map instr_bytes (i # is)) = b # bs"
    using instr_bytes_nonempty [of i] by (cases "instr_bytes i") auto
  have "dec_instrs fuel (b # bs) = do { (i, bs) \<leftarrow> dec_instr (b # bs); is \<leftarrow> dec_instrs f bs; Some (i # is) }"
    by (simp add: f)
  with Cons f dec_instr_bytes [of i "concat (map instr_bytes is)"] show ?case
    unfolding b [symmetric] by simp
qed simp

lemma length_instrs: "length is \<le> length (concat (map instr_bytes is))"
proof (induction "is")
  case (Cons i "is")
  then show ?case using instr_bytes_nonempty [of i] by (cases "instr_bytes i") simp_all
qed simp

lemma emits_all_bytes:
  "emits_all e is e' \<Longrightarrow> em_buf e' = em_buf e @ concat (map instr_bytes is) \<and> list_all instr_ok is"
  by (induction rule: emits_all.induct) (auto simp: emits_bytes emits_ok)

section \<open>Alignment\<close>

lemma memArg_l2_bounds:
  assumes "2 ^ l2 \<le> align" and "l2 \<le> 31"
  shows "2 ^ memArg_l2 align l2 \<le> align \<and> memArg_l2 align l2 \<le> 31
    \<and> (memArg_l2 align l2 = 31 \<or> align < 2 ^ (memArg_l2 align l2 + 1))"
  using assms
proof (induction align l2 rule: memArg_l2.induct)
  case (1 align l2)
  then show ?case by (subst (1 2 3 4) memArg_l2.simps) (auto simp: memArg_l2.simps [of align l2])
qed

section \<open>Properties\<close>

text \<open>C32. The bytes of a function body decode to exactly the instructions the backend asked for, in
  order: no call produces bytes that run into the next instruction's.\<close>

theorem emitter_decodes:
  assumes "emits_all NewEmitter is e"
  shows "dec_instrs (length (em_buf e)) (em_buf e) = Some is"
proof -
  have e: "em_buf e = concat (map instr_bytes is)" "list_all instr_ok is"
    using emits_all_bytes [OF assms] by (simp_all add: NewEmitter_def)
  from dec_instrs_concat [OF e(2) length_instrs] show ?thesis by (simp add: e(1))
qed

text \<open>C33. The frame stack of an emitter is well formed after any sequence of calls, \<open>Close\<close> panics
  exactly when no frame is open, and an emitter without open frames has emitted an \<open>end\<close> for
  every block, loop and if.\<close>

theorem emitter_frames:
  assumes "emits_all NewEmitter is e"
  shows "em_labels e = [0..<frameDepth e] \<and> length (em_ifStack e) = frameDepth e
     \<and> (eClose e = None \<longleftrightarrow> frameDepth e = 0) \<and> opens is \<le> frameDepth e + ends is"
proof -
  have "frames_ok e" using emits_all_frames_ok [OF assms] by (simp add: NewEmitter_def frames_ok_def)
  moreover have "frameDepth NewEmitter = 0" by (simp add: NewEmitter_def frameDepth_def)
  moreover have "eClose e = None \<longleftrightarrow> frameDepth e = 0" by (simp add: eClose_def frameDepth_def put_def Let_def)
  ultimately show ?thesis using emits_all_depth [OF assms] by (simp add: frames_ok_def frameDepth_def)
qed

text \<open>The alignment immediate of a memory access is the base-2 logarithm of the alignment asked
  for, rounded down and at most 31.\<close>

theorem memArg_log2:
  assumes "1 \<le> align"
  shows "2 ^ memArg_l2 align 0 \<le> align \<and> memArg_l2 align 0 \<le> 31
    \<and> (memArg_l2 align 0 = 31 \<or> align < 2 ^ (memArg_l2 align 0 + 1))"
  using memArg_l2_bounds [of 0 align] assms by simp

theorem memArg_log2_witness: "2 ^ memArg_l2 8 0 \<le> (8 :: int) \<and> (memArg_l2 8 0 = 31 \<or> (8 :: int) < 2 ^ (memArg_l2 8 0 + 1))"
  using memArg_log2 [of 8] by simp


definition sample_emitter :: Emitter where
  "sample_emitter = the (eClose (eI64Const 300 (eBeginBlock I64 NewEmitter)))"

lemma sample_emits:
  "emits_all NewEmitter [Block opBlock (block_type I64), Const opI64Const 300, Plain opEnd] sample_emitter"
proof -
  have "eClose (eI64Const 300 (eBeginBlock I64 NewEmitter)) = Some sample_emitter"
    by (simp add: sample_emitter_def eClose_Some eBeginBlock_def eI64Const_def buf_simps eClose_def Let_def)
  then have "emits (eI64Const 300 (eBeginBlock I64 NewEmitter)) (Plain opEnd) sample_emitter"
    by (rule emits.intros)
  moreover have "emits_all NewEmitter ([] @ [Block opBlock (block_type I64)]) (eBeginBlock I64 NewEmitter)"
    by (rule emits_snoc [OF emits_none]) (rule emits.intros)
  then have "emits_all NewEmitter (([] @ [Block opBlock (block_type I64)]) @ [Const opI64Const 300])
      (eI64Const 300 (eBeginBlock I64 NewEmitter))"
    by (rule emits_snoc) (rule emits.intros)
  ultimately show ?thesis using emits_snoc by fastforce
qed

theorem emitter_decodes_witness:
  "dec_instrs (length (em_buf sample_emitter)) (em_buf sample_emitter)
     = Some [Block opBlock (block_type I64), Const opI64Const 300, Plain opEnd]"
  by (rule emitter_decodes [OF sample_emits])

theorem emitter_frames_witness:
  "length (em_ifStack sample_emitter) = frameDepth sample_emitter
   \<and> (eClose sample_emitter = None \<longleftrightarrow> frameDepth sample_emitter = 0)"
  using emitter_frames [OF sample_emits] by simp

end
