(* ===== verification/Go_Strings.thy ===== *)
theory Go_Strings
  imports Karkain_Prelude "HOL-Library.Monad_Syntax"
begin

text \<open>
  What the package manager uses of Go's standard library on strings: decimal printing and
  \<open>strconv.Atoi\<close>, \<open>strings.HasPrefix\<close>, \<open>TrimPrefix\<close>, \<open>Contains\<close>, \<open>Split\<close>,
  \<open>Join\<close>, \<open>TrimSpace\<close> and \<open>Fields\<close>.  Strings are byte strings; \<open>TrimSpace\<close> and \<open>Fields\<close>
  are the ASCII case (the six ASCII space characters).  A Go \<open>int\<close> has 64 bits.
\<close>

section \<open>Decimal numbers\<close>

definition is_digit :: "char \<Rightarrow> bool" where
  "is_digit c \<longleftrightarrow> 48 \<le> (of_char c :: nat) \<and> (of_char c :: nat) \<le> 57"

definition digit_char :: "nat \<Rightarrow> char" where
  "digit_char d = char_of (48 + d)"

definition digit_val :: "char \<Rightarrow> nat" where
  "digit_val c = of_char c - 48"

fun print_nat :: "nat \<Rightarrow> string" where
  "print_nat n = (if n < 10 then [digit_char n] else print_nat (n div 10) @ [digit_char (n mod 10)])"

declare print_nat.simps [simp del]

text \<open>\<open>%d\<close>\<close>

definition print_int :: "int \<Rightarrow> string" where
  "print_int i = (if i < 0 then CHR ''-'' # print_nat (nat (- i)) else print_nat (nat i))"

definition nat_value :: "string \<Rightarrow> nat" where
  "nat_value s = foldl (\<lambda>n c. 10 * n + digit_val c) 0 s"

definition maxInt :: int where "maxInt = 2 ^ 63 - 1"
definition minInt :: int where "minInt = - (2 ^ 63)"

text \<open>The value a 64-bit \<open>int\<close> addition leaves.\<close>

definition wrapInt :: "int \<Rightarrow> int" where
  "wrapInt i = (i + 2 ^ 63) mod 2 ^ 64 - 2 ^ 63"

text \<open>\<open>strconv.Atoi\<close>: the value and whether the error is nil.  A syntax error gives 0, a number out
  of range the nearest bound.\<close>

definition Atoi :: "string \<Rightarrow> int \<times> bool" where
  "Atoi s =
     (let (neg, ds) = (case s of [] \<Rightarrow> (False, s)
                       | c # cs \<Rightarrow> if c = CHR ''-'' then (True, cs) else if c = CHR ''+'' then (False, cs) else (False, s));
          v = (if neg then - int (nat_value ds) else int (nat_value ds))
      in if ds = [] \<or> \<not> list_all is_digit ds then (0, False)
         else if v > maxInt then (maxInt, False) else if v < minInt then (minInt, False) else (v, True))"

lemma of_char_digit: "d < 10 \<Longrightarrow> (of_char (digit_char d) :: nat) = 48 + d"
  by (simp add: digit_char_def)

lemma digit_char_props: "d < 10 \<Longrightarrow> is_digit (digit_char d) \<and> digit_val (digit_char d) = d"
  by (simp add: is_digit_def digit_val_def of_char_digit)

lemma print_nat_digits: "list_all is_digit (print_nat n) \<and> print_nat n \<noteq> []"
proof (induction n rule: print_nat.induct)
  case (1 n)
  then show ?case
    by (subst (1 2) print_nat.simps) (simp add: digit_char_props)
qed

lemma nat_value_snoc: "nat_value (s @ [c]) = 10 * nat_value s + digit_val c"
  by (simp add: nat_value_def)

lemma nat_value_print: "nat_value (print_nat n) = n"
proof (induction n rule: print_nat.induct)
  case (1 n)
  show ?case
  proof (cases "n < 10")
    case True
    then show ?thesis by (subst print_nat.simps) (simp add: nat_value_def digit_char_props)
  next
    case False
    with 1 have "nat_value (print_nat (n div 10)) = n div 10" by simp
    moreover have "nat_value (print_nat n) = 10 * nat_value (print_nat (n div 10)) + n mod 10"
      using False by (subst print_nat.simps) (simp add: nat_value_snoc digit_char_props)
    ultimately show ?thesis by simp
  qed
qed

lemma digit_not_sign: "is_digit c \<Longrightarrow> c \<noteq> CHR ''-'' \<and> c \<noteq> CHR ''+'' \<and> c \<noteq> CHR ''.''"
  by (auto simp: is_digit_def)

lemma Atoi_digits:
  assumes "list_all is_digit s" and "s \<noteq> []"
  shows "Atoi s = (if int (nat_value s) > maxInt then (maxInt, False) else (int (nat_value s), True))"
  using assms digit_not_sign [of "hd s"]
  by (cases s) (auto simp: Atoi_def Let_def minInt_def maxInt_def)

lemma Atoi_print: "0 \<le> i \<Longrightarrow> i \<le> maxInt \<Longrightarrow> Atoi (print_int i) = (i, True)"
  using print_nat_digits [of "nat i"] by (simp add: print_int_def Atoi_digits nat_value_print)

section \<open>Searching and splitting\<close>

definition HasPrefix :: "string \<Rightarrow> string \<Rightarrow> bool" where
  "HasPrefix s p \<longleftrightarrow> take (length p) s = p"

definition TrimPrefix :: "string \<Rightarrow> string \<Rightarrow> string" where
  "TrimPrefix s p = (if HasPrefix s p then drop (length p) s else s)"

definition HasSuffix :: "string \<Rightarrow> string \<Rightarrow> bool" where
  "HasSuffix s p \<longleftrightarrow> HasPrefix (rev s) (rev p)"

fun Contains :: "string \<Rightarrow> string \<Rightarrow> bool" where
  "Contains [] sub = (sub = [])"
| "Contains (c # cs) sub = (HasPrefix (c # cs) sub \<or> Contains cs sub)"

text \<open>\<open>strings.Split(s, sep)\<close> for a separator that is not empty.\<close>

fun split_loop :: "string \<Rightarrow> string \<Rightarrow> string \<Rightarrow> string list" where
  "split_loop sep acc [] = [acc]"
| "split_loop sep acc (c # cs) =
     (if HasPrefix (c # cs) sep then acc # split_loop sep [] (drop (length sep - 1) cs)
      else split_loop sep (acc @ [c]) cs)"

definition Split :: "string \<Rightarrow> string \<Rightarrow> string list" where
  "Split s sep = split_loop sep [] s"

fun Join :: "string list \<Rightarrow> string \<Rightarrow> string" where
  "Join [] sep = []"
| "Join [s] sep = s"
| "Join (s # t # ss) sep = s @ sep @ Join (t # ss) sep"

definition is_space :: "char \<Rightarrow> bool" where
  "is_space c \<longleftrightarrow> (of_char c :: nat) \<in> {9, 10, 11, 12, 13, 32}"

definition TrimSpace :: "string \<Rightarrow> string" where
  "TrimSpace s = rev (dropWhile is_space (rev (dropWhile is_space s)))"

function Fields :: "string \<Rightarrow> string list" where
  "Fields s =
     (let s = dropWhile is_space s
      in if s = [] then []
         else takeWhile (\<lambda>c. \<not> is_space c) s # Fields (dropWhile (\<lambda>c. \<not> is_space c) s))"
  by pat_completeness auto
termination
proof (relation "measure length", simp)
  fix s x :: string
  assume x: "x = dropWhile is_space s" and "x \<noteq> []"
  then have "\<not> is_space (hd x)" using hd_dropWhile by metis
  then have "length (dropWhile (\<lambda>c. \<not> is_space c) x) < length x"
    using \<open>x \<noteq> []\<close> length_dropWhile_le [of "\<lambda>c. \<not> is_space c" "tl x"] by (cases x) auto
  then show "(dropWhile (\<lambda>c. \<not> is_space c) x, s) \<in> measure length"
    using x length_dropWhile_le [of is_space s] by simp
qed

declare Fields.simps [simp del]

lemma split_loop_nonempty: "split_loop sep acc s \<noteq> []"
  by (induction sep acc s rule: split_loop.induct) simp_all

lemma Join_split_loop: "sep \<noteq> [] \<Longrightarrow> Join (split_loop sep acc s) sep = acc @ s"
proof (induction sep acc s rule: split_loop.induct)
  case (2 sep acc c cs)
  show ?case
  proof (cases "HasPrefix (c # cs) sep")
    case True
    then have s: "c # cs = sep @ drop (length sep - 1) cs"
      using 2(3) append_take_drop_id [of "length sep" "c # cs"] by (cases sep) (simp_all add: HasPrefix_def)
    have "Join (acc # split_loop sep [] t) sep = acc @ sep @ Join (split_loop sep [] t) sep" for t
      using split_loop_nonempty [of sep "[]" t] by (cases "split_loop sep [] t") simp_all
    with True 2 have "Join (split_loop sep acc (c # cs)) sep = acc @ sep @ drop (length sep - 1) cs"
      by simp
    then show ?thesis unfolding s [symmetric] .
  next
    case False
    with 2 show ?thesis by simp
  qed
qed simp

text \<open>\<open>Join\<close> undoes \<open>Split\<close>.\<close>

lemma Join_Split: "sep \<noteq> [] \<Longrightarrow> Join (Split s sep) sep = s"
  by (simp add: Split_def Join_split_loop)

lemma split_loop_none:
  "d \<notin> set s \<Longrightarrow> split_loop [d] acc s = [acc @ s]"
  by (induction s arbitrary: acc) (auto simp: HasPrefix_def)

lemma Split_none: "d \<notin> set s \<Longrightarrow> Split s [d] = [s]"
  by (simp add: Split_def split_loop_none)

lemma split_loop_sep:
  "d \<notin> set s \<Longrightarrow> split_loop [d] acc (s @ d # t) = (acc @ s) # split_loop [d] [] t"
  by (induction s arbitrary: acc) (auto simp: HasPrefix_def)

lemma TrimSpace_id: "s \<noteq> [] \<Longrightarrow> \<not> is_space (hd s) \<Longrightarrow> \<not> is_space (last s) \<Longrightarrow> TrimSpace s = s"
proof -
  assume "s \<noteq> []" and "\<not> is_space (hd s)" and "\<not> is_space (last s)"
  then have "dropWhile is_space s = s" "dropWhile is_space (rev s) = rev s"
    by (simp_all add: dropWhile_eq_self_iff hd_rev)
  then show "TrimSpace s = s" by (simp add: TrimSpace_def)
qed

lemma TrimSpace_Cons_space: "is_space c \<Longrightarrow> TrimSpace (c # s) = TrimSpace s"
  by (simp add: TrimSpace_def)

lemma TrimSpace_snoc_space:
  assumes "is_space c" and "s \<noteq> []" and "\<not> is_space (hd s)"
  shows "TrimSpace (s @ [c]) = TrimSpace s"
proof -
  have "dropWhile is_space (s @ [c]) = s @ [c]" "dropWhile is_space s = s"
    using assms by (cases s; simp)+
  with assms(1) show ?thesis by (simp add: TrimSpace_def)
qed


lemma HasPrefix_hd: "HasPrefix s (c # p) \<Longrightarrow> hd s = c"
  by (cases s) (simp_all add: HasPrefix_def)


end
