(* ===== verification/Semver.thy ===== *)
theory Semver
  imports Go_Strings "HOL-Library.List_Lexorder" "HOL-Library.Char_ord" "HOL-Library.Product_Lexorder" "HOL-Library.Multiset"
begin

text \<open>
  Semantic versions and version constraints of the package manager (pkg/pm/semver.go).  A
  \<open>Version\<close> is the record of its struct, with \<open>int\<close> components; the additions of the code wrap
  at 64 bits.  The regular expression of \<open>ParseVersion\<close> is deterministic (no character of one
  part can start the next), so it is modelled by the parser it denotes.

  \<open>Compare\<close> is proved a total preorder (locale \<open>comparator\<close>), and \<open>LatestSatisfying\<close> is
  proved to choose a greatest satisfying version for every sorting function that meets the contract
  of \<open>sort.Slice\<close>.
\<close>

section \<open>Versions\<close>

record Version =
  Major :: int
  Minor :: int
  Patch :: int
  PreRelease :: string
  BuildMetadata :: string

datatype semver_error =
    InvalidSemver string
  | InvalidWildcardMinor string
  | InvalidWildcardMajor string
  | InvalidConstraint string semver_error
  | NoVersionSatisfies string

definition is_alnum :: "char \<Rightarrow> bool" where
  "is_alnum c \<longleftrightarrow> is_digit c \<or> (97 \<le> (of_char c :: nat) \<and> (of_char c :: nat) \<le> 122)
     \<or> (65 \<le> (of_char c :: nat) \<and> (of_char c :: nat) \<le> 90)"

text \<open>\<open>[a-zA-Z0-9]+(\.[a-zA-Z0-9]+)*\<close>\<close>

definition ident_char :: "char \<Rightarrow> bool" where
  "ident_char c \<longleftrightarrow> is_alnum c \<or> c = CHR ''.''"

definition idents_ok :: "string \<Rightarrow> bool" where
  "idents_ok s \<longleftrightarrow> list_all ident_char s \<and> list_all (\<lambda>p. p \<noteq> []) (Split s ''.'')"

text \<open>\<open>(\d+)\<close> followed by a literal character or by the end of the core.\<close>

definition take_number :: "string \<Rightarrow> (string \<times> string) option" where
  "take_number s = (let ds = takeWhile is_digit s in if ds = [] then None else Some (ds, dropWhile is_digit s))"

fun take_char :: "char \<Rightarrow> string \<Rightarrow> string option" where
  "take_char c [] = None"
| "take_char c (d # ds) = (if c = d then Some ds else None)"

text \<open>\<open>(?:-(idents))?\<close> and \<open>(?:\+(idents))?\<close>; a group that does not take part is the empty string.\<close>

definition take_group :: "char \<Rightarrow> string \<Rightarrow> (string \<times> string) option" where
  "take_group c s =
     (case take_char c s of
        None \<Rightarrow> Some ([], s)
      | Some t \<Rightarrow> let g = takeWhile ident_char t in if idents_ok g then Some (g, dropWhile ident_char t) else None)"

definition versionRegexp_match :: "string \<Rightarrow> (string \<times> string \<times> string \<times> string \<times> string) option" where
  "versionRegexp_match s =
     (let s = (case take_char CHR ''v'' s of None \<Rightarrow> s | Some t \<Rightarrow> t) in
      do { (m1, s) \<leftarrow> take_number s; s \<leftarrow> take_char CHR ''.'' s;
           (m2, s) \<leftarrow> take_number s; s \<leftarrow> take_char CHR ''.'' s;
           (m3, s) \<leftarrow> take_number s;
           (m4, s) \<leftarrow> take_group CHR ''-'' s; (m5, s) \<leftarrow> take_group CHR ''+'' s;
           if s = [] then Some (m1, m2, m3, m4, m5) else None })"

definition ParseVersion :: "string \<Rightarrow> semver_error + Version" where
  "ParseVersion s =
     (case versionRegexp_match s of
        None \<Rightarrow> Inl (InvalidSemver s)
      | Some (m1, m2, m3, m4, m5) \<Rightarrow>
          Inr \<lparr>Major = fst (Atoi m1), Minor = fst (Atoi m2), Patch = fst (Atoi m3),
               PreRelease = m4, BuildMetadata = m5\<rparr>)"

definition VersionString :: "Version \<Rightarrow> string" where
  "VersionString v =
     (let s = print_int (Major v) @ ''.'' @ print_int (Minor v) @ ''.'' @ print_int (Patch v);
          s = (if PreRelease v \<noteq> [] then s @ ''-'' @ PreRelease v else s)
      in if BuildMetadata v \<noteq> [] then s @ ''+'' @ BuildMetadata v else s)"

section \<open>Comparison\<close>

definition parsePreReleaseIdentifiers :: "string \<Rightarrow> string list" where
  "parsePreReleaseIdentifiers s = (if s = [] then [] else Split s ''.'')"

fun comparePreRelease_loop :: "string list \<Rightarrow> string list \<Rightarrow> int" where
  "comparePreRelease_loop (x # xs) (y # ys) =
     (case Atoi x of (na, ea) \<Rightarrow> case Atoi y of (nb, eb) \<Rightarrow>
        if ea \<and> eb then (if na < nb then -1 else if na > nb then 1 else comparePreRelease_loop xs ys)
        else if ea then -1
        else if eb then 1
        else if x < y then -1
        else if x > y then 1
        else comparePreRelease_loop xs ys)"
| "comparePreRelease_loop xs ys =
     (if length xs < length ys then -1 else if length xs > length ys then 1 else 0)"

definition comparePreRelease :: "string \<Rightarrow> string \<Rightarrow> int" where
  "comparePreRelease a b =
     (let ia = parsePreReleaseIdentifiers a; ib = parsePreReleaseIdentifiers b
      in if length ia = 0 \<and> length ib = 0 then 0
         else if length ia = 0 then 1
         else if length ib = 0 then -1
         else comparePreRelease_loop ia ib)"

definition Compare :: "Version \<Rightarrow> Version \<Rightarrow> int" where
  "Compare a b =
     (if Major a \<noteq> Major b then (if Major a < Major b then -1 else 1)
      else if Minor a \<noteq> Minor b then (if Minor a < Minor b then -1 else 1)
      else if Patch a \<noteq> Patch b then (if Patch a < Patch b then -1 else 1)
      else comparePreRelease (PreRelease a) (PreRelease b))"

section \<open>Constraints\<close>

record vconstraint =
  c_min :: "Version option"
  c_max :: "Version option"
  c_minIncl :: bool
  c_maxIncl :: bool
  c_exactMatch :: "Version option"

definition no_constraint :: vconstraint where
  "no_constraint = \<lparr>c_min = None, c_max = None, c_minIncl = False, c_maxIncl = False, c_exactMatch = None\<rparr>"

abbreviation core_version :: "int \<Rightarrow> int \<Rightarrow> int \<Rightarrow> Version" where
  "core_version a b c \<equiv> \<lparr>Major = a, Minor = b, Patch = c, PreRelease = [], BuildMetadata = []\<rparr>"

definition half_open :: "Version \<Rightarrow> Version \<Rightarrow> vconstraint" where
  "half_open lo hi = no_constraint\<lparr>c_min := Some lo, c_minIncl := True, c_max := Some hi, c_maxIncl := False\<rparr>"

definition parseCaret :: "string \<Rightarrow> semver_error + vconstraint" where
  "parseCaret s =
     (case ParseVersion s of
        Inl err \<Rightarrow> Inl err
      | Inr v \<Rightarrow>
          if Major v \<noteq> 0
          then Inr (half_open (core_version (Major v) (Minor v) (Patch v)) (core_version (wrapInt (Major v + 1)) 0 0))
          else if Minor v \<noteq> 0
          then Inr (half_open (core_version 0 (Minor v) (Patch v)) (core_version 0 (wrapInt (Minor v + 1)) 0))
          else Inr (no_constraint\<lparr>c_exactMatch := Some (core_version 0 0 (Patch v))\<rparr>))"

definition parseTilde :: "string \<Rightarrow> semver_error + vconstraint" where
  "parseTilde s =
     (case ParseVersion s of
        Inl err \<Rightarrow> Inl err
      | Inr v \<Rightarrow> Inr (half_open v (core_version (Major v) (wrapInt (Minor v + 1)) 0)))"

definition is_wild :: "string \<Rightarrow> bool" where
  "is_wild p \<longleftrightarrow> p = ''x'' \<or> p = ''X'' \<or> p = ''*''"

definition bound :: "string \<Rightarrow> (Version \<Rightarrow> vconstraint) \<Rightarrow> semver_error + vconstraint" where
  "bound s mk = (case ParseVersion s of Inl err \<Rightarrow> Inl err | Inr v \<Rightarrow> Inr (mk v))"

definition parseWildcard :: "string \<Rightarrow> (semver_error + vconstraint) option" where
  "parseWildcard s =
     (let parts = Split s ''.'' in
      if length parts = 3 \<and> is_wild (parts ! 2)
      then Some (case Atoi (parts ! 1) of (minor, ok) \<Rightarrow>
             if \<not> ok then Inl (InvalidWildcardMinor (parts ! 1))
             else case Atoi (parts ! 0) of (major, ok) \<Rightarrow>
               if \<not> ok then Inl (InvalidWildcardMajor (parts ! 0))
               else Inr (half_open (core_version major minor 0) (core_version major (wrapInt (minor + 1)) 0)))
      else if length parts = 3 \<and> is_wild (parts ! 1) \<or> length parts = 2 \<and> is_wild (parts ! 1)
      then Some (case Atoi (parts ! 0) of (major, ok) \<Rightarrow>
             if \<not> ok then Inl (InvalidWildcardMajor (parts ! 0))
             else Inr (half_open (core_version major 0 0) (core_version (wrapInt (major + 1)) 0 0)))
      else None)"

definition parseSingleConstraint :: "string \<Rightarrow> semver_error + vconstraint" where
  "parseSingleConstraint s =
     (let s = TrimSpace s in
      if s = ''*'' \<or> s = [] then Inr no_constraint
      else if HasPrefix s ''^'' then parseCaret (TrimPrefix s ''^'')
      else if HasPrefix s ''~'' then parseTilde (TrimPrefix s ''~'')
      else if HasPrefix s ''>='' then bound (TrimPrefix s ''>='') (\<lambda>v. no_constraint\<lparr>c_min := Some v, c_minIncl := True\<rparr>)
      else if HasPrefix s ''>'' then bound (TrimPrefix s ''>'') (\<lambda>v. no_constraint\<lparr>c_min := Some v, c_minIncl := False\<rparr>)
      else if HasPrefix s ''<='' then bound (TrimPrefix s ''<='') (\<lambda>v. no_constraint\<lparr>c_max := Some v, c_maxIncl := True\<rparr>)
      else if HasPrefix s ''<'' then bound (TrimPrefix s ''<'') (\<lambda>v. no_constraint\<lparr>c_max := Some v, c_maxIncl := False\<rparr>)
      else if HasPrefix s ''='' then bound (TrimPrefix s ''='') (\<lambda>v. no_constraint\<lparr>c_exactMatch := Some v\<rparr>)
      else case (if Contains s ''.'' then parseWildcard s else None) of
        Some r \<Rightarrow> r
      | None \<Rightarrow> bound s (\<lambda>v. no_constraint\<lparr>c_exactMatch := Some v\<rparr>))"

definition satisfies :: "vconstraint \<Rightarrow> Version \<Rightarrow> bool" where
  "satisfies c v \<longleftrightarrow>
     (case c_exactMatch c of
        Some e \<Rightarrow> Compare v e = 0
      | None \<Rightarrow>
          if (case c_min c of Some lo \<Rightarrow> (if c_minIncl c then Compare v lo < 0 else Compare v lo \<le> 0) | None \<Rightarrow> False)
          then False
          else if (case c_max c of Some hi \<Rightarrow> (if c_maxIncl c then Compare v hi > 0 else Compare v hi \<ge> 0) | None \<Rightarrow> False)
          then False
          else True)"

definition splitConstraint :: "string \<Rightarrow> string list" where
  "splitConstraint s =
     (if Contains s ''||'' then Split s ''||''
      else if Contains s '', '' then Split s '', ''
      else let parts = Fields s in
        if Contains s '' '' \<and> length parts \<ge> 2 \<and> parts ! 0 \<in> {''>='', ''>'', ''<='', ''<''}
        then [parts ! 0 @ parts ! 1]
        else [s])"

fun Satisfies_loop :: "Version \<Rightarrow> string list \<Rightarrow> semver_error + bool" where
  "Satisfies_loop v [] = Inr True"
| "Satisfies_loop v (part # parts) =
     (let part = TrimSpace part in
      if part = [] then Satisfies_loop v parts
      else case parseSingleConstraint part of
        Inl err \<Rightarrow> Inl (InvalidConstraint part err)
      | Inr c \<Rightarrow> if \<not> satisfies c v then Inr False else Satisfies_loop v parts)"

definition Satisfies :: "Version \<Rightarrow> string \<Rightarrow> semver_error + bool" where
  "Satisfies v constraintStr =
     (let constraintStr = TrimSpace constraintStr in
      if constraintStr = [] \<or> constraintStr = ''*'' then Inr True
      else Satisfies_loop v (splitConstraint constraintStr))"

fun ParseVersions :: "string list \<Rightarrow> semver_error + Version list" where
  "ParseVersions [] = Inr []"
| "ParseVersions (s # ss) =
     (case ParseVersion s of
        Inl err \<Rightarrow> Inl err
      | Inr v \<Rightarrow> (case ParseVersions ss of Inl err \<Rightarrow> Inl err | Inr vs \<Rightarrow> Inr (v # vs)))"

fun LatestSatisfying_loop :: "Version list \<Rightarrow> string \<Rightarrow> semver_error + Version" where
  "LatestSatisfying_loop [] constraintStr = Inl (NoVersionSatisfies constraintStr)"
| "LatestSatisfying_loop (v # vs) constraintStr =
     (case Satisfies v constraintStr of
        Inl err \<Rightarrow> Inl err
      | Inr ok \<Rightarrow> if ok then Inr v else LatestSatisfying_loop vs constraintStr)"

text \<open>\<open>sort.Slice\<close> is a parameter: it gets the less function \<open>Compare(a, b) > 0\<close>.\<close>

definition LatestSatisfying ::
  "((Version \<Rightarrow> Version \<Rightarrow> bool) \<Rightarrow> Version list \<Rightarrow> Version list) \<Rightarrow> Version list \<Rightarrow> string \<Rightarrow> semver_error + Version" where
  "LatestSatisfying sort_Slice versions constraintStr =
     LatestSatisfying_loop (sort_Slice (\<lambda>a b. Compare a b > 0) versions) constraintStr"

section \<open>The order\<close>

text \<open>A three-way comparison in the Go style.\<close>

locale comparator =
  fixes cmp :: "'a \<Rightarrow> 'a \<Rightarrow> int"
  assumes cmp_flip: "cmp b a = - cmp a b"
    and cmp_trans: "cmp a b \<le> 0 \<Longrightarrow> cmp b c \<le> 0 \<Longrightarrow> cmp a c \<le> 0"
begin

lemma cmp_refl: "cmp a a = 0"
  using cmp_flip [of a a] by simp

lemma cmp_strict: "cmp a b < 0 \<Longrightarrow> cmp b c \<le> 0 \<Longrightarrow> cmp a c < 0"
  using cmp_trans [of b c a] cmp_trans [of a b c] cmp_flip [of a b] cmp_flip [of a c] by linarith

text \<open>\<open>sort.Slice\<close> with the less function \<open>cmp a b > 0\<close> puts the elements in descending order: no
  element is less than one before it.  The first element that has a property is then a greatest.\<close>

lemma sorted_first_greatest:
  assumes "sorted_wrt (\<lambda>a b. \<not> cmp b a > 0) xs" and "xs = ys @ x # zs" and "\<forall>y \<in> set ys. \<not> P y" and "P w" and "w \<in> set xs"
  shows "cmp w x \<le> 0"
proof -
  have "w = x \<or> w \<in> set zs" using assms by auto
  moreover have "w \<in> set zs \<Longrightarrow> \<not> cmp w x > 0" using assms(1,2) by (simp add: sorted_wrt_append)
  ultimately show ?thesis using cmp_refl [of x] by auto
qed

end

definition lin_cmp :: "'a::linorder \<Rightarrow> 'a \<Rightarrow> int" where
  "lin_cmp x y = (if x < y then -1 else if y < x then 1 else 0)"

lemma lin_cmp_comparator: "comparator (\<lambda>a b. lin_cmp (f a) (f b))"
  by unfold_locales (auto simp: lin_cmp_def split: if_splits)

text \<open>The keys that the comparison orders: a numeric identifier before a textual one, a version
  without a pre-release after all those with one.\<close>

definition ident_key :: "string \<Rightarrow> nat \<times> int \<times> string" where
  "ident_key x = (case Atoi x of (n, ok) \<Rightarrow> if ok then (0, n, []) else (1, 0, x))"

definition pre_key :: "string \<Rightarrow> nat \<times> (nat \<times> int \<times> string) list" where
  "pre_key s = (if s = [] then (1, []) else (0, map ident_key (Split s ''.'')))"

definition version_key :: "Version \<Rightarrow> int \<times> int \<times> int \<times> nat \<times> (nat \<times> int \<times> string) list" where
  "version_key v = (Major v, Minor v, Patch v, pre_key (PreRelease v))"

lemma comparePreRelease_loop_key:
  "comparePreRelease_loop xs ys = lin_cmp (map ident_key xs) (map ident_key ys)"
proof (induction xs arbitrary: ys)
  case Nil
  then show ?case by (cases ys) (simp_all add: lin_cmp_def)
next
  case (Cons x xs)
  show ?case
  proof (cases ys)
    case Nil
    then show ?thesis by (simp add: lin_cmp_def)
  next
    fix y ys'
    assume ys: "ys = y # ys'"
    obtain na ea nb eb where "Atoi x = (na, ea)" "Atoi y = (nb, eb)" by fastforce
    with Cons [of ys'] ys show ?thesis
      by (cases ea; cases eb) (auto simp: ident_key_def lin_cmp_def less_prod_def' split: if_splits)
  qed
qed

lemma Split_nonempty: "Split s sep \<noteq> []"
  by (simp add: Split_def split_loop_nonempty)

lemma comparePreRelease_key: "comparePreRelease a b = lin_cmp (pre_key a) (pre_key b)"
  by (auto simp: comparePreRelease_def parsePreReleaseIdentifiers_def pre_key_def Let_def
      comparePreRelease_loop_key Split_nonempty) (auto simp: lin_cmp_def)

lemma Compare_key: "Compare a b = lin_cmp (version_key a) (version_key b)"
  by (auto simp: Compare_def version_key_def comparePreRelease_key) (auto simp: lin_cmp_def)

interpretation version_order: comparator Compare
  unfolding Compare_key [abs_def] by (rule lin_cmp_comparator)


section \<open>Printing and parsing\<close>

definition version_ok :: "Version \<Rightarrow> bool" where
  "version_ok v \<longleftrightarrow> 0 \<le> Major v \<and> Major v \<le> maxInt \<and> 0 \<le> Minor v \<and> Minor v \<le> maxInt
     \<and> 0 \<le> Patch v \<and> Patch v \<le> maxInt \<and> (PreRelease v = [] \<or> idents_ok (PreRelease v))
     \<and> (BuildMetadata v = [] \<or> idents_ok (BuildMetadata v))"

lemma take_number_digits:
  assumes "list_all is_digit ds" and "ds \<noteq> []" and "rest = [] \<or> \<not> is_digit (hd rest)"
  shows "take_number (ds @ rest) = Some (ds, rest)"
proof -
  have "takeWhile is_digit (ds @ rest) = ds" "dropWhile is_digit (ds @ rest) = rest"
    using assms by (cases rest; auto simp: list_all_iff)+
  with assms(2) show ?thesis by (simp add: take_number_def)
qed

lemma take_group_some:
  assumes "idents_ok g" and "rest = [] \<or> \<not> ident_char (hd rest)"
  shows "take_group c (c # g @ rest) = Some (g, rest)"
proof -
  have "takeWhile ident_char (g @ rest) = g" "dropWhile ident_char (g @ rest) = rest"
    using assms by (cases rest; auto simp: idents_ok_def list_all_iff)+
  with assms(1) show ?thesis by (simp add: take_group_def)
qed

lemma take_group_none: "s = [] \<or> hd s \<noteq> c \<Longrightarrow> take_group c s = Some ([], s)"
  by (cases s) (auto simp: take_group_def)

lemma not_ident_char: "\<not> ident_char CHR ''+''" "\<not> is_digit CHR ''.''" "\<not> is_digit CHR ''-''" "\<not> is_digit CHR ''+''"
  by (simp_all add: ident_char_def is_alnum_def is_digit_def)

lemma print_int_digits: "0 \<le> i \<Longrightarrow> list_all is_digit (print_int i) \<and> print_int i \<noteq> []"
  using print_nat_digits [of "nat i"] by (simp add: print_int_def)

definition pre_part :: "Version \<Rightarrow> string" where
  "pre_part v = (if PreRelease v \<noteq> [] then ''-'' @ PreRelease v else [])"

definition build_part :: "Version \<Rightarrow> string" where
  "build_part v = (if BuildMetadata v \<noteq> [] then ''+'' @ BuildMetadata v else [])"

lemma VersionString_parts:
  "VersionString v = print_int (Major v) @ ''.'' @ print_int (Minor v) @ ''.'' @ print_int (Patch v)
     @ pre_part v @ build_part v"
  by (simp add: VersionString_def pre_part_def build_part_def)

lemma take_group_pre:
  "version_ok v \<Longrightarrow> take_group CHR ''-'' (pre_part v @ build_part v) = Some (PreRelease v, build_part v)"
  using take_group_some [of "PreRelease v" "build_part v" "CHR ''-''"] take_group_none [of "build_part v" "CHR ''-''"]
  by (auto simp: version_ok_def pre_part_def build_part_def not_ident_char)

lemma take_group_build:
  "version_ok v \<Longrightarrow> take_group CHR ''+'' (build_part v) = Some (BuildMetadata v, [])"
  using take_group_some [of "BuildMetadata v" "[]" "CHR ''+''"] take_group_none [of "[]" "CHR ''+''"]
  by (auto simp: version_ok_def build_part_def)

lemma ParseVersion_VersionString:
  assumes "version_ok v"
  shows "ParseVersion (VersionString v) = Inr v"
proof -
  let ?M = "print_int (Major v)" and ?m = "print_int (Minor v)" and ?p = "print_int (Patch v)"
  note d = print_int_digits [of "Major v"] print_int_digits [of "Minor v"] print_int_digits [of "Patch v"]
  have nv: "take_char CHR ''v'' (?M @ rest) = None" for rest
    using d(1) assms by (cases ?M) (auto simp: version_ok_def is_digit_def)
  have "pre_part v @ build_part v = [] \<or> \<not> is_digit (hd (pre_part v @ build_part v))"
    by (simp add: pre_part_def build_part_def not_ident_char)
  then have "take_number (?p @ pre_part v @ build_part v) = Some (?p, pre_part v @ build_part v)"
    using d(3) assms by (intro take_number_digits) (auto simp: version_ok_def)
  moreover have "take_number (?M @ CHR ''.'' # rest) = Some (?M, CHR ''.'' # rest)"
    "take_number (?m @ CHR ''.'' # rest) = Some (?m, CHR ''.'' # rest)" for rest
    using d assms by (auto intro!: take_number_digits simp: version_ok_def not_ident_char)
  ultimately have "versionRegexp_match (VersionString v) = Some (?M, ?m, ?p, PreRelease v, BuildMetadata v)"
    using take_group_pre [OF assms] take_group_build [OF assms]
    by (simp add: versionRegexp_match_def VersionString_parts nv)
  then show ?thesis
    using assms by (simp add: ParseVersion_def version_ok_def Atoi_print)
qed

lemma take_number_Some:
  "take_number s = Some (ds, rest) \<Longrightarrow> list_all is_digit ds \<and> ds \<noteq> []"
  by (auto simp: take_number_def Let_def list_all_iff split: if_splits dest: set_takeWhileD)

lemma take_group_Some: "take_group c s = Some (g, rest) \<Longrightarrow> g = [] \<or> idents_ok g"
  by (auto simp: take_group_def Let_def split: option.splits if_splits)

lemma Atoi_digits_range:
  "list_all is_digit ds \<Longrightarrow> ds \<noteq> [] \<Longrightarrow> 0 \<le> fst (Atoi ds) \<and> fst (Atoi ds) \<le> maxInt"
  by (simp add: Atoi_digits) (simp add: maxInt_def)

lemma ParseVersion_ok:
  assumes "ParseVersion s = Inr v"
  shows "version_ok v"
proof -
  obtain m1 m2 m3 m4 m5 where m: "versionRegexp_match s = Some (m1, m2, m3, m4, m5)"
    and v: "v = \<lparr>Major = fst (Atoi m1), Minor = fst (Atoi m2), Patch = fst (Atoi m3), PreRelease = m4, BuildMetadata = m5\<rparr>"
    using assms by (auto simp: ParseVersion_def split: option.splits)
  have "list_all is_digit m1 \<and> m1 \<noteq> []" "list_all is_digit m2 \<and> m2 \<noteq> []" "list_all is_digit m3 \<and> m3 \<noteq> []"
    "m4 = [] \<or> idents_ok m4" "m5 = [] \<or> idents_ok m5"
    using m by (auto simp: versionRegexp_match_def Let_def split: Option.bind_splits option.splits if_splits
        dest!: take_number_Some take_group_Some)
  then show ?thesis by (simp add: v version_ok_def Atoi_digits_range)
qed

section \<open>Sorting\<close>

definition strict_weak :: "('a \<Rightarrow> 'a \<Rightarrow> bool) \<Rightarrow> bool" where
  "strict_weak lt \<longleftrightarrow> (\<forall>a. \<not> lt a a) \<and> (\<forall>a b c. lt a b \<longrightarrow> lt b c \<longrightarrow> lt a c)
     \<and> (\<forall>a b c. \<not> lt a b \<longrightarrow> \<not> lt b c \<longrightarrow> \<not> lt a c)"

lemma strict_weak_irrefl: "strict_weak lt \<Longrightarrow> \<not> lt a a"
  by (simp add: strict_weak_def)

lemma strict_weak_trans: "strict_weak lt \<Longrightarrow> lt a b \<Longrightarrow> lt b c \<Longrightarrow> lt a c"
  unfolding strict_weak_def by blast

text \<open>What \<open>sort.Slice\<close> documents: for a strict weak ordering the result is a permutation in which
  no element is less than an earlier one.  Equal elements may come in any order.\<close>

definition sort_Slice_ok :: "(('a \<Rightarrow> 'a \<Rightarrow> bool) \<Rightarrow> 'a list \<Rightarrow> 'a list) \<Rightarrow> bool" where
  "sort_Slice_ok srt \<longleftrightarrow> (\<forall>lt xs. strict_weak lt \<longrightarrow>
     mset (srt lt xs) = mset xs \<and> sorted_wrt (\<lambda>a b. \<not> lt b a) (srt lt xs))"

context comparator
begin

lemma greater_strict_weak: "strict_weak (\<lambda>a b. cmp a b > 0)"
  unfolding strict_weak_def
proof (intro conjI allI impI)
  fix a b c
  show "\<not> 0 < cmp a a" by (simp add: cmp_refl)
  show "0 < cmp a b \<Longrightarrow> 0 < cmp b c \<Longrightarrow> 0 < cmp a c"
    using cmp_strict [of c b a] cmp_flip [of a b] cmp_flip [of b c] cmp_flip [of a c] by linarith
  show "\<not> 0 < cmp a b \<Longrightarrow> \<not> 0 < cmp b c \<Longrightarrow> \<not> 0 < cmp a c"
    using cmp_trans [of a b c] by linarith
qed

end

text \<open>Insertion sort meets the contract.\<close>

fun insert_by :: "('a \<Rightarrow> 'a \<Rightarrow> bool) \<Rightarrow> 'a \<Rightarrow> 'a list \<Rightarrow> 'a list" where
  "insert_by lt x [] = [x]"
| "insert_by lt x (y # ys) = (if lt x y then x # y # ys else y # insert_by lt x ys)"

definition insertion_sort :: "('a \<Rightarrow> 'a \<Rightarrow> bool) \<Rightarrow> 'a list \<Rightarrow> 'a list" where
  "insertion_sort lt xs = foldr (insert_by lt) xs []"

lemma mset_insert_by: "mset (insert_by lt x ys) = add_mset x (mset ys)"
  by (induction ys) simp_all

lemma set_insert_by: "set (insert_by lt x ys) = insert x (set ys)"
  using arg_cong [OF mset_insert_by, of set_mset lt x ys] by simp

lemma sorted_insert_by:
  assumes "strict_weak lt" and "sorted_wrt (\<lambda>a b. \<not> lt b a) ys"
  shows "sorted_wrt (\<lambda>a b. \<not> lt b a) (insert_by lt x ys)"
  using assms(2)
proof (induction ys)
  case (Cons y ys)
  have "\<not> lt z x" if "lt x y" and "z \<in> set (y # ys)" for z
  proof
    assume "lt z x"
    with that(1) assms(1) have "lt z y" by (blast intro: strict_weak_trans)
    moreover have "\<not> lt z y"
      using that(2) Cons.prems strict_weak_irrefl [OF assms(1)] by auto
    ultimately show False by simp
  qed
  with Cons show ?case by (auto simp: set_insert_by)
qed simp

lemma insertion_sort_ok: "sort_Slice_ok insertion_sort"
  unfolding sort_Slice_ok_def
proof (intro allI impI conjI)
  fix lt :: "'a \<Rightarrow> 'a \<Rightarrow> bool" and xs
  assume "strict_weak lt"
  then show "sorted_wrt (\<lambda>a b. \<not> lt b a) (insertion_sort lt xs)"
    by (induction xs) (simp_all add: insertion_sort_def sorted_insert_by)
  show "mset (insertion_sort lt xs) = mset xs"
    by (induction xs) (simp_all add: insertion_sort_def mset_insert_by)
qed


section \<open>Properties\<close>

text \<open>C37. Printing is inverted by parsing: every version with components in range and well-formed
  pre-release and build parts is read back from its string.\<close>

theorem version_roundtrip:
  assumes "version_ok v"
  shows "ParseVersion (VersionString v) = Inr v"
  by (rule ParseVersion_VersionString [OF assms])

definition sample_version :: Version where
  "sample_version = \<lparr>Major = 1, Minor = 20, Patch = 3, PreRelease = ''rc.1'', BuildMetadata = ''b7''\<rparr>"

theorem version_roundtrip_witness: "ParseVersion (VersionString sample_version) = Inr sample_version"
  by (rule version_roundtrip) code_simp

text \<open>C38. What \<open>ParseVersion\<close> accepts is well formed, and its string is a normal form: parsing the
  printed version gives the version again (a leading \<open>v\<close> and leading zeros are dropped).\<close>

theorem ParseVersion_normal_form:
  assumes "ParseVersion s = Inr v"
  shows "version_ok v \<and> ParseVersion (VersionString v) = Inr v"
  using ParseVersion_ok [OF assms] ParseVersion_VersionString by simp

theorem ParseVersion_normal_form_witness:
  "ParseVersion ''v01.2.3-rc.1'' = Inr \<lparr>Major = 1, Minor = 2, Patch = 3, PreRelease = ''rc.1'', BuildMetadata = []\<rparr>
   \<and> version_ok \<lparr>Major = 1, Minor = 2, Patch = 3, PreRelease = ''rc.1'', BuildMetadata = []\<rparr>"
proof -
  have e: "ParseVersion ''v01.2.3-rc.1'' = Inr \<lparr>Major = 1, Minor = 2, Patch = 3, PreRelease = ''rc.1'', BuildMetadata = []\<rparr>"
    by code_simp
  from e ParseVersion_normal_form [OF e] show ?thesis by simp
qed

text \<open>C35. \<open>Compare\<close> is a three-way comparison of a total preorder: the sign flips when the
  arguments are swapped, and it is transitive, also through equal versions.\<close>

theorem Compare_total_preorder:
  "Compare a b \<in> {-1, 0, 1} \<and> Compare b a = - Compare a b
   \<and> (Compare a c \<le> 0 \<or> Compare a b > 0 \<or> Compare b c > 0)
   \<and> (Compare a c < 0 \<or> Compare a b \<ge> 0 \<or> Compare b c > 0)"
  using version_order.cmp_flip [of b a] version_order.cmp_trans [of a b c] version_order.cmp_strict [of a b c]
  by (auto simp: Compare_key lin_cmp_def)

lemma LatestSatisfying_loop_first:
  "LatestSatisfying_loop vs c = Inr v \<Longrightarrow>
     \<exists>ys zs. vs = ys @ v # zs \<and> Satisfies v c = Inr True \<and> (\<forall>y \<in> set ys. Satisfies y c = Inr False)"
proof (induction vs)
  case (Cons u vs)
  show ?case
  proof (cases "Satisfies u c = Inr True")
    case True
    with Cons.prems show ?thesis by (intro exI [of _ "[]"] exI [of _ vs]) simp
  next
    case False
    with Cons obtain ys zs where "vs = ys @ v # zs" "Satisfies v c = Inr True" "\<forall>y \<in> set ys. Satisfies y c = Inr False"
      and "Satisfies u c = Inr False"
      by (auto split: sum.splits if_splits)
    then show ?thesis by (intro exI [of _ "u # ys"] exI [of _ zs]) simp
  qed
qed simp

lemma Satisfies_error: "Satisfies v c = Inl e \<Longrightarrow> \<exists>p e'. e = InvalidConstraint p e'"
proof -
  have "Satisfies_loop v parts = Inl e \<Longrightarrow> \<exists>p e'. e = InvalidConstraint p e'" for parts
    by (induction parts) (auto simp: Let_def split: sum.splits if_splits)
  then show "Satisfies v c = Inl e \<Longrightarrow> \<exists>p e'. e = InvalidConstraint p e'"
    by (auto simp: Satisfies_def Let_def split: if_splits)
qed

lemma Satisfies_not_none: "Satisfies v c \<noteq> Inl (NoVersionSatisfies d)"
  using Satisfies_error [of v c "NoVersionSatisfies d"] by auto

lemma LatestSatisfying_loop_none:
  "LatestSatisfying_loop vs c = Inl (NoVersionSatisfies c) \<Longrightarrow> w \<in> set vs \<Longrightarrow> Satisfies w c \<noteq> Inr True"
  by (induction vs) (auto split: sum.splits if_splits simp: Satisfies_not_none)

text \<open>C36. \<open>LatestSatisfying\<close> returns a greatest of the versions that satisfy the constraint, for
  every sorting function with the contract of \<open>sort.Slice\<close>; when it reports that there is none,
  none satisfies it.\<close>

theorem LatestSatisfying_greatest:
  assumes "sort_Slice_ok srt"
  shows "case LatestSatisfying srt versions c of
      Inr v \<Rightarrow> v \<in> set versions \<and> Satisfies v c = Inr True
        \<and> (\<forall>w \<in> set versions. Satisfies w c = Inr True \<longrightarrow> Compare w v \<le> 0)
    | Inl e \<Rightarrow> e = NoVersionSatisfies c \<longrightarrow> (\<forall>w \<in> set versions. Satisfies w c \<noteq> Inr True)"
proof -
  define vs where "vs = srt (\<lambda>a b. Compare a b > 0) versions"
  have vs: "mset vs = mset versions" "sorted_wrt (\<lambda>a b. \<not> Compare b a > 0) vs"
    using assms version_order.greater_strict_weak by (auto simp: sort_Slice_ok_def vs_def)
  have s: "set vs = set versions" using arg_cong [OF vs(1), of set_mset] by simp
  have "v \<in> set versions \<and> Satisfies v c = Inr True
        \<and> (\<forall>w \<in> set versions. Satisfies w c = Inr True \<longrightarrow> Compare w v \<le> 0)"
    if l: "LatestSatisfying_loop vs c = Inr v" for v
  proof -
    obtain ys zs where v: "vs = ys @ v # zs" "Satisfies v c = Inr True" "\<forall>y \<in> set ys. Satisfies y c = Inr False"
      using LatestSatisfying_loop_first [OF l] by blast
    then have "Compare w v \<le> 0" if "w \<in> set vs" "Satisfies w c = Inr True" for w
      using version_order.sorted_first_greatest [OF vs(2) v(1), of "\<lambda>w. Satisfies w c = Inr True" w] that by auto
    with v s show ?thesis by auto
  qed
  moreover have "Satisfies w c \<noteq> Inr True"
    if "LatestSatisfying_loop vs c = Inl (NoVersionSatisfies c)" "w \<in> set versions" for w
    using LatestSatisfying_loop_none [OF that(1)] that(2) s by simp
  ultimately show ?thesis
    unfolding LatestSatisfying_def vs_def [symmetric] by (auto split: sum.splits)
qed

theorem LatestSatisfying_greatest_witness:
  "LatestSatisfying insertion_sort [core_version 1 2 0, core_version 1 9 0, core_version 2 0 0] ''^1.0.0'' = Inr (core_version 1 9 0)
   \<and> Compare (core_version 1 2 0) (core_version 1 9 0) \<le> 0"
proof -
  have e: "LatestSatisfying insertion_sort [core_version 1 2 0, core_version 1 9 0, core_version 2 0 0] ''^1.0.0'' = Inr (core_version 1 9 0)"
    and s: "Satisfies (core_version 1 2 0) ''^1.0.0'' = Inr True"
    by code_simp+
  from LatestSatisfying_greatest [OF insertion_sort_ok,
      where versions = "[core_version 1 2 0, core_version 1 9 0, core_version 2 0 0]" and c = "''^1.0.0''"] e s
  show ?thesis by simp
qed

text \<open>A caret constraint on a release \<open>^M.m.p\<close> with \<open>M > 0\<close> admits exactly the releases of major
  version \<open>M\<close> from \<open>m.p\<close> on.\<close>

theorem caret_releases:
  assumes "ParseVersion s = Inr v" and "0 < Major v" and "Major v < maxInt" and "version_ok w" and "PreRelease w = []"
  shows "\<exists>c. parseCaret s = Inr c \<and>
     (satisfies c w \<longleftrightarrow> Major w = Major v \<and> (Minor w > Minor v \<or> Minor w = Minor v \<and> Patch w \<ge> Patch v))"
proof -
  have "wrapInt (Major v + 1) = Major v + 1"
    using assms(2,3) by (simp add: wrapInt_def maxInt_def)
  with assms show ?thesis
    by (auto simp: parseCaret_def half_open_def no_constraint_def satisfies_def Compare_key lin_cmp_def
        version_key_def pre_key_def version_ok_def)
qed

theorem caret_releases_witness:
  "\<exists>c. parseCaret ''1.2.3'' = Inr c \<and>
     (satisfies c (core_version 1 4 0) \<longleftrightarrow> 1 = (1 :: int) \<and> ((4 :: int) > 2 \<or> 4 = (2 :: int) \<and> 0 \<ge> (3 :: int)))"
proof -
  have e: "ParseVersion ''1.2.3'' = Inr (core_version 1 2 3)" by code_simp
  from caret_releases [OF e, of "core_version 1 4 0"] show ?thesis by (simp add: maxInt_def version_ok_def)
qed

text \<open>The parts of a constraint, whether they were separated by commas or by \<open>||\<close>, are all
  required: the loop accepts a version exactly when every non-empty part parses and admits it.\<close>

theorem constraint_parts_conjoined:
  "Satisfies_loop v parts = Inr True \<longleftrightarrow>
     list_all (\<lambda>p. TrimSpace p = [] \<or> (\<exists>c. parseSingleConstraint (TrimSpace p) = Inr c \<and> satisfies c v)) parts"
  by (induction parts) (auto simp: Let_def split: sum.splits if_splits)

text \<open>A version that the first alternative of \<open>^1.0.0 || ^2.0.0\<close> admits is refused by the
  whole constraint.\<close>

theorem alternatives_refused:
  "Satisfies (core_version 1 5 0) ''^1.0.0'' = Inr True
   \<and> Satisfies (core_version 1 5 0) ''^1.0.0 || ^2.0.0'' = Inr False"
  by code_simp


end
