(* ===== verification/Lockfile.thy ===== *)
theory Lockfile
  imports Go_Strings "HOL-Library.List_Lexorder" "HOL-Library.Char_ord" "HOL-Library.Multiset"
begin

text \<open>
  The lock file of the package manager (pkg/pm/lock.go): the reader, the writer and the operations on
  entries.  A file is its contents; opening it is outside the model, the scanner's only error (a
  line that does not fit its 64 KiB buffer) is a branch.  The writer formats values with \<open>%q\<close>,
  modelled on ASCII strings; the reader only strips the quotes (\<open>stripQuotes\<close> of
  pkg/pm/manager.go).
\<close>

section \<open>Data types\<close>

record LockEntry =
  le_Name :: string
  le_Version :: string
  le_Source :: string
  le_URL :: string
  le_Rev :: string
  le_Checksum :: string
  le_Integrity :: bool

record LockMetadata =
  lm_KarkainVersion :: string
  lm_ResolvedAt :: string

record LockFile =
  lf_Packages :: "LockEntry list"
  lf_Metadata :: LockMetadata



section \<open>Strings\<close>


definition dquote :: char where
  "dquote = CHR 0x22"


definition backslash :: char where
  "backslash = CHR 0x5C"

definition hex_digit :: "nat \<Rightarrow> char" where
  "hex_digit n = ''0123456789abcdef'' ! n"

text \<open>\<open>strconv.Quote\<close>, on ASCII characters.\<close>

definition quote_char :: "char \<Rightarrow> string" where
  "quote_char c =
     (let n = (of_char c :: nat) in
      if c = dquote \<or> c = backslash then [backslash, c]
      else if n = 7 then [backslash, CHR ''a''] else if n = 8 then [backslash, CHR ''b'']
      else if n = 9 then [backslash, CHR ''t''] else if n = 10 then [backslash, CHR ''n'']
      else if n = 11 then [backslash, CHR ''v''] else if n = 12 then [backslash, CHR ''f'']
      else if n = 13 then [backslash, CHR ''r'']
      else if n < 32 \<or> n = 127 then [backslash, CHR ''x'', hex_digit (n div 16), hex_digit (n mod 16)]
      else [c])"





section \<open>Reading\<close>








section \<open>Writing\<close>






section \<open>Entries\<close>

fun update_packages :: "string \<Rightarrow> LockEntry \<Rightarrow> LockEntry list \<Rightarrow> LockEntry list" where
  "update_packages name entry [] = [entry]"
| "update_packages name entry (pkg # pkgs) =
     (if le_Name pkg = name then entry # pkgs else pkg # update_packages name entry pkgs)"

definition UpdateLockEntry :: "LockFile \<Rightarrow> string \<Rightarrow> LockEntry \<Rightarrow> LockFile" where
  "UpdateLockEntry lf name entry = lf\<lparr>lf_Packages := update_packages name entry (lf_Packages lf)\<rparr>"

fun remove_packages :: "string \<Rightarrow> LockEntry list \<Rightarrow> LockEntry list" where
  "remove_packages name [] = []"
| "remove_packages name (pkg # pkgs) = (if le_Name pkg = name then pkgs else pkg # remove_packages name pkgs)"

definition RemoveLockEntry :: "LockFile \<Rightarrow> string \<Rightarrow> LockFile" where
  "RemoveLockEntry lf name = lf\<lparr>lf_Packages := remove_packages name (lf_Packages lf)\<rparr>"

fun locked_in :: "LockEntry list \<Rightarrow> string \<Rightarrow> string \<Rightarrow> bool" where
  "locked_in [] name version = False"
| "locked_in (pkg # pkgs) name version =
     (if le_Name pkg = name \<and> le_Version pkg = version then True else locked_in pkgs name version)"

definition IsLocked :: "LockFile \<Rightarrow> string \<Rightarrow> string \<Rightarrow> bool" where
  "IsLocked lf name version = locked_in (lf_Packages lf) name version"

text \<open>The time is an argument.\<close>

definition SetResolvedNow :: "string \<Rightarrow> LockFile \<Rightarrow> LockFile" where
  "SetResolvedNow now lf = lf\<lparr>lf_Metadata := (lf_Metadata lf)\<lparr>lm_ResolvedAt := now\<rparr>\<rparr>"

definition SortedPackageNames :: "LockFile \<Rightarrow> string list" where
  "SortedPackageNames lf = sort (map le_Name (lf_Packages lf))"

section \<open>Lines\<close>



section \<open>One written line read back\<close>

text \<open>What the reader gets back for a string: the body of its quoted form.\<close>

definition escaped :: "string \<Rightarrow> string" where
  "escaped s = concat (map quote_char s)"






lemma quote_char_nonempty: "0 < length (quote_char c)"
  by (simp add: quote_char_def Let_def)



lemma escaped_Nil [simp]: "escaped s = [] \<longleftrightarrow> s = []" "escaped [] = []"
  using quote_char_nonempty by (cases s; force simp: escaped_def)+














section \<open>The whole file\<close>





















section \<open>Updating entries\<close>

lemma locked_in_iff: "locked_in pkgs n v \<longleftrightarrow> (\<exists>p \<in> set pkgs. le_Name p = n \<and> le_Version p = v)"
  by (induction pkgs) auto

lemma locked_update_other:
  "le_Name e = name \<Longrightarrow> n \<noteq> name \<Longrightarrow> locked_in (update_packages name e pkgs) n v = locked_in pkgs n v"
  by (induction pkgs) auto

lemma locked_update_same:
  "le_Name e = name \<Longrightarrow> distinct (map le_Name pkgs) \<Longrightarrow> locked_in (update_packages name e pkgs) name v \<longleftrightarrow> v = le_Version e"
  by (induction pkgs) (auto simp: locked_in_iff image_iff)

lemma locked_remove_other: "n \<noteq> name \<Longrightarrow> locked_in (remove_packages name pkgs) n v = locked_in pkgs n v"
  by (induction pkgs) auto

lemma locked_remove_same: "distinct (map le_Name pkgs) \<Longrightarrow> \<not> locked_in (remove_packages name pkgs) name v"
  by (induction pkgs) (auto simp: locked_in_iff image_iff)

lemma names_update:
  "le_Name e = name \<Longrightarrow> distinct (map le_Name pkgs) \<Longrightarrow>
     distinct (map le_Name (update_packages name e pkgs))
     \<and> set (map le_Name (update_packages name e pkgs)) = insert name (set (map le_Name pkgs))"
  by (induction pkgs) auto

lemma names_remove: "set (map le_Name (remove_packages name pkgs)) \<subseteq> set (map le_Name pkgs)"
  by (induction pkgs) auto

lemma distinct_remove: "distinct (map le_Name pkgs) \<Longrightarrow> distinct (map le_Name (remove_packages name pkgs))"
  by (induction pkgs) (use names_remove in auto)

section \<open>Properties\<close>


definition sample_entry :: LockEntry where
  "sample_entry = \<lparr>le_Name = ''json'', le_Version = ''1.2.0'', le_Source = ''registry'', le_URL = [], le_Rev = [],
     le_Checksum = ''sha256:ab'', le_Integrity = True\<rparr>"

definition sample_lock :: LockFile where
  "sample_lock = \<lparr>lf_Packages = [sample_entry, sample_entry\<lparr>le_Name := ''http'', le_Checksum := []\<rparr>],
     lf_Metadata = \<lparr>lm_KarkainVersion = ''1.0'', lm_ResolvedAt = []\<rparr>\<rparr>"





text \<open>\<open>UpdateLockEntry\<close> and \<open>RemoveLockEntry\<close> act on the package they name and on no other:
  after an update exactly the new version of that package is locked (for a lock file with one
  entry per name), after a removal none is, and every other package keeps its locks.\<close>

theorem lock_update_remove:
  assumes "distinct (map le_Name (lf_Packages lf))" and "le_Name e = name"
  shows "(IsLocked (UpdateLockEntry lf name e) n v \<longleftrightarrow> (if n = name then v = le_Version e else IsLocked lf n v))
     \<and> (IsLocked (RemoveLockEntry lf name) n v \<longleftrightarrow> n \<noteq> name \<and> IsLocked lf n v)
     \<and> distinct (map le_Name (lf_Packages (UpdateLockEntry lf name e)))
     \<and> distinct (map le_Name (lf_Packages (RemoveLockEntry lf name)))"
  using assms names_update [OF assms(2,1)] distinct_remove [OF assms(1)]
  by (auto simp: IsLocked_def UpdateLockEntry_def RemoveLockEntry_def locked_update_other locked_update_same
      locked_remove_other locked_remove_same)

theorem lock_update_remove_witness:
  "IsLocked (UpdateLockEntry sample_lock ''json'' (sample_entry\<lparr>le_Version := ''2.0.0''\<rparr>)) ''json'' ''2.0.0''
   \<and> \<not> IsLocked (RemoveLockEntry sample_lock ''json'') ''json'' ''1.2.0''"
proof -
  have d: "distinct (map le_Name (lf_Packages sample_lock))" and n: "le_Name (sample_entry\<lparr>le_Version := ''2.0.0''\<rparr>) = ''json''"
    by (simp_all add: sample_lock_def sample_entry_def)
  show ?thesis
    using lock_update_remove [OF d n, of "''json''" "''2.0.0''"] lock_update_remove [OF d n, of "''json''" "''1.2.0''"]
    by simp
qed

text \<open>\<open>SortedPackageNames\<close> lists every locked name, as often as it occurs, in ascending byte
  order.\<close>

theorem SortedPackageNames_sorted:
  "sorted (SortedPackageNames lf) \<and> mset (SortedPackageNames lf) = image_mset le_Name (mset (lf_Packages lf))"
  by (simp add: SortedPackageNames_def)


end
