(* ===== verification/Ssa_Ir.thy ===== *)
theory Ssa_Ir
  imports Karkain_Prelude Go_Strings
begin

text \<open>
  The SSA intermediate representation (pkg/ir/ssa/ssa.go), its builder, its verifier
  (pkg/ir/ssa/verify.go) and the type helpers (pkg/ir/ssa/typed.go).

  The structs are records with all their fields: an \<open>Operand\<close> carries every constant payload
  whatever its kind, an \<open>Instr\<close> every payload whatever its opcode, as in the code.  \<open>float64\<close>
  constants are IEEE bit patterns.  The pointer \<open>Entry\<close> of a function is the name of the block it
  points to; a Go map is an Isabelle map.
\<close>

section \<open>Data types\<close>

datatype Type = Void | I | F | Bool | Str | Value | Ptr

record Operand =
  op_Reg :: string
  op_IsCst :: bool
  op_CstKind :: Type
  op_IntVal :: i64
  op_FltVal :: f64
  op_BoolVal :: bool
  op_StrVal :: string

definition zeroOperand :: Operand where
  "zeroOperand = \<lparr>op_Reg = [], op_IsCst = False, op_CstKind = Void, op_IntVal = 0, op_FltVal = 0,
     op_BoolVal = False, op_StrVal = []\<rparr>"

definition Reg :: "string \<Rightarrow> Operand" where
  "Reg name = zeroOperand\<lparr>op_Reg := name\<rparr>"

definition ConstInt :: "i64 \<Rightarrow> Operand" where
  "ConstInt v = zeroOperand\<lparr>op_IsCst := True, op_CstKind := I, op_IntVal := v\<rparr>"

definition ConstFlt :: "f64 \<Rightarrow> Operand" where
  "ConstFlt v = zeroOperand\<lparr>op_IsCst := True, op_CstKind := F, op_FltVal := v\<rparr>"

definition ConstBool :: "bool \<Rightarrow> Operand" where
  "ConstBool v = zeroOperand\<lparr>op_IsCst := True, op_CstKind := Bool, op_BoolVal := v\<rparr>"

definition ConstStr :: "string \<Rightarrow> Operand" where
  "ConstStr v = zeroOperand\<lparr>op_IsCst := True, op_CstKind := Str, op_StrVal := v\<rparr>"

lemmas const_defs = zeroOperand_def Reg_def ConstInt_def ConstFlt_def ConstBool_def ConstStr_def

datatype OpKind = OpConst | OpBinOp | OpUnOp | OpCall | OpCallVoid | OpBr | OpJmp | OpRet
  | OpIndexGet | OpIndexSet | OpPrint | OpLoad | OpStore | OpRawC

record Instr =
  i_Op :: OpKind
  i_Dest :: string
  i_Ty :: Type
  i_Args :: "Operand list"
  i_OpStr :: string
  i_RawC :: string
  i_Cell :: string
  i_Line :: int
  i_ThenTarget :: string
  i_ElseTarget :: string
  i_JmpTarget :: string
  i_BranchArgs :: "Operand list list"

text \<open>\<open>Instr{}\<close>: the zero value of the struct.\<close>

definition zeroInstr :: Instr where
  "zeroInstr = \<lparr>i_Op = OpConst, i_Dest = [], i_Ty = Void, i_Args = [], i_OpStr = [], i_RawC = [], i_Cell = [],
     i_Line = 0, i_ThenTarget = [], i_ElseTarget = [], i_JmpTarget = [], i_BranchArgs = []\<rparr>"

record BlockParam =
  bp_Name :: string
  bp_Ty :: Type

record Block =
  b_Name :: string
  b_Params :: "BlockParam list"
  b_Instrs :: "Instr list"

record SsaFunction =
  f_Name :: string
  f_Params :: "BlockParam list"
  f_ReturnType :: Type
  f_Line :: int
  f_Blocks :: "Block list"
  f_Entry :: string
  f_regCount :: nat
  f_blockCount :: nat

type_synonym SsaModule = "SsaFunction list"

section \<open>Building functions\<close>

definition NewBlock :: "string \<Rightarrow> SsaFunction \<Rightarrow> Block \<times> SsaFunction" where
  "NewBlock hint f =
     (let name = hint @ print_nat (f_blockCount f);
          name = (if f_blockCount f = 0 \<and> hint = ''entry'' then ''entry'' else name);
          b = \<lparr>b_Name = name, b_Params = [], b_Instrs = []\<rparr>
      in (b, f\<lparr>f_blockCount := f_blockCount f + 1, f_Blocks := f_Blocks f @ [b]\<rparr>))"

definition NewFunction :: "string \<Rightarrow> SsaFunction" where
  "NewFunction name =
     (let f = \<lparr>f_Name = name, f_Params = [], f_ReturnType = Void, f_Line = 0, f_Blocks = [], f_Entry = [],
               f_regCount = 0, f_blockCount = 0\<rparr>;
          (b, f) = NewBlock ''entry'' f
      in f\<lparr>f_Entry := b_Name b\<rparr>)"

definition NewReg :: "string \<Rightarrow> SsaFunction \<Rightarrow> string \<times> SsaFunction" where
  "NewReg hint f =
     (hint @ ''_'' @ print_nat (f_regCount f), f\<lparr>f_regCount := f_regCount f + 1\<rparr>)"

definition isTerminator :: "Instr \<Rightarrow> bool" where
  "isTerminator i \<longleftrightarrow> (case i_Op i of OpBr \<Rightarrow> True | OpJmp \<Rightarrow> True | OpRet \<Rightarrow> True | _ \<Rightarrow> False)"

definition Terminated :: "Block \<Rightarrow> bool" where
  "Terminated b \<longleftrightarrow>
     (if length (b_Instrs b) = 0 then False else isTerminator (b_Instrs b ! (length (b_Instrs b) - 1)))"

definition Emit :: "Instr \<Rightarrow> Block \<Rightarrow> Block" where
  "Emit i b = b\<lparr>b_Instrs := b_Instrs b @ [i]\<rparr>"

definition Module_NewFunction :: "string \<Rightarrow> SsaModule \<Rightarrow> SsaFunction \<times> SsaModule" where
  "Module_NewFunction name m = (let f = NewFunction name in (f, m @ [f]))"

definition validBinOps :: "string list" where
  "validBinOps = [''+'', ''-'', ''*'', ''/'', ''%'', ''=='', ''!='', ''<'', ''>'', ''<='', ''>='', ''&&'', ''||'']"

section \<open>Verifier\<close>

datatype verify_error =
    EntryNotFirst
  | DuplicateBlock string
  | TerminatorNotLast string
  | MissingTerminator string
  | AssignedTwice string string
  | UnknownBinOp string string
  | BinOpArgs string
  | BrCondition string
  | UnknownTarget string string
  | BrArgCount string
  | JmpArgCount string
  | EmptyRawC string
  | CallWithoutTarget string
  | IndexPanic string

fun verify_names :: "string list \<Rightarrow> Block list \<Rightarrow> verify_error option" where
  "verify_names seen [] = None"
| "verify_names seen (b # bs) =
     (if b_Name b \<in> set seen then Some (DuplicateBlock (b_Name b)) else verify_names (b_Name b # seen) bs)"

text \<open>\<open>blocks[name]\<close>: the last block entered under the name.\<close>

definition block_map :: "Block list \<Rightarrow> string \<rightharpoonup> Block" where
  "block_map bs = map_of (rev (map (\<lambda>b. (b_Name b, b)) bs))"

definition verify_br :: "(string \<rightharpoonup> Block) \<Rightarrow> string \<Rightarrow> Instr \<Rightarrow> verify_error option" where
  "verify_br blocks bn i =
     (if length (i_Args i) \<noteq> 1 then Some (BrCondition bn)
      else case blocks (i_ThenTarget i) of
        None \<Rightarrow> Some (UnknownTarget bn (i_ThenTarget i))
      | Some tb \<Rightarrow>
          (case blocks (i_ElseTarget i) of
             None \<Rightarrow> Some (UnknownTarget bn (i_ElseTarget i))
           | Some eb \<Rightarrow>
               (let ba = (if length (i_BranchArgs i) = 0 then [[], []] else i_BranchArgs i) in
                if length (ba ! 0) \<noteq> length (b_Params tb) then Some (BrArgCount bn)
                else if length ba < 2 then Some (IndexPanic bn)
                else if length (ba ! 1) \<noteq> length (b_Params eb) then Some (BrArgCount bn)
                else None)))"

definition verify_jmp :: "(string \<rightharpoonup> Block) \<Rightarrow> string \<Rightarrow> Instr \<Rightarrow> verify_error option" where
  "verify_jmp blocks bn i =
     (case blocks (i_JmpTarget i) of
        None \<Rightarrow> Some (UnknownTarget bn (i_JmpTarget i))
      | Some tb \<Rightarrow>
          if length (i_BranchArgs i) > 0 \<and> length (i_BranchArgs i ! 0) \<noteq> length (b_Params tb)
          then Some (JmpArgCount bn) else None)"

definition verify_op :: "(string \<rightharpoonup> Block) \<Rightarrow> string \<Rightarrow> Instr \<Rightarrow> verify_error option" where
  "verify_op blocks bn i =
     (case i_Op i of
        OpBinOp \<Rightarrow>
          if i_OpStr i \<notin> set validBinOps then Some (UnknownBinOp bn (i_OpStr i))
          else if length (i_Args i) \<noteq> 2 then Some (BinOpArgs bn) else None
      | OpBr \<Rightarrow> verify_br blocks bn i
      | OpJmp \<Rightarrow> verify_jmp blocks bn i
      | OpRawC \<Rightarrow> if i_RawC i = [] then Some (EmptyRawC bn) else None
      | OpCall \<Rightarrow> if i_OpStr i = [] then Some (CallWithoutTarget bn) else None
      | OpCallVoid \<Rightarrow> if i_OpStr i = [] then Some (CallWithoutTarget bn) else None
      | _ \<Rightarrow> None)"

text \<open>The loop over the instructions of a block; \<open>written\<close> is carried from block to block.\<close>

fun verify_instrs :: "(string \<rightharpoonup> Block) \<Rightarrow> string \<Rightarrow> Instr list \<Rightarrow> string list \<Rightarrow> verify_error + string list" where
  "verify_instrs blocks bn [] written = Inr written"
| "verify_instrs blocks bn (i # is) written =
     (if isTerminator i \<and> is \<noteq> [] then Inl (TerminatorNotLast bn)
      else if \<not> isTerminator i \<and> is = [] then Inl (MissingTerminator bn)
      else if i_Dest i \<noteq> [] \<and> i_Dest i \<in> set written then Inl (AssignedTwice bn (i_Dest i))
      else let written = (if i_Dest i \<noteq> [] then i_Dest i # written else written) in
        case verify_op blocks bn i of
          Some e \<Rightarrow> Inl e
        | None \<Rightarrow> verify_instrs blocks bn is written)"

fun verify_blocks :: "(string \<rightharpoonup> Block) \<Rightarrow> Block list \<Rightarrow> string list \<Rightarrow> verify_error option" where
  "verify_blocks blocks [] written = None"
| "verify_blocks blocks (b # bs) written =
     (case verify_instrs blocks (b_Name b) (b_Instrs b) written of
        Inl e \<Rightarrow> Some e
      | Inr written \<Rightarrow> verify_blocks blocks bs written)"

definition verifyFunction :: "SsaFunction \<Rightarrow> verify_error option" where
  "verifyFunction fn =
     (if length (f_Blocks fn) = 0 \<or> b_Name (f_Blocks fn ! 0) \<noteq> f_Entry fn then Some EntryNotFirst
      else case verify_names [] (f_Blocks fn) of
        Some e \<Rightarrow> Some e
      | None \<Rightarrow> verify_blocks (block_map (f_Blocks fn)) (f_Blocks fn) [])"

fun Verify :: "SsaModule \<Rightarrow> (string \<times> verify_error) option" where
  "Verify [] = None"
| "Verify (fn # fns) = (case verifyFunction fn of Some e \<Rightarrow> Some (f_Name fn, e) | None \<Rightarrow> Verify fns)"

section \<open>Type helpers\<close>

definition ResolveType :: "string \<Rightarrow> Type" where
  "ResolveType name =
     (if name = ''void'' then Void
      else if name \<in> {''i8'', ''i16'', ''i32'', ''i64''} then I
      else if name \<in> {''f16'', ''f32'', ''f64''} then F
      else if name = ''bool'' then Bool
      else if name \<in> {''str'', ''string''} then Str
      else if name = ''ptr'' then Ptr
      else Value)"

fun Type_String :: "Type \<Rightarrow> string" where
  "Type_String Void = ''void''"
| "Type_String I = ''i64''"
| "Type_String F = ''f64''"
| "Type_String Bool = ''bool''"
| "Type_String Str = ''str''"
| "Type_String Value = ''value''"
| "Type_String Ptr = ''ptr''"

fun TypeBits :: "Type \<Rightarrow> int" where
  "TypeBits I = 64"
| "TypeBits F = 64"
| "TypeBits Bool = 1"
| "TypeBits Str = 0"
| "TypeBits Ptr = 64"
| "TypeBits _ = 0"

definition TypeIsInteger :: "Type \<Rightarrow> bool" where "TypeIsInteger t \<longleftrightarrow> t = I"
definition TypeIsFloat :: "Type \<Rightarrow> bool" where "TypeIsFloat t \<longleftrightarrow> t = F"
definition TypeIsNumeric :: "Type \<Rightarrow> bool" where "TypeIsNumeric t \<longleftrightarrow> t = I \<or> t = F"
definition TypeIsPointer :: "Type \<Rightarrow> bool" where "TypeIsPointer t \<longleftrightarrow> t = Ptr"

definition TypeWidth :: "Type \<Rightarrow> int" where
  "TypeWidth t = (let bits = TypeBits t in if bits = 0 then 0 else (bits + 7) div 8)"

definition TypeAlign :: "Type \<Rightarrow> int" where
  "TypeAlign t = (let w = TypeWidth t in if w = 0 then 1 else if w > 8 then 8 else w)"

definition TypeIsCompatible :: "Type \<Rightarrow> Type \<Rightarrow> bool" where
  "TypeIsCompatible a b \<longleftrightarrow>
     (if a = b then True
      else if TypeIsInteger a \<and> TypeIsInteger b then True
      else if TypeIsFloat a \<and> TypeIsFloat b then True
      else if a = Value \<or> b = Value then True
      else False)"

definition TypePromote :: "Type \<Rightarrow> Type \<Rightarrow> Type" where
  "TypePromote a b =
     (if a = b then a
      else if a = Value \<or> b = Value then Value
      else if TypeIsFloat a \<or> TypeIsFloat b then F
      else if TypeIsInteger a \<and> TypeIsInteger b then I
      else Value)"

section \<open>What the verifier guarantees\<close>

lemma verify_names_None: "verify_names seen bs = None \<longleftrightarrow> distinct (map b_Name bs) \<and> set (map b_Name bs) \<inter> set seen = {}"
  by (induction seen bs rule: verify_names.induct) auto

text \<open>The registers a list of instructions assigns, in order.\<close>

definition dests :: "Instr list \<Rightarrow> string list" where
  "dests is = filter (\<lambda>d. d \<noteq> []) (map i_Dest is)"

definition all_instrs :: "Block list \<Rightarrow> Instr list" where
  "all_instrs bs = concat (map b_Instrs bs)"

lemma dests_simps [simp]: "dests [] = []" "dests (i # is) = (if i_Dest i \<noteq> [] then i_Dest i # dests is else dests is)"
  "dests (is @ js) = dests is @ dests js"
  by (simp_all add: dests_def)

definition shape_ok :: "Instr list \<Rightarrow> bool" where
  "shape_ok is \<longleftrightarrow> is = [] \<or> (isTerminator (last is) \<and> list_all (\<lambda>i. \<not> isTerminator i) (butlast is))"

lemma shape_ok_Nil [simp]: "shape_ok []"
  by (simp add: shape_ok_def)

lemma shape_ok_Cons: "shape_ok (i # is) \<longleftrightarrow> (isTerminator i \<longleftrightarrow> is = []) \<and> shape_ok is"
  by (cases "is") (auto simp: shape_ok_def)

lemma verify_instrs_Inr:
  "verify_instrs blocks bn is written = Inr w \<longleftrightarrow>
     shape_ok is \<and> list_all (\<lambda>i. verify_op blocks bn i = None) is
     \<and> distinct (dests is) \<and> set (dests is) \<inter> set written = {} \<and> w = rev (dests is) @ written"
proof (induction "is" arbitrary: w written)
  case Nil
  show ?case by (auto simp: shape_ok_def)
next
  case (Cons i "is")
  show ?case by (auto simp: shape_ok_Cons Let_def Cons.IH split: option.splits)
qed

lemma verify_blocks_None:
  "verify_blocks blocks bs written = None \<longleftrightarrow>
     list_all (\<lambda>b. shape_ok (b_Instrs b) \<and> list_all (\<lambda>i. verify_op blocks (b_Name b) i = None) (b_Instrs b)) bs
     \<and> distinct (dests (all_instrs bs)) \<and> set (dests (all_instrs bs)) \<inter> set written = {}"
proof (induction blocks bs written rule: verify_blocks.induct)
  case (2 blocks b bs written)
  show ?case
  proof (cases "verify_instrs blocks (b_Name b) (b_Instrs b) written")
    case (Inl e)
    then have "\<nexists>w. verify_instrs blocks (b_Name b) (b_Instrs b) written = Inr w" by simp
    then have "\<not> (shape_ok (b_Instrs b) \<and> list_all (\<lambda>i. verify_op blocks (b_Name b) i = None) (b_Instrs b)
       \<and> distinct (dests (b_Instrs b)) \<and> set (dests (b_Instrs b)) \<inter> set written = {})"
      by (simp add: verify_instrs_Inr)
    with Inl show ?thesis by (auto simp: all_instrs_def)
  next
    case (Inr w)
    then have "shape_ok (b_Instrs b) \<and> list_all (\<lambda>i. verify_op blocks (b_Name b) i = None) (b_Instrs b)
       \<and> distinct (dests (b_Instrs b)) \<and> set (dests (b_Instrs b)) \<inter> set written = {} \<and> w = rev (dests (b_Instrs b)) @ written"
      by (simp add: verify_instrs_Inr)
    with Inr 2 [OF Inr] show ?thesis by (auto simp: all_instrs_def)
  qed
qed (simp add: all_instrs_def)

text \<open>The contract of a verified function.\<close>

definition wf_function :: "SsaFunction \<Rightarrow> bool" where
  "wf_function fn \<longleftrightarrow>
     f_Blocks fn \<noteq> [] \<and> b_Name (hd (f_Blocks fn)) = f_Entry fn \<and> distinct (map b_Name (f_Blocks fn))
     \<and> list_all (\<lambda>b. shape_ok (b_Instrs b)
         \<and> list_all (\<lambda>i. verify_op (block_map (f_Blocks fn)) (b_Name b) i = None) (b_Instrs b)) (f_Blocks fn)
     \<and> distinct (dests (all_instrs (f_Blocks fn)))"

lemma verifyFunction_wf: "verifyFunction fn = None \<longleftrightarrow> wf_function fn"
proof -
  have "verifyFunction fn = None \<longleftrightarrow>
      f_Blocks fn \<noteq> [] \<and> b_Name (f_Blocks fn ! 0) = f_Entry fn \<and> verify_names [] (f_Blocks fn) = None
      \<and> verify_blocks (block_map (f_Blocks fn)) (f_Blocks fn) [] = None"
    unfolding verifyFunction_def by (simp split: option.split)
  also have "\<dots> \<longleftrightarrow> wf_function fn"
    by (cases "f_Blocks fn = []") (simp_all add: verify_names_None verify_blocks_None wf_function_def hd_conv_nth)
  finally show ?thesis .
qed

lemma block_map_Some:
  "distinct (map b_Name bs) \<Longrightarrow> block_map bs n = Some b \<longleftrightarrow> b \<in> set bs \<and> b_Name b = n"
proof -
  assume d: "distinct (map b_Name bs)"
  have "distinct (map fst (rev (map (\<lambda>b. (b_Name b, b)) bs)))"
    using d by (simp add: comp_def rev_map [symmetric])
  from map_of_eq_Some_iff [OF this] show ?thesis by (auto simp: block_map_def)
qed

end
