(* ===== verification/Ssa_Passes.thy ===== *)
theory Ssa_Passes
  imports Ssa_Ir "HOL-Library.Signed_Division"
begin

text \<open>
  The optimisation passes over SSA functions: constant folding (pkg/ir/ssa/passes_fold.go), dead
  code elimination (passes_dce.go), branch simplification (passes_simplify_cfg.go), the module API of
  opt.go, and the sequence of passes the C backend runs (pkg/codegen/emit_ir.go,
  \<open>emitFunctionViaIR\<close>).

  A pass that mutates its function in place returns the new function and the flag \<open>changed\<close>.
  Arithmetic on \<open>float64\<close> is IEEE-754 arithmetic on bit patterns and is left to a record of
  operations, the same for the Go compiler and the C program it emits.
\<close>

record float_ops =
  f_add :: "f64 \<Rightarrow> f64 \<Rightarrow> f64"
  f_sub :: "f64 \<Rightarrow> f64 \<Rightarrow> f64"
  f_mul :: "f64 \<Rightarrow> f64 \<Rightarrow> f64"
  f_div :: "f64 \<Rightarrow> f64 \<Rightarrow> f64"
  f_mod :: "f64 \<Rightarrow> f64 \<Rightarrow> f64"
  f_neg :: "f64 \<Rightarrow> f64"
  f_eq :: "f64 \<Rightarrow> f64 \<Rightarrow> bool"
  f_lt :: "f64 \<Rightarrow> f64 \<Rightarrow> bool"
  f_le :: "f64 \<Rightarrow> f64 \<Rightarrow> bool"
  f_of_int :: "i64 \<Rightarrow> f64"
  f_print :: "f64 \<Rightarrow> string"

text \<open>The bit pattern of the constant \<open>1.0\<close>.\<close>

definition f_one :: f64 where "f_one = 0x3FF0000000000000"

section \<open>Constant folding\<close>

definition sdiv64 :: "i64 \<Rightarrow> i64 \<Rightarrow> i64" where
  "sdiv64 x y = word_of_int (sint x sdiv sint y)"

definition smod64 :: "i64 \<Rightarrow> i64 \<Rightarrow> i64" where
  "smod64 x y = word_of_int (sint x smod sint y)"

definition evalIntBinOp :: "string \<Rightarrow> i64 \<Rightarrow> i64 \<Rightarrow> Operand option" where
  "evalIntBinOp op x y =
     (if op = ''+'' then Some (ConstInt (x + y))
      else if op = ''-'' then Some (ConstInt (x - y))
      else if op = ''*'' then Some (ConstInt (x * y))
      else if op = ''/'' then (if y \<noteq> 0 then Some (ConstInt (sdiv64 x y)) else None)
      else if op = ''%'' then (if y \<noteq> 0 then Some (ConstInt (smod64 x y)) else None)
      else if op = ''=='' then Some (ConstBool (x = y))
      else if op = ''!='' then Some (ConstBool (x \<noteq> y))
      else if op = ''<'' then Some (ConstBool (sint x < sint y))
      else if op = ''>'' then Some (ConstBool (sint x > sint y))
      else if op = ''<='' then Some (ConstBool (sint x \<le> sint y))
      else if op = ''>='' then Some (ConstBool (sint x \<ge> sint y))
      else None)"

definition evalFltBinOp :: "float_ops \<Rightarrow> string \<Rightarrow> f64 \<Rightarrow> f64 \<Rightarrow> Operand option" where
  "evalFltBinOp ff op x y =
     (if op = ''+'' then Some (ConstFlt (f_add ff x y))
      else if op = ''-'' then Some (ConstFlt (f_sub ff x y))
      else if op = ''*'' then Some (ConstFlt (f_mul ff x y))
      else if op = ''/'' then (if \<not> f_eq ff y 0 then Some (ConstFlt (f_div ff x y)) else None)
      else if op = ''=='' then Some (ConstBool (f_eq ff x y))
      else if op = ''!='' then Some (ConstBool (\<not> f_eq ff x y))
      else if op = ''<'' then Some (ConstBool (f_lt ff x y))
      else if op = ''>'' then Some (ConstBool (f_lt ff y x))
      else if op = ''<='' then Some (ConstBool (f_le ff x y))
      else if op = ''>='' then Some (ConstBool (f_le ff y x))
      else None)"

definition evalBoolBinOp :: "string \<Rightarrow> bool \<Rightarrow> bool \<Rightarrow> Operand option" where
  "evalBoolBinOp op x y =
     (if op = ''&&'' then Some (ConstBool (x \<and> y))
      else if op = ''||'' then Some (ConstBool (x \<or> y))
      else None)"

definition evalBinOp :: "float_ops \<Rightarrow> string \<Rightarrow> Operand \<Rightarrow> Operand \<Rightarrow> Operand option" where
  "evalBinOp ff op a b =
     (if op_CstKind a \<noteq> op_CstKind b then None
      else case op_CstKind a of
        I \<Rightarrow> evalIntBinOp op (op_IntVal a) (op_IntVal b)
      | F \<Rightarrow> evalFltBinOp ff op (op_FltVal a) (op_FltVal b)
      | Bool \<Rightarrow> evalBoolBinOp op (op_BoolVal a) (op_BoolVal b)
      | _ \<Rightarrow> None)"

definition evalUnOp :: "float_ops \<Rightarrow> string \<Rightarrow> Operand \<Rightarrow> Operand option" where
  "evalUnOp ff op a =
     (if op = ''-'' then
        (case op_CstKind a of
           I \<Rightarrow> Some (ConstInt (- op_IntVal a))
         | F \<Rightarrow> Some (ConstFlt (f_neg ff (op_FltVal a)))
         | _ \<Rightarrow> None)
      else if op = ''!'' then
        (if op_CstKind a = Bool then Some (ConstBool (\<not> op_BoolVal a)) else None)
      else None)"

text \<open>The two results of \<open>algebraicSimplify\<close>: the operation on its first argument alone, or a
  constant.\<close>

definition keep_left :: "Instr \<Rightarrow> Operand \<Rightarrow> Instr" where
  "keep_left i a =
     zeroInstr\<lparr>i_Op := i_Op i, i_Dest := i_Dest i, i_Ty := i_Ty i, i_Args := [a], i_OpStr := i_OpStr i\<rparr>"

definition const_instr :: "Instr \<Rightarrow> Type \<Rightarrow> Operand \<Rightarrow> Instr" where
  "const_instr i ty c = zeroInstr\<lparr>i_Op := OpConst, i_Dest := i_Dest i, i_Ty := ty, i_Args := [c]\<rparr>"

definition algebraicSimplify :: "float_ops \<Rightarrow> Instr \<Rightarrow> Instr option" where
  "algebraicSimplify ff i =
     (case i_Args i of
        [a, b] \<Rightarrow>
          if \<not> op_IsCst b then None
          else (case i_Ty i of
            I \<Rightarrow>
              if i_OpStr i = ''+'' then (if op_IntVal b = 0 then Some (keep_left i a) else None)
              else if i_OpStr i = ''*'' then
                (if op_IntVal b = 1 then Some (keep_left i a)
                 else if op_IntVal b = 0 then Some (const_instr i I (ConstInt 0)) else None)
              else if i_OpStr i = ''-'' then (if op_IntVal b = 0 then Some (keep_left i a) else None)
              else if i_OpStr i = ''/'' then (if op_IntVal b = 1 then Some (keep_left i a) else None)
              else None
          | F \<Rightarrow>
              if i_OpStr i = ''+'' then (if f_eq ff (op_FltVal b) 0 then Some (keep_left i a) else None)
              else if i_OpStr i = ''*'' then (if f_eq ff (op_FltVal b) f_one then Some (keep_left i a) else None)
              else if i_OpStr i = ''-'' then (if f_eq ff (op_FltVal b) 0 then Some (keep_left i a) else None)
              else None
          | Bool \<Rightarrow>
              if i_OpStr i = ''&&'' then
                (if op_BoolVal b then Some (keep_left i a) else Some (const_instr i Bool (ConstBool False)))
              else if i_OpStr i = ''||'' then
                (if \<not> op_BoolVal b then Some (keep_left i a) else Some (const_instr i Bool (ConstBool True)))
              else None
          | _ \<Rightarrow> None)
      | _ \<Rightarrow> None)"

definition foldInstr :: "float_ops \<Rightarrow> Instr \<Rightarrow> Instr \<times> bool" where
  "foldInstr ff i =
     (case i_Op i of
        OpBinOp \<Rightarrow>
          (case (case i_Args i of
                   [a, b] \<Rightarrow> if op_IsCst a \<and> op_IsCst b then evalBinOp ff (i_OpStr i) a b else None
                 | _ \<Rightarrow> None) of
             Some out \<Rightarrow> (const_instr i (op_CstKind out) out, True)
           | None \<Rightarrow>
               (case algebraicSimplify ff i of Some out \<Rightarrow> (out, True) | None \<Rightarrow> (i, False)))
      | OpUnOp \<Rightarrow>
          (case (case i_Args i of
                   [a] \<Rightarrow> if op_IsCst a then evalUnOp ff (i_OpStr i) a else None
                 | _ \<Rightarrow> None) of
             Some out \<Rightarrow> (const_instr i (op_CstKind out) out, True)
           | None \<Rightarrow> (i, False))
      | _ \<Rightarrow> (i, False))"

type_synonym const_regs = "string \<rightharpoonup> Operand"

definition resolve :: "const_regs \<Rightarrow> Operand \<Rightarrow> Operand" where
  "resolve cr a =
     (if \<not> op_IsCst a \<and> op_Reg a \<noteq> [] then (case cr (op_Reg a) of Some c \<Rightarrow> c | None \<Rightarrow> a) else a)"

definition resolveArgs :: "const_regs \<Rightarrow> Instr \<Rightarrow> Instr" where
  "resolveArgs cr i = i\<lparr>i_Args := map (resolve cr) (i_Args i)\<rparr>"

definition track_const :: "Instr \<Rightarrow> const_regs \<Rightarrow> const_regs" where
  "track_const i cr =
     (if i_Op i = OpConst \<and> i_Dest i \<noteq> [] \<and> i_Args i \<noteq> [] \<and> op_IsCst (hd (i_Args i))
      then cr(i_Dest i \<mapsto> hd (i_Args i)) else cr)"

fun fold_instrs :: "float_ops \<Rightarrow> const_regs \<Rightarrow> Instr list \<Rightarrow> Instr list \<times> const_regs \<times> bool" where
  "fold_instrs ff cr [] = ([], cr, False)"
| "fold_instrs ff cr (i # is) =
     (let (i', c) = foldInstr ff (resolveArgs cr i);
          (is', cr', cs) = fold_instrs ff (track_const i' cr) is
      in (i' # is', cr', c \<or> cs))"

fun fold_blocks :: "float_ops \<Rightarrow> const_regs \<Rightarrow> Block list \<Rightarrow> Block list \<times> const_regs \<times> bool" where
  "fold_blocks ff cr [] = ([], cr, False)"
| "fold_blocks ff cr (b # bs) =
     (let (is', cr', c) = fold_instrs ff cr (b_Instrs b);
          (bs', cr'', cs) = fold_blocks ff cr' bs
      in (b\<lparr>b_Instrs := is'\<rparr> # bs', cr'', c \<or> cs))"

definition FoldConstPass_Run :: "float_ops \<Rightarrow> SsaFunction \<Rightarrow> SsaFunction \<times> bool" where
  "FoldConstPass_Run ff fn =
     (let (bs, _, changed) = fold_blocks ff Map.empty (f_Blocks fn) in (fn\<lparr>f_Blocks := bs\<rparr>, changed))"

section \<open>Dead code elimination\<close>

definition operand_uses :: "Operand list \<Rightarrow> string list" where
  "operand_uses args = map op_Reg (filter (\<lambda>a. \<not> op_IsCst a \<and> op_Reg a \<noteq> []) args)"

definition instr_uses :: "Instr \<Rightarrow> string list" where
  "instr_uses i = operand_uses (i_Args i) @ concat (map operand_uses (i_BranchArgs i))"

definition collectAllUses :: "SsaFunction \<Rightarrow> string list" where
  "collectAllUses fn = concat (map (\<lambda>b. concat (map instr_uses (b_Instrs b))) (f_Blocks fn))"

definition isAlive :: "Instr \<Rightarrow> string list \<Rightarrow> bool" where
  "isAlive i used \<longleftrightarrow>
     (if isTerminator i then True
      else if i_Dest i = [] then True
      else if i_Dest i \<in> set used then True
      else case i_Op i of
        OpCall \<Rightarrow> True | OpCallVoid \<Rightarrow> True | OpIndexSet \<Rightarrow> True | OpPrint \<Rightarrow> True | OpRawC \<Rightarrow> True
      | _ \<Rightarrow> False)"

text \<open>One round of the loop: every block keeps its live instructions.\<close>

definition sweep_block :: "string list \<Rightarrow> Block \<Rightarrow> Block" where
  "sweep_block used b = b\<lparr>b_Instrs := filter (\<lambda>i. isAlive i used) (b_Instrs b)\<rparr>"

definition dce_round :: "SsaFunction \<Rightarrow> SsaFunction" where
  "dce_round fn = fn\<lparr>f_Blocks := map (sweep_block (collectAllUses fn)) (f_Blocks fn)\<rparr>"

definition dce_removes :: "SsaFunction \<Rightarrow> bool" where
  "dce_removes fn \<longleftrightarrow>
     list_ex (\<lambda>b. list_ex (\<lambda>i. \<not> isAlive i (collectAllUses fn)) (b_Instrs b)) (f_Blocks fn)"

definition instr_count :: "SsaFunction \<Rightarrow> nat" where
  "instr_count fn = length (all_instrs (f_Blocks fn))"

lemma dce_round_shrinks: "dce_removes fn \<Longrightarrow> instr_count (dce_round fn) < instr_count fn"
proof -
  assume "dce_removes fn"
  then obtain b i where b: "b \<in> set (f_Blocks fn)" and i: "i \<in> set (b_Instrs b)" "\<not> isAlive i (collectAllUses fn)"
    by (auto simp: dce_removes_def list_ex_iff)
  define u where "u = collectAllUses fn"
  have all: "all_instrs (map (sweep_block u) bs) = filter (\<lambda>i. isAlive i u) (all_instrs bs)" for bs
    by (induction bs) (simp_all add: all_instrs_def sweep_block_def)
  from b i have "i \<in> set (all_instrs (f_Blocks fn))" by (auto simp: all_instrs_def)
  from length_filter_less [of i "all_instrs (f_Blocks fn)" "\<lambda>i. isAlive i (collectAllUses fn)", OF this i(2)]
  have "length (filter (\<lambda>i. isAlive i u) (all_instrs (f_Blocks fn))) < length (all_instrs (f_Blocks fn))"
    unfolding u_def .
  then show ?thesis by (simp add: instr_count_def dce_round_def all u_def [symmetric])
qed

function DCESimplePass_Run :: "SsaFunction \<Rightarrow> SsaFunction \<times> bool" where
  "DCESimplePass_Run fn =
     (if dce_removes fn then (fst (DCESimplePass_Run (dce_round fn)), True) else (dce_round fn, False))"
  by auto

termination by (relation "measure instr_count") (auto simp: dce_round_shrinks)

declare DCESimplePass_Run.simps [simp del]

section \<open>Branch simplification\<close>

text \<open>\<open>FltVal != 0\<close> on the bit pattern: neither zero is nonzero.\<close>

definition truthyConst :: "float_ops \<Rightarrow> Operand \<Rightarrow> bool" where
  "truthyConst ff c =
     (case op_CstKind c of
        Bool \<Rightarrow> op_BoolVal c
      | I \<Rightarrow> op_IntVal c \<noteq> 0
      | F \<Rightarrow> \<not> f_eq ff (op_FltVal c) 0
      | Str \<Rightarrow> op_StrVal c \<noteq> []
      | _ \<Rightarrow> True)"

definition brTargets :: "Instr \<Rightarrow> string list" where
  "brTargets i =
     (case i_Op i of
        OpBr \<Rightarrow> [i_ThenTarget i, i_ElseTarget i]
      | OpJmp \<Rightarrow> [i_JmpTarget i]
      | _ \<Rightarrow> [])"

definition const_branch :: "Instr \<Rightarrow> bool" where
  "const_branch i \<longleftrightarrow> i_Op i = OpBr \<and> length (i_Args i) = 1 \<and> op_IsCst (hd (i_Args i))"

definition taken_jump :: "float_ops \<Rightarrow> Instr \<Rightarrow> Instr" where
  "taken_jump ff i =
     (let (target, args) =
        (if truthyConst ff (hd (i_Args i))
         then (i_ThenTarget i, if length (i_BranchArgs i) > 0 then i_BranchArgs i ! 0 else [])
         else (i_ElseTarget i, if length (i_BranchArgs i) > 1 then i_BranchArgs i ! 1 else []))
      in zeroInstr\<lparr>i_Op := OpJmp, i_JmpTarget := target, i_BranchArgs := [args]\<rparr>)"

definition fold_branch :: "float_ops \<Rightarrow> Block \<Rightarrow> Block \<times> bool" where
  "fold_branch ff b =
     (if length (b_Instrs b) = 0 then (b, False)
      else let l = last (b_Instrs b) in
        if const_branch l
        then (b\<lparr>b_Instrs := butlast (b_Instrs b) @ [taken_jump ff l]\<rparr>, True)
        else (b, False))"

text \<open>The inner loop of the search: a target that names a block and was not seen is marked and queued.\<close>

fun visit :: "Block list \<Rightarrow> string list \<Rightarrow> string list \<times> string list \<Rightarrow> string list \<times> string list" where
  "visit bs [] (seen, queue) = (seen, queue)"
| "visit bs (t # ts) (seen, queue) =
     (if t \<notin> set seen \<and> block_map bs t \<noteq> None
      then visit bs ts (t # seen, queue @ [t])
      else visit bs ts (seen, queue))"

definition last_targets :: "Block list \<Rightarrow> string \<Rightarrow> string list" where
  "last_targets bs cur =
     (case block_map bs cur of
        None \<Rightarrow> []
      | Some b \<Rightarrow> if length (b_Instrs b) = 0 then [] else brTargets (last (b_Instrs b)))"

definition unseen :: "Block list \<Rightarrow> string list \<Rightarrow> nat" where
  "unseen bs seen = card (set (map b_Name bs) - set seen)"

lemma block_map_dom: "block_map bs t \<noteq> None \<longleftrightarrow> t \<in> set (map b_Name bs)"
proof -
  have "dom (block_map bs) = set (map b_Name bs)"
    unfolding block_map_def dom_map_of_conv_image_fst by force
  then show ?thesis by (auto simp: domIff)
qed

lemma visit_measure: "visit bs ts (seen, queue) = (seen', queue') \<Longrightarrow>
  unseen bs seen' + length queue' = unseen bs seen + length queue"
proof (induction bs ts "(seen, queue)" arbitrary: seen queue rule: visit.induct)
  case (2 bs t ts seen queue)
  show ?case
  proof (cases "t \<notin> set seen \<and> block_map bs t \<noteq> None")
    case True
    then have t: "t \<in> set (map b_Name bs) - set seen" using block_map_dom by blast
    have "set (map b_Name bs) - set (t # seen) = (set (map b_Name bs) - set seen) - {t}" by auto
    then have "unseen bs (t # seen) = unseen bs seen - 1"
      using t by (simp only: unseen_def) (simp add: card_Diff_singleton_if)
    moreover have "0 < unseen bs seen" using t by (auto simp: unseen_def card_gt_0_iff)
    ultimately show ?thesis using 2(1) [OF True] 2(3) True by simp
  next
    case False
    then show ?thesis using 2(2) [OF False] 2(3) by (simp only: visit.simps if_False)
  qed
qed simp

function search :: "Block list \<Rightarrow> string list \<Rightarrow> string list \<Rightarrow> string list" where
  "search bs seen [] = seen"
| "search bs seen (cur # queue) =
     (let (seen', queue') = visit bs (last_targets bs cur) (seen, queue) in search bs seen' queue')"
  by pat_completeness auto

termination
proof (relation "measure (\<lambda>(bs, seen, queue). unseen bs seen + length queue)")
  fix bs seen cur queue x xa y
  assume "x = visit bs (last_targets bs cur) (seen, queue)" "(xa, y) = x"
  then have "visit bs (last_targets bs cur) (seen, queue) = (xa, y)" by simp
  from visit_measure [OF this]
  show "((bs, xa, y), bs, seen, cur # queue) \<in> measure (\<lambda>(bs, seen, queue). unseen bs seen + length queue)"
    by simp
qed simp

definition reachable_blocks :: "Block list \<Rightarrow> string list" where
  "reachable_blocks bs = (if length bs > 0 then search bs [b_Name (bs ! 0)] [b_Name (bs ! 0)] else [])"

definition SimplifyCFGPass_Run :: "float_ops \<Rightarrow> SsaFunction \<Rightarrow> SsaFunction \<times> bool" where
  "SimplifyCFGPass_Run ff fn =
     (let rs = map (fold_branch ff) (f_Blocks fn);
          bs = map fst rs;
          reachable = reachable_blocks bs
      in (fn\<lparr>f_Blocks := filter (\<lambda>b. b_Name b \<in> set reachable) bs\<rparr>,
          list_ex snd rs \<or> list_ex (\<lambda>b. b_Name b \<notin> set reachable) bs))"

section \<open>Passes over a module, and the sequence the C backend runs\<close>

definition FoldConstants :: "float_ops \<Rightarrow> SsaModule \<Rightarrow> SsaModule" where
  "FoldConstants ff m = map (\<lambda>fn. fst (FoldConstPass_Run ff fn)) m"

definition EliminateDeadCode :: "SsaModule \<Rightarrow> SsaModule" where
  "EliminateDeadCode m = map (\<lambda>fn. fst (DCESimplePass_Run fn)) m"

text \<open>What \<open>emitFunctionViaIR\<close> does with the lowered function between lowering and emission;
  \<open>None\<close>: verification failed and the caller falls back to the older emitter.\<close>

definition optimize :: "float_ops \<Rightarrow> SsaFunction \<Rightarrow> SsaFunction" where
  "optimize ff sfn =
     fst (DCESimplePass_Run (fst (SimplifyCFGPass_Run ff (fst (FoldConstPass_Run ff sfn)))))"

definition optimize_and_verify :: "float_ops \<Rightarrow> SsaFunction \<Rightarrow> SsaFunction option" where
  "optimize_and_verify ff sfn =
     (let sfn' = optimize ff sfn in if Verify [sfn'] \<noteq> None then None else Some sfn')"

end
