(* ===== verification/Ssa_Wf.thy ===== *)
theory Ssa_Wf
  imports Ssa_Passes "HOL-Library.Sublist"
begin

text \<open>
  The passes keep a function well formed: what \<open>verifyFunction\<close> accepted before constant folding,
  branch simplification and dead code elimination it accepts after them.  The contract of a pass is
  the locale \<open>verified_pass\<close>, interpreted for each pass; its lemma on modules gives the module API.
\<close>

section \<open>Changing the instructions of the blocks\<close>

text \<open>The verifier reads of the other blocks only their names and parameters.\<close>

lemma verify_br_cong:
  assumes t: "map_option b_Params (m (i_ThenTarget i)) = map_option b_Params (m' (i_ThenTarget i))"
    and e: "map_option b_Params (m (i_ElseTarget i)) = map_option b_Params (m' (i_ElseTarget i))"
  shows "verify_br m bn i = verify_br m' bn i"
proof (cases "m (i_ThenTarget i)")
  case None
  with t show ?thesis by (simp add: verify_br_def)
next
  case (Some b)
  with t obtain b' where b': "m' (i_ThenTarget i) = Some b'" "b_Params b' = b_Params b"
    by (cases "m' (i_ThenTarget i)") auto
  show ?thesis
  proof (cases "m (i_ElseTarget i)")
    case None
    with e have "m' (i_ElseTarget i) = None" by simp
    with None Some b' show ?thesis by (simp add: verify_br_def)
  next
    case (Some c)
    with e obtain c' where "m' (i_ElseTarget i) = Some c'" "b_Params c' = b_Params c"
      by (cases "m' (i_ElseTarget i)") auto
    with Some \<open>m (i_ThenTarget i) = Some b\<close> b' show ?thesis by (simp only: verify_br_def option.case)
  qed
qed

lemma verify_jmp_cong:
  assumes "map_option b_Params (m (i_JmpTarget i)) = map_option b_Params (m' (i_JmpTarget i))"
  shows "verify_jmp m bn i = verify_jmp m' bn i"
  using assms by (cases "m (i_JmpTarget i)"; cases "m' (i_JmpTarget i)") (simp_all add: verify_jmp_def)

lemma verify_op_cong:
  assumes "\<And>n. map_option b_Params (m n) = map_option b_Params (m' n)"
  shows "verify_op m bn i = verify_op m' bn i"
  using verify_br_cong [of m i m' bn, OF assms assms] verify_jmp_cong [of m i m' bn, OF assms]
  by (simp only: verify_op_def)

text \<open>How a block may change: its name and parameters stay, its instructions stay acceptable and
  assign a subsequence of the registers.\<close>

definition block_kept :: "Block \<Rightarrow> Block \<Rightarrow> bool" where
  "block_kept b b' \<longleftrightarrow> b_Name b' = b_Name b \<and> b_Params b' = b_Params b
     \<and> (shape_ok (b_Instrs b) \<longrightarrow> shape_ok (b_Instrs b'))
     \<and> subseq (dests (b_Instrs b')) (dests (b_Instrs b))
     \<and> (\<forall>m bn. list_all (\<lambda>i. verify_op m bn i = None) (b_Instrs b) \<longrightarrow>
               list_all (\<lambda>i. verify_op m bn i = None) (b_Instrs b'))"

lemma dests_concat: "dests (concat iss) = concat (map dests iss)"
  by (induction iss) simp_all

lemma subseq_distinct: "subseq xs ys \<Longrightarrow> distinct ys \<Longrightarrow> distinct xs"
  by (induction rule: list_emb.induct) (auto dest: list_emb_set)

lemma all2_dests: "list_all2 block_kept bs bs' \<Longrightarrow> subseq (dests (all_instrs bs')) (dests (all_instrs bs))"
  by (induction rule: list_all2_induct) (auto simp: all_instrs_def block_kept_def intro: list_emb_append_mono)

lemma all2_names: "list_all2 block_kept bs bs' \<Longrightarrow> map b_Name bs' = map b_Name bs"
  by (induction rule: list_all2_induct) (auto simp: block_kept_def)

lemma all2_hd: "list_all2 block_kept bs bs' \<Longrightarrow> bs \<noteq> [] \<Longrightarrow> b_Name (hd bs') = b_Name (hd bs) \<and> bs' \<noteq> []"
  by (cases bs; cases bs') (auto simp: block_kept_def)

lemma block_map_snoc: "block_map (bs @ [b]) n = (if b_Name b = n then Some b else block_map bs n)"
  by (simp add: block_map_def)

lemma all2_block_map: "list_all2 block_kept bs bs' \<Longrightarrow>
  map_option b_Params (block_map bs' n) = map_option b_Params (block_map bs n)"
proof (induction bs arbitrary: bs' rule: rev_induct)
  case (snoc b bs)
  then obtain cs c where "bs' = cs @ [c]" "list_all2 block_kept bs cs" "block_kept b c"
    by (auto simp: list_all2_append1 list_all2_Cons1)
  moreover from this(3) have "b_Name c = b_Name b" "b_Params c = b_Params b" by (simp_all add: block_kept_def)
  ultimately show ?case using snoc.IH [of cs] by (simp add: block_map_snoc)
qed simp

lemma wf_block_kept:
  assumes wf: "wf_function fn" and kept: "list_all2 block_kept (f_Blocks fn) bs"
  shows "wf_function (fn\<lparr>f_Blocks := bs\<rparr>)"
proof -
  let ?old = "block_map (f_Blocks fn)" and ?new = "block_map bs"
  have op: "verify_op ?new bn i = verify_op ?old bn i" for bn i
    by (rule verify_op_cong) (rule all2_block_map [OF kept])
  have "list_all (\<lambda>b. shape_ok (b_Instrs b) \<and> list_all (\<lambda>i. verify_op ?new (b_Name b) i = None) (b_Instrs b)) bs"
    unfolding op
  proof (simp only: list_all_iff [of _ bs], rule)
    fix b' assume "b' \<in> set bs"
    with kept obtain b where "b \<in> set (f_Blocks fn)" "block_kept b b'"
      by (metis in_set_conv_nth list_all2_conv_all_nth)
    with wf show "shape_ok (b_Instrs b') \<and> list_all (\<lambda>i. verify_op ?old (b_Name b') i = None) (b_Instrs b')"
      by (auto simp: wf_function_def block_kept_def list_all_iff [of _ "f_Blocks fn"])
  qed
  moreover have "distinct (dests (all_instrs bs))"
    using wf subseq_distinct [OF all2_dests [OF kept]] by (auto simp: wf_function_def)
  ultimately show ?thesis
    using wf all2_hd [OF kept] all2_names [OF kept] by (auto simp: wf_function_def)
qed

section \<open>Constant folding keeps a function well formed\<close>

text \<open>The backend emits binary operations of type \<open>Value\<close> only (pkg/codegen/lower.go); on them the
  algebraic identities of the folder never apply.\<close>

definition value_typed :: "SsaFunction \<Rightarrow> bool" where
  "value_typed fn \<longleftrightarrow>
     list_all (\<lambda>b. list_all (\<lambda>i. i_Op i = OpBinOp \<longrightarrow> i_Ty i \<notin> {I, F, Bool}) (b_Instrs b)) (f_Blocks fn)"

lemma algebraicSimplify_None: "i_Ty i \<notin> {I, F, Bool} \<Longrightarrow> algebraicSimplify ff i = None"
  by (auto simp: algebraicSimplify_def split: list.split Type.split)

text \<open>What folding does to an instruction: nothing, or a constant for the same register.\<close>

lemma foldInstr_cases:
  assumes "i_Op i = OpBinOp \<longrightarrow> i_Ty i \<notin> {I, F, Bool}"
  obtains (same) "fst (foldInstr ff i) = i"
  | (bin) a b c where "i_Op i = OpBinOp" "i_Args i = [a, b]" "op_IsCst a" "op_IsCst b"
      "evalBinOp ff (i_OpStr i) a b = Some c" "fst (foldInstr ff i) = const_instr i (op_CstKind c) c"
  | (un) a c where "i_Op i = OpUnOp" "i_Args i = [a]" "op_IsCst a"
      "evalUnOp ff (i_OpStr i) a = Some c" "fst (foldInstr ff i) = const_instr i (op_CstKind c) c"
proof (cases "i_Op i")
  case OpBinOp
  with assms have alg: "algebraicSimplify ff i = None" by (simp add: algebraicSimplify_None)
  show thesis
  proof (cases "\<exists>a b c. i_Args i = [a, b] \<and> op_IsCst a \<and> op_IsCst b \<and> evalBinOp ff (i_OpStr i) a b = Some c")
    case True
    then obtain a b c where h: "i_Args i = [a, b]" "op_IsCst a" "op_IsCst b" "evalBinOp ff (i_OpStr i) a b = Some c"
      by blast
    from OpBinOp h have "fst (foldInstr ff i) = const_instr i (op_CstKind c) c" by (simp add: foldInstr_def)
    with OpBinOp h show thesis by (rule bin)
  next
    case False
    then have "(case i_Args i of [a, b] \<Rightarrow> if op_IsCst a \<and> op_IsCst b then evalBinOp ff (i_OpStr i) a b else None | _ \<Rightarrow> None) = None"
      by (auto split: list.split)
    with OpBinOp alg show thesis by (intro same) (simp add: foldInstr_def)
  qed
next
  case OpUnOp
  show thesis
  proof (cases "\<exists>a c. i_Args i = [a] \<and> op_IsCst a \<and> evalUnOp ff (i_OpStr i) a = Some c")
    case True
    then obtain a c where h: "i_Args i = [a]" "op_IsCst a" "evalUnOp ff (i_OpStr i) a = Some c" by blast
    from OpUnOp h have "fst (foldInstr ff i) = const_instr i (op_CstKind c) c" by (simp add: foldInstr_def)
    with OpUnOp h show thesis by (rule un)
  next
    case False
    then have "(case i_Args i of [a] \<Rightarrow> if op_IsCst a then evalUnOp ff (i_OpStr i) a else None | _ \<Rightarrow> None) = None"
      by (auto split: list.split)
    with OpUnOp show thesis by (intro same) (simp add: foldInstr_def)
  qed
qed (rule same, simp add: foldInstr_def)+

lemmas evalBinOp_defs = evalBinOp_def evalIntBinOp_def evalFltBinOp_def evalBoolBinOp_def

lemma evalBinOp_IsCst: "evalBinOp ff op a b = Some c \<Longrightarrow> op_IsCst c"
  by (auto simp: evalBinOp_defs const_defs split: if_splits Type.splits)

lemma evalUnOp_IsCst: "evalUnOp ff op a = Some c \<Longrightarrow> op_IsCst c"
  by (auto simp: evalUnOp_def const_defs split: if_splits Type.splits)

lemma const_instr_simps [simp]:
  "i_Op (const_instr i ty c) = OpConst" "i_Dest (const_instr i ty c) = i_Dest i"
  "i_Args (const_instr i ty c) = [c]" "i_BranchArgs (const_instr i ty c) = []"
  "\<not> isTerminator (const_instr i ty c)" "verify_op m bn (const_instr i ty c) = None"
  by (simp_all add: const_instr_def zeroInstr_def isTerminator_def verify_op_def)

lemma resolveArgs_simps [simp]:
  "i_Op (resolveArgs cr i) = i_Op i" "i_Dest (resolveArgs cr i) = i_Dest i" "i_Ty (resolveArgs cr i) = i_Ty i"
  "i_Args (resolveArgs cr i) = map (resolve cr) (i_Args i)" "i_OpStr (resolveArgs cr i) = i_OpStr i"
  "i_RawC (resolveArgs cr i) = i_RawC i" "i_Cell (resolveArgs cr i) = i_Cell i"
  "i_ThenTarget (resolveArgs cr i) = i_ThenTarget i" "i_ElseTarget (resolveArgs cr i) = i_ElseTarget i"
  "i_JmpTarget (resolveArgs cr i) = i_JmpTarget i" "i_BranchArgs (resolveArgs cr i) = i_BranchArgs i"
  by (simp_all add: resolveArgs_def)

lemma resolveArgs_verify [simp]:
  "isTerminator (resolveArgs cr i) = isTerminator i" "verify_op m bn (resolveArgs cr i) = verify_op m bn i"
  unfolding isTerminator_def verify_op_def verify_br_def verify_jmp_def resolveArgs_simps length_map by (rule refl)+

text \<open>One folded instruction, as far as the verifier can see.\<close>

lemma fold_one_kept:
  fixes i i' :: Instr and ff :: float_ops and cr :: const_regs
  assumes "i_Op i = OpBinOp \<longrightarrow> i_Ty i \<notin> {I, F, Bool}"
  defines "i' \<equiv> fst (foldInstr ff (resolveArgs cr i))"
  shows "i_Dest i' = i_Dest i" "isTerminator i' = isTerminator i" "verify_op m bn i = None \<Longrightarrow> verify_op m bn i' = None"
    "i_Op i' = OpBinOp \<longrightarrow> i_Ty i' \<notin> {I, F, Bool}"
proof -
  from assms(1) have a: "i_Op (resolveArgs cr i) = OpBinOp \<longrightarrow> i_Ty (resolveArgs cr i) \<notin> {I, F, Bool}" by simp
  have "i' = resolveArgs cr i \<or> (\<exists>ty c. i' = const_instr (resolveArgs cr i) ty c \<and> i_Op i \<in> {OpBinOp, OpUnOp})"
    by (rule foldInstr_cases [OF a, of ff]) (auto simp: i'_def)
  then show "i_Dest i' = i_Dest i" "isTerminator i' = isTerminator i" "verify_op m bn i = None \<Longrightarrow> verify_op m bn i' = None"
    "i_Op i' = OpBinOp \<longrightarrow> i_Ty i' \<notin> {I, F, Bool}"
    using a by (auto simp: isTerminator_def)
qed

lemma fold_instrs_kept:
  assumes "list_all (\<lambda>i. i_Op i = OpBinOp \<longrightarrow> i_Ty i \<notin> {I, F, Bool}) is" "fold_instrs ff cr is = (is', cr', c)"
  shows "dests is' = dests is \<and> shape_ok is' = shape_ok is \<and> length is' = length is
    \<and> (list_all (\<lambda>i. verify_op m bn i = None) is \<longrightarrow> list_all (\<lambda>i. verify_op m bn i = None) is')
    \<and> list_all (\<lambda>i. i_Op i = OpBinOp \<longrightarrow> i_Ty i \<notin> {I, F, Bool}) is'"
  using assms
proof (induction "is" arbitrary: cr is' cr' c)
  case (Cons i "is")
  from Cons.prems(2) obtain c1 js cs where
    s: "is' = fst (foldInstr ff (resolveArgs cr i)) # js"
    and r: "fold_instrs ff (track_const (fst (foldInstr ff (resolveArgs cr i))) cr) is = (js, cr', cs)"
    by (auto simp: Let_def split: prod.splits)
  note k = fold_one_kept [where i = i and ff = ff and cr = cr]
  have nil: "js = [] \<longleftrightarrow> is = []" using Cons.IH [OF _ r] Cons.prems(1) by (auto simp flip: length_0_conv)
  show ?case using Cons.IH [OF _ r] Cons.prems(1) k nil by (auto simp: s shape_ok_Cons)
qed simp

lemma fold_blocks_kept:
  assumes "list_all (\<lambda>b. list_all (\<lambda>i. i_Op i = OpBinOp \<longrightarrow> i_Ty i \<notin> {I, F, Bool}) (b_Instrs b)) bs"
    "fold_blocks ff cr bs = (bs', cr', c)"
  shows "list_all2 block_kept bs bs'
    \<and> list_all (\<lambda>b. list_all (\<lambda>i. i_Op i = OpBinOp \<longrightarrow> i_Ty i \<notin> {I, F, Bool}) (b_Instrs b)) bs'"
  using assms
proof (induction bs arbitrary: cr bs' cr' c)
  case (Cons b bs)
  from Cons.prems(2) obtain is' cr1 c1 bs1 cs where
    s: "bs' = b\<lparr>b_Instrs := is'\<rparr> # bs1" and i: "fold_instrs ff cr (b_Instrs b) = (is', cr1, c1)"
    and r: "fold_blocks ff cr1 bs = (bs1, cr', cs)"
    by (auto simp: Let_def split: prod.splits)
  from Cons.prems(1) have b: "list_all (\<lambda>i. i_Op i = OpBinOp \<longrightarrow> i_Ty i \<notin> {I, F, Bool}) (b_Instrs b)" by simp
  note k = fold_instrs_kept [OF b i]
  have "block_kept b (b\<lparr>b_Instrs := is'\<rparr>)"
    unfolding block_kept_def using k by simp
  then show ?case using Cons.IH [OF _ r] Cons.prems(1) k by (simp add: s)
qed simp

section \<open>Dead code elimination keeps a function well formed\<close>

lemma isAlive_terminator: "isTerminator i \<Longrightarrow> isAlive i used"
  by (simp add: isAlive_def)

lemma shape_ok_filter:
  assumes "shape_ok is" "\<And>i. isTerminator i \<Longrightarrow> P i"
  shows "shape_ok (filter P is)"
  using assms(1)
proof (induction "is")
  case (Cons i "is")
  have "filter P is = [] \<longleftrightarrow> is = []"
  proof (cases "is" rule: rev_cases)
    case (snoc ys y)
    with Cons.prems have "isTerminator y" by (auto simp: shape_ok_def)
    with snoc show ?thesis by (simp add: assms(2))
  qed simp
  with Cons show ?case by (auto simp: shape_ok_Cons assms(2))
qed simp

lemma dests_filter: "subseq (dests (filter P is)) (dests is)"
  by (induction "is") auto

lemma sweep_block_kept: "block_kept b (sweep_block used b)"
  by (auto simp: block_kept_def sweep_block_def shape_ok_filter isAlive_terminator dests_filter list_all_iff)

section \<open>Branch simplification keeps a function well formed\<close>

lemma taken_jump_simps [simp]: "isTerminator (taken_jump ff i)" "i_Dest (taken_jump ff i) = []" "i_Op (taken_jump ff i) = OpJmp"
  "i_Args (taken_jump ff i) = []"
  by (simp_all add: taken_jump_def isTerminator_def zeroInstr_def split: prod.split)

lemma taken_jump_verifies:
  assumes "verify_op m bn i = None" "i_Op i = OpBr"
  shows "verify_op m bn (taken_jump ff i) = None"
proof -
  from assms have br: "verify_br m bn i = None" by (simp add: verify_op_def)
  then obtain tb eb where t: "m (i_ThenTarget i) = Some tb" "m (i_ElseTarget i) = Some eb"
    by (auto simp: verify_br_def split: if_splits option.splits)
  define ba where "ba = (if length (i_BranchArgs i) = 0 then [[], []] else i_BranchArgs i)"
  from br t have len: "length (ba ! 0) = length (b_Params tb)" "\<not> length ba < 2" "length (ba ! 1) = length (b_Params eb)"
    by (auto simp: verify_br_def Let_def ba_def split: if_splits)
  show ?thesis
  proof (cases "i_BranchArgs i = []")
    case True
    with len have "b_Params tb = []" "b_Params eb = []" by (simp_all add: ba_def)
    with True t show ?thesis by (simp add: verify_op_def verify_jmp_def taken_jump_def zeroInstr_def)
  next
    case False
    with len have "length (i_BranchArgs i) > 1" "length (i_BranchArgs i ! 0) = length (b_Params tb)"
      "length (i_BranchArgs i ! 1) = length (b_Params eb)" by (simp_all add: ba_def)
    with t False show ?thesis by (simp add: verify_op_def verify_jmp_def taken_jump_def zeroInstr_def)
  qed
qed

lemma dests_snoc_drop: "subseq (dests (xs @ [taken_jump ff i])) (dests (xs @ [i]))"
  by (auto intro: subseq_rev_drop_many [of _ _ "[i_Dest i]"])

lemma fold_branch_kept: "block_kept b (fst (fold_branch ff b))"
proof (cases "b_Instrs b = [] \<or> \<not> const_branch (last (b_Instrs b))")
  case True
  then have "fst (fold_branch ff b) = b" by (auto simp: fold_branch_def Let_def)
  then show ?thesis by (simp add: block_kept_def)
next
  case False
  then obtain xs i where xs: "b_Instrs b = xs @ [i]" and c: "const_branch i"
    by (cases "b_Instrs b" rule: rev_cases) auto
  then have "fst (fold_branch ff b) = b\<lparr>b_Instrs := xs @ [taken_jump ff i]\<rparr>"
    by (simp add: fold_branch_def)
  moreover have "list_all (\<lambda>i. verify_op m bn i = None) (xs @ [taken_jump ff i])"
    if "list_all (\<lambda>i. verify_op m bn i = None) (xs @ [i])" for m bn
    using that c by (simp add: taken_jump_verifies const_branch_def)
  ultimately show ?thesis using xs
    by (simp add: block_kept_def dests_snoc_drop shape_ok_def del: dests_simps)
qed

text \<open>The search: it keeps what it has seen, stays within the blocks, and everything a seen block
  that is no longer queued branches to has been seen.\<close>

lemma visit_seen:
  "visit bs ts (seen, queue) = (seen', queue') \<Longrightarrow>
     set seen \<subseteq> set seen' \<and> set queue \<subseteq> set queue' \<and> set seen' - set seen \<subseteq> set queue'
     \<and> (\<forall>t \<in> set ts. t \<in> set (map b_Name bs) \<longrightarrow> t \<in> set seen') \<and> set seen' \<subseteq> set seen \<union> set ts"
proof (induction bs ts "(seen, queue)" arbitrary: seen queue rule: visit.induct)
  case (2 bs t ts seen queue)
  show ?case
  proof (cases "t \<notin> set seen \<and> block_map bs t \<noteq> None")
    case True
    with 2(3) have "visit bs ts (t # seen, queue @ [t]) = (seen', queue')" by simp
    from 2(1) [OF True this] show ?thesis by auto
  next
    case False
    with 2(3) have "visit bs ts (seen, queue) = (seen', queue')" by (simp only: visit.simps if_False)
    moreover from False have "t \<in> set (map b_Name bs) \<longrightarrow> t \<in> set seen" using block_map_dom [of bs t] by blast
    ultimately show ?thesis using 2(2) [OF False] by auto
  qed
qed auto

definition closed_except :: "Block list \<Rightarrow> string list \<Rightarrow> string list \<Rightarrow> bool" where
  "closed_except bs queue seen \<longleftrightarrow>
     (\<forall>n \<in> set seen. n \<notin> set queue \<longrightarrow>
        (\<forall>t \<in> set (last_targets bs n). t \<in> set (map b_Name bs) \<longrightarrow> t \<in> set seen))"

lemma search_closed:
  "closed_except bs queue seen \<Longrightarrow> closed_except bs [] (search bs seen queue) \<and> set seen \<subseteq> set (search bs seen queue)"
proof (induction bs seen queue rule: search.induct)
  case (2 bs seen cur queue)
  obtain seen' queue' where v: "visit bs (last_targets bs cur) (seen, queue) = (seen', queue')" by fastforce
  note s = visit_seen [OF v]
  have "closed_except bs queue' seen'"
    unfolding closed_except_def
  proof (intro ballI impI)
    fix n t assume n: "n \<in> set seen'" "n \<notin> set queue'" and t: "t \<in> set (last_targets bs n)" "t \<in> set (map b_Name bs)"
    show "t \<in> set seen'"
    proof (cases "n = cur")
      case True
      with s t show ?thesis by blast
    next
      case False
      with n s have "n \<in> set seen" "n \<notin> set (cur # queue)" by auto
      with 2(2) t s show ?thesis unfolding closed_except_def by blast
    qed
  qed
  from 2(1) [OF refl v [symmetric] this] s show ?case by (auto simp: v Let_def)
qed simp

lemma block_map_filter: "block_map (filter (\<lambda>b. P (b_Name b)) bs) n = (if P n then block_map bs n else None)"
  by (induction bs rule: rev_induct) (auto simp: block_map_snoc, simp_all add: block_map_def)

lemma verify_op_targets:
  assumes "\<And>t. t \<in> set (brTargets i) \<Longrightarrow> m' t = m t"
  shows "verify_op m' bn i = verify_op m bn i"
proof (cases "i_Op i")
  case OpBr
  then have "verify_br m' bn i = verify_br m bn i" by (intro verify_br_cong) (simp_all add: assms brTargets_def)
  with OpBr show ?thesis by (simp add: verify_op_def)
next
  case OpJmp
  then have "verify_jmp m' bn i = verify_jmp m bn i" by (intro verify_jmp_cong) (simp add: assms brTargets_def)
  with OpJmp show ?thesis by (simp add: verify_op_def)
qed (simp_all add: verify_op_def)

lemma verify_op_known: "verify_op m bn i = None \<Longrightarrow> t \<in> set (brTargets i) \<Longrightarrow> m t \<noteq> None"
  by (cases "i_Op i") (auto simp: verify_op_def verify_br_def verify_jmp_def brTargets_def split: if_splits option.splits)

lemma brTargets_terminator: "brTargets i \<noteq> [] \<Longrightarrow> isTerminator i"
  by (cases "i_Op i") (auto simp: brTargets_def isTerminator_def)

lemma shape_ok_terminator: "shape_ok is \<Longrightarrow> i \<in> set is \<Longrightarrow> isTerminator i \<Longrightarrow> i = last is"
  by (cases "is" rule: rev_cases) (auto simp: shape_ok_def list_all_iff)

lemma reachable_blocks_props:
  assumes "bs \<noteq> []"
  shows "b_Name (hd bs) \<in> set (reachable_blocks bs)" "closed_except bs [] (reachable_blocks bs)"
proof -
  have "closed_except bs [b_Name (bs ! 0)] [b_Name (bs ! 0)]" by (simp add: closed_except_def)
  from search_closed [OF this] assms
  show "b_Name (hd bs) \<in> set (reachable_blocks bs)" "closed_except bs [] (reachable_blocks bs)"
    by (simp_all add: reachable_blocks_def hd_conv_nth)
qed

lemma dests_all_filter: "subseq (dests (all_instrs (filter P bs))) (dests (all_instrs bs))"
  by (induction bs) (auto simp: all_instrs_def intro: subseq_drop_many list_emb_append_mono)

lemma reachable_target:
  assumes "distinct (map b_Name bs)" "b \<in> set bs" "shape_ok (b_Instrs b)" "b_Name b \<in> set (reachable_blocks bs)"
    and "i \<in> set (b_Instrs b)" "t \<in> set (brTargets i)" "t \<in> set (map b_Name bs)"
  shows "t \<in> set (reachable_blocks bs)"
proof -
  have "brTargets i \<noteq> []" using assms(6) by auto
  with assms(3,5) have "i = last (b_Instrs b)" by (auto dest: brTargets_terminator shape_ok_terminator)
  moreover have "block_map bs (b_Name b) = Some b" using assms(1,2) by (simp add: block_map_Some)
  ultimately have "t \<in> set (last_targets bs (b_Name b))" using assms(5,6) by (auto simp: last_targets_def)
  moreover have "closed_except bs [] (reachable_blocks bs)" using assms(2) by (intro reachable_blocks_props) auto
  ultimately show ?thesis using assms(4,7) by (auto simp: closed_except_def)
qed

lemma wf_sweep_unreachable:
  assumes wf: "wf_function fn"
  shows "wf_function (fn\<lparr>f_Blocks := filter (\<lambda>b. b_Name b \<in> set (reachable_blocks (f_Blocks fn))) (f_Blocks fn)\<rparr>)"
proof -
  define bs where "bs = f_Blocks fn"
  define P where "P n \<longleftrightarrow> n \<in> set (reachable_blocks bs)" for n
  define bs' where "bs' = filter (\<lambda>b. P (b_Name b)) bs"
  from wf have w: "bs \<noteq> []" "b_Name (hd bs) = f_Entry fn" "distinct (map b_Name bs)"
    "list_all (\<lambda>b. shape_ok (b_Instrs b) \<and> list_all (\<lambda>i. verify_op (block_map bs) (b_Name b) i = None) (b_Instrs b)) bs"
    "distinct (dests (all_instrs bs))" by (simp_all add: wf_function_def bs_def)
  have hd: "bs' \<noteq> [] \<and> b_Name (hd bs') = f_Entry fn"
    using w(1,2) reachable_blocks_props(1) [OF w(1)] by (cases bs) (simp_all add: bs'_def P_def)
  have "list_all (\<lambda>b. shape_ok (b_Instrs b) \<and> list_all (\<lambda>i. verify_op (block_map bs') (b_Name b) i = None) (b_Instrs b)) bs'"
    unfolding list_all_iff [of _ bs']
  proof
    fix b assume "b \<in> set bs'"
    then have b: "b \<in> set bs" "b_Name b \<in> set (reachable_blocks bs)" by (auto simp: bs'_def P_def)
    with w(4) have s: "shape_ok (b_Instrs b)" "\<forall>i \<in> set (b_Instrs b). verify_op (block_map bs) (b_Name b) i = None"
      by (auto simp: list_all_iff)
    have "verify_op (block_map bs') (b_Name b) i = None" if i: "i \<in> set (b_Instrs b)" for i
    proof -
      have "block_map bs' t = block_map bs t" if t: "t \<in> set (brTargets i)" for t
      proof -
        have "t \<in> set (map b_Name bs)" using verify_op_known [OF _ t] s(2) i block_map_dom by blast
        from reachable_target [OF w(3) b(1) s(1) b(2) i t this] show ?thesis
          unfolding bs'_def block_map_filter by (simp add: P_def)
      qed
      from verify_op_targets [OF this] s(2) i show ?thesis by simp
    qed
    with s(1) show "shape_ok (b_Instrs b) \<and> list_all (\<lambda>i. verify_op (block_map bs') (b_Name b) i = None) (b_Instrs b)"
      by (simp add: list_all_iff)
  qed
  moreover have "distinct (map b_Name bs')" using w(3) by (simp add: bs'_def distinct_map_filter)
  moreover have "distinct (dests (all_instrs bs'))"
    using subseq_distinct [OF dests_all_filter w(5)] by (simp add: bs'_def)
  ultimately have "wf_function (fn\<lparr>f_Blocks := bs'\<rparr>)" using hd by (simp add: wf_function_def)
  then show ?thesis by (simp add: bs'_def P_def bs_def)
qed

section \<open>The contract of a pass\<close>

text \<open>A pass that keeps the verifier satisfied on an admissible class of functions, and stays in
  the class; over a module it keeps the verifier of modules satisfied.\<close>

locale verified_pass =
  fixes adm :: "SsaFunction \<Rightarrow> bool" and run :: "SsaFunction \<Rightarrow> SsaFunction"
  assumes keeps_wf: "adm fn \<Longrightarrow> wf_function fn \<Longrightarrow> wf_function (run fn)"
    and keeps_adm: "adm fn \<Longrightarrow> adm (run fn)"
begin

lemma keeps_verified: "adm fn \<Longrightarrow> verifyFunction fn = None \<Longrightarrow> verifyFunction (run fn) = None"
  by (simp add: verifyFunction_wf keeps_wf)

lemma keeps_module: "list_all adm m \<Longrightarrow> Verify m = None \<Longrightarrow> Verify (map run m) = None \<and> list_all adm (map run m)"
  by (induction m) (auto simp: keeps_verified keeps_adm split: option.splits)

end

lemma value_typed_kept:
  assumes "value_typed fn"
    "\<And>b' i'. b' \<in> set bs \<Longrightarrow> i' \<in> set (b_Instrs b') \<Longrightarrow> i_Op i' = OpBinOp \<Longrightarrow>
      \<exists>b \<in> set (f_Blocks fn). i' \<in> set (b_Instrs b)"
  shows "value_typed (fn\<lparr>f_Blocks := bs\<rparr>)"
  using assms unfolding value_typed_def by (fastforce simp: list_all_iff)

interpretation fold_pass: verified_pass value_typed "\<lambda>fn. fst (FoldConstPass_Run ff fn)" for ff
proof
  fix fn assume v: "value_typed fn"
  obtain bs cr c where f: "fold_blocks ff Map.empty (f_Blocks fn) = (bs, cr, c)" by (metis prod_cases3)
  then have run: "fst (FoldConstPass_Run ff fn) = fn\<lparr>f_Blocks := bs\<rparr>" by (simp add: FoldConstPass_Run_def)
  note k = fold_blocks_kept [OF v [unfolded value_typed_def] f]
  show "value_typed (fst (FoldConstPass_Run ff fn))" using k by (simp add: run value_typed_def)
  show "wf_function (fst (FoldConstPass_Run ff fn))" if "wf_function fn"
    using wf_block_kept [OF that] k by (simp add: run)
qed

lemma dce_round_wf: "wf_function fn \<Longrightarrow> wf_function (dce_round fn)"
  unfolding dce_round_def by (rule wf_block_kept) (auto simp: list_all2_map2 sweep_block_kept intro: list_all2_refl)

lemma dce_round_typed: "value_typed fn \<Longrightarrow> value_typed (dce_round fn)"
  unfolding dce_round_def by (rule value_typed_kept) (auto simp: sweep_block_def)

interpretation dce_pass: verified_pass value_typed "\<lambda>fn. fst (DCESimplePass_Run fn)"
proof
  show "wf_function (fst (DCESimplePass_Run fn))" if "wf_function fn" for fn
    using that
  proof (induction fn rule: DCESimplePass_Run.induct)
    case (1 fn)
    then show ?case by (subst DCESimplePass_Run.simps) (auto simp: dce_round_wf)
  qed
  show "value_typed (fst (DCESimplePass_Run fn))" if "value_typed fn" for fn
    using that
  proof (induction fn rule: DCESimplePass_Run.induct)
    case (1 fn)
    then show ?case by (subst DCESimplePass_Run.simps) (auto simp: dce_round_typed)
  qed
qed

lemma SimplifyCFG_run: "fst (SimplifyCFGPass_Run ff fn) =
  (let fn' = fn\<lparr>f_Blocks := map (fst \<circ> fold_branch ff) (f_Blocks fn)\<rparr>
   in fn'\<lparr>f_Blocks := filter (\<lambda>b. b_Name b \<in> set (reachable_blocks (f_Blocks fn'))) (f_Blocks fn')\<rparr>)"
  by (simp add: SimplifyCFGPass_Run_def Let_def)

lemma fold_branch_instrs: "i \<in> set (b_Instrs (fst (fold_branch ff b))) \<Longrightarrow> i_Op i = OpBinOp \<Longrightarrow> i \<in> set (b_Instrs b)"
  by (auto simp: fold_branch_def Let_def dest: in_set_butlastD split: if_splits)

interpretation simplify_pass: verified_pass value_typed "\<lambda>fn. fst (SimplifyCFGPass_Run ff fn)" for ff
proof
  fix fn assume v: "value_typed fn"
  define fn' where "fn' = fn\<lparr>f_Blocks := map (fst \<circ> fold_branch ff) (f_Blocks fn)\<rparr>"
  show "wf_function (fst (SimplifyCFGPass_Run ff fn))" if "wf_function fn"
  proof -
    have "wf_function fn'" unfolding fn'_def
      by (rule wf_block_kept [OF that]) (auto simp: list_all2_map2 fold_branch_kept intro: list_all2_refl)
    from wf_sweep_unreachable [OF this] show ?thesis unfolding SimplifyCFG_run by (simp add: fn'_def)
  qed
  show "value_typed (fst (SimplifyCFGPass_Run ff fn))"
    unfolding SimplifyCFG_run Let_def using v
    by (force intro!: value_typed_kept dest: fold_branch_instrs)
qed

text \<open>C2. Optimisation keeps the verifier satisfied: a function of the backend (all its binary
  operations of type \<open>Value\<close>) that \<open>verifyFunction\<close> accepts is accepted again after constant
  folding, branch simplification and dead code elimination, so \<open>emitFunctionViaIR\<close> never falls
  back to the older emitter because of its own passes.\<close>

theorem optimize_verified:
  assumes "verifyFunction fn = None" and "value_typed fn"
  shows "optimize_and_verify ff fn = Some (optimize ff fn)"
proof -
  note 1 = fold_pass.keeps_verified [OF assms(2,1)] fold_pass.keeps_adm [OF assms(2)]
  note 2 = simplify_pass.keeps_verified [OF 1(2) 1(1)] simplify_pass.keeps_adm [OF 1(2)]
  have "verifyFunction (optimize ff fn) = None"
    unfolding optimize_def using dce_pass.keeps_verified 2 by blast
  then show ?thesis by (simp add: optimize_and_verify_def)
qed

text \<open>A function that folds, has a constant branch, a dead block and dead registers.\<close>

definition sample_br :: Instr where
  "sample_br = zeroInstr\<lparr>i_Op := OpBr, i_Args := [Reg ''b_2''], i_ThenTarget := ''then1'', i_ElseTarget := ''join2''\<rparr>"

definition sample_const :: "string \<Rightarrow> Operand \<Rightarrow> Instr" where
  "sample_const d c = zeroInstr\<lparr>i_Op := OpConst, i_Dest := d, i_Ty := op_CstKind c, i_Args := [c]\<rparr>"

definition sample_bin :: "string \<Rightarrow> string \<Rightarrow> string \<Rightarrow> string \<Rightarrow> Instr" where
  "sample_bin d op a b =
     zeroInstr\<lparr>i_Op := OpBinOp, i_Dest := d, i_Ty := Value, i_Args := [Reg a, Reg b], i_OpStr := op\<rparr>"

definition sample_ret :: "string \<Rightarrow> Instr" where
  "sample_ret r = zeroInstr\<lparr>i_Op := OpRet, i_Args := [Reg r]\<rparr>"

definition sample_fn :: SsaFunction where
  "sample_fn = (NewFunction ''f'')\<lparr>f_Blocks :=
     [\<lparr>b_Name = ''entry'', b_Params = [],
        b_Instrs = [sample_const ''a_0'' (ConstInt 1), sample_const ''a_1'' (ConstInt 2),
                    sample_bin ''b_2'' ''=='' ''a_0'' ''a_1'', sample_br]\<rparr>,
      \<lparr>b_Name = ''then1'', b_Params = [],
        b_Instrs = [sample_const ''r_3'' (ConstInt 99), sample_ret ''r_3'']\<rparr>,
      \<lparr>b_Name = ''join2'', b_Params = [],
        b_Instrs = [sample_const ''x_4'' (ConstInt 3), sample_const ''y_5'' (ConstInt 4),
                    sample_bin ''r_6'' ''+'' ''x_4'' ''y_5'', sample_ret ''r_6'']\<rparr>]\<rparr>"

definition sample_floats :: float_ops where
  "sample_floats = \<lparr>f_add = (+), f_sub = (-), f_mul = (*), f_div = (\<lambda>x y. x), f_mod = (\<lambda>x y. x), f_neg = uminus,
     f_eq = (=), f_lt = (<), f_le = (\<le>), f_of_int = id, f_print = (\<lambda>x. [])\<rparr>"

lemmas sample_defs = sample_br_def sample_const_def sample_bin_def sample_ret_def sample_fn_def

theorem optimize_verified_witness:
  "optimize_and_verify sample_floats sample_fn = Some (optimize sample_floats sample_fn)"
proof (rule optimize_verified)
  show "verifyFunction sample_fn = None" by code_simp
  show "value_typed sample_fn" by code_simp
qed

section \<open>What remains after the passes\<close>

text \<open>The edges of the control flow graph, between blocks of the function.\<close>

definition cfg_edges :: "Block list \<Rightarrow> (string \<times> string) set" where
  "cfg_edges bs = {(n, t). t \<in> set (last_targets bs n) \<and> t \<in> set (map b_Name bs)}"

lemma visit_sound: "visit bs ts (seen, queue) = (seen', queue') \<Longrightarrow>
  set seen' \<subseteq> set seen \<union> (set ts \<inter> set (map b_Name bs)) \<and> set queue' \<subseteq> set queue \<union> set seen'"
proof (induction bs ts "(seen, queue)" arbitrary: seen queue rule: visit.induct)
  case (2 bs t ts seen queue)
  show ?case
  proof (cases "t \<notin> set seen \<and> block_map bs t \<noteq> None")
    case True
    with 2(3) have "visit bs ts (t # seen, queue @ [t]) = (seen', queue')" by simp
    moreover from True have "t \<in> set (map b_Name bs)" using block_map_dom by blast
    ultimately show ?thesis using 2(1) [OF True] visit_seen [of bs ts "t # seen"] by auto
  next
    case False
    with 2(3) have "visit bs ts (seen, queue) = (seen', queue')" by (simp only: visit.simps if_False)
    from 2(2) [OF False this] show ?thesis by auto
  qed
qed auto

lemma search_sound:
  assumes "\<And>n. n \<in> set seen \<Longrightarrow> (e, n) \<in> (cfg_edges bs)\<^sup>*" "set queue \<subseteq> set seen"
  shows "n \<in> set (search bs seen queue) \<Longrightarrow> (e, n) \<in> (cfg_edges bs)\<^sup>*"
  using assms
proof (induction bs seen queue rule: search.induct)
  case (2 bs seen cur queue)
  obtain seen' queue' where v: "visit bs (last_targets bs cur) (seen, queue) = (seen', queue')" by fastforce
  note s = visit_sound [OF v] visit_seen [OF v]
  have cur: "(e, cur) \<in> (cfg_edges bs)\<^sup>*" using 2(3,4) by simp
  have "(e, n) \<in> (cfg_edges bs)\<^sup>*" if "n \<in> set seen'" for n
  proof (cases "n \<in> set seen")
    case False
    with that s have "(cur, n) \<in> cfg_edges bs" by (auto simp: cfg_edges_def)
    with cur show ?thesis by (rule rtrancl_into_rtrancl)
  qed (rule 2(3))
  moreover have "set queue' \<subseteq> set seen'" using s 2(4) by auto
  moreover have "n \<in> set (search bs seen' queue')" using 2(2) by (simp add: v)
  ultimately show ?case by (intro 2(1) [OF refl v [symmetric]])
qed simp

text \<open>Branch simplification keeps exactly the blocks that control can reach: the search of
  \<open>SimplifyCFGPass.Run\<close> returns the names connected to the entry block by branches, so no reachable
  block is deleted (loops included) and no unreachable block is kept.\<close>

theorem reachable_blocks_exact:
  assumes "bs \<noteq> []"
  shows "set (reachable_blocks bs) = {n. (b_Name (hd bs), n) \<in> (cfg_edges bs)\<^sup>*}"
proof (intro equalityI subsetI CollectI)
  fix n assume "n \<in> set (reachable_blocks bs)"
  with assms have "n \<in> set (search bs [b_Name (hd bs)] [b_Name (hd bs)])"
    by (simp add: reachable_blocks_def hd_conv_nth)
  then show "(b_Name (hd bs), n) \<in> (cfg_edges bs)\<^sup>*" by (rule search_sound [rotated 2]) auto
next
  fix n assume "n \<in> {n. (b_Name (hd bs), n) \<in> (cfg_edges bs)\<^sup>*}"
  then have "(b_Name (hd bs), n) \<in> (cfg_edges bs)\<^sup>*" by simp
  then show "n \<in> set (reachable_blocks bs)"
  proof induction
    case base
    show ?case by (rule reachable_blocks_props(1) [OF assms])
  next
    case (step m n)
    then show ?case using reachable_blocks_props(2) [OF assms]
      by (auto simp: cfg_edges_def closed_except_def)
  qed
qed

theorem reachable_blocks_exact_witness:
  "f_Blocks sample_fn \<noteq> [] \<and> set (reachable_blocks (f_Blocks sample_fn)) =
     {n. (''entry'', n) \<in> (cfg_edges (f_Blocks sample_fn))\<^sup>*}"
  using reachable_blocks_exact [of "f_Blocks sample_fn"] by (simp add: sample_fn_def)

text \<open>C28. Dead code elimination runs to its fixpoint: afterwards every instruction that is left is
  a terminator, has no result, has a side effect, or has a result that a remaining instruction
  uses; a second run changes nothing, and the flag says whether the first one did.\<close>

theorem DCE_fixpoint:
  "\<not> dce_removes (fst (DCESimplePass_Run fn)) \<and>
   DCESimplePass_Run (fst (DCESimplePass_Run fn)) = (fst (DCESimplePass_Run fn), False) \<and>
   (snd (DCESimplePass_Run fn) \<longleftrightarrow> dce_removes fn)"
proof -
  have same: "dce_round fn = fn" if "\<not> dce_removes fn" for fn
  proof -
    have "sweep_block (collectAllUses fn) b = b" if "b \<in> set (f_Blocks fn)" for b
      using \<open>\<not> dce_removes fn\<close> that by (simp add: dce_removes_def list_ex_iff sweep_block_def)
    then have "map (sweep_block (collectAllUses fn)) (f_Blocks fn) = f_Blocks fn" by (simp add: map_idI)
    then show ?thesis by (simp add: dce_round_def)
  qed
  have 1: "\<not> dce_removes (fst (DCESimplePass_Run fn))"
  proof (induction fn rule: DCESimplePass_Run.induct)
    case (1 fn)
    then show ?case by (subst DCESimplePass_Run.simps) (auto simp: same)
  qed
  have 2: "DCESimplePass_Run gn = (gn, False)" if "\<not> dce_removes gn" for gn
    using that same [OF that] by (simp add: DCESimplePass_Run.simps)
  have 3: "snd (DCESimplePass_Run fn) \<longleftrightarrow> dce_removes fn" by (simp add: DCESimplePass_Run.simps [of fn])
  from 1 2 [OF 1] 3 show ?thesis by blast
qed

end
