(* ===== verification/Runtime_Values.thy ===== *)
theory Runtime_Values
  imports Karkain_Prelude Go_Strings Ssa_Passes
begin

text \<open>
  The scalar part of the C runtime that the code generator emits in front of every program
  (the runtime text of pkg/codegen/codegen.go): the tagged \<open>Value\<close> struct, \<open>binary_op\<close>, the checked
  division and modulo, truth, equality, unary operators, printing and the integer and string
  builtins.

  A \<open>Value\<close> is an integer, a boolean, a double (IEEE bit pattern), a string (the characters before
  the terminating NUL) or a heap object, of which only the type tag and an identity are known here:
  what \<open>binary_op\<close> and \<open>is_truthy\<close> do on arrays, maps, big numbers, options, results and functions
  is a pair of parameters.  A C operation without a defined result (signed overflow, a read outside
  a string) and a call of \<open>karkain_runtime_error\<close> are \<^const>\<open>None\<close>.
\<close>

section \<open>Values\<close>

datatype heap_kind = TYPE_ARRAY | TYPE_MAP | TYPE_BIGINT | TYPE_BIGFLOAT | TYPE_OPTION | TYPE_RESULT | TYPE_FUNC

datatype rval = VInt i64 | VBool bool | VFlt f64 | VStr string | VRef heap_kind nat

definition mk_nil :: rval where "mk_nil = VInt 0"

definition make_bool :: "bool \<Rightarrow> rval" where "make_bool b = VBool b"

text \<open>\<open>make_int\<close> of a C truth value.\<close>

definition make_truth :: "bool \<Rightarrow> rval" where "make_truth b = VInt (if b then 1 else 0)"

text \<open>\<open>strdup\<close> stops at the first NUL.\<close>

definition make_string :: "string \<Rightarrow> rval" where
  "make_string s = VStr (takeWhile (\<lambda>c. c \<noteq> CHR 0x00) s)"

record heap_ops =
  heap_binop :: "string \<Rightarrow> rval \<Rightarrow> rval \<Rightarrow> rval option"
  heap_truthy :: "rval \<Rightarrow> bool"

definition is_ref :: "rval \<Rightarrow> bool" where
  "is_ref v \<longleftrightarrow> (case v of VRef _ _ \<Rightarrow> True | _ \<Rightarrow> False)"

definition is_truthy :: "float_ops \<Rightarrow> heap_ops \<Rightarrow> rval \<Rightarrow> bool" where
  "is_truthy ff hh v =
     (case v of
        VInt x \<Rightarrow> x \<noteq> 0
      | VBool b \<Rightarrow> b
      | VFlt x \<Rightarrow> \<not> f_eq ff x 0
      | VStr s \<Rightarrow> length s > 0
      | VRef _ _ \<Rightarrow> heap_truthy hh v)"

section \<open>Integer arithmetic in C\<close>

text \<open>Signed arithmetic on \<open>long long\<close> is defined only when the exact result fits.\<close>

definition fits_i64 :: "int \<Rightarrow> bool" where
  "fits_i64 r \<longleftrightarrow> minInt \<le> r \<and> r \<le> maxInt"

definition c_int :: "int \<Rightarrow> rval option" where
  "c_int r = (if fits_i64 r then Some (VInt (word_of_int r)) else None)"

definition int_arith :: "string \<Rightarrow> i64 \<Rightarrow> i64 \<Rightarrow> rval option option" where
  "int_arith op x y =
     (if op = ''+'' then Some (c_int (sint x + sint y))
      else if op = ''-'' then Some (c_int (sint x - sint y))
      else if op = ''*'' then Some (c_int (sint x * sint y))
      else if op = ''/'' then
        Some (if y \<noteq> 0 then c_int (sint x sdiv sint y) else Some (VInt 0))
      else if op = ''%'' then
        Some (if y \<noteq> 0 then (if fits_i64 (sint x sdiv sint y) then c_int (sint x smod sint y) else None)
              else Some (VInt 0))
      else if op = ''>'' then Some (Some (make_truth (sint x > sint y)))
      else if op = ''<'' then Some (Some (make_truth (sint x < sint y)))
      else if op = ''>='' then Some (Some (make_truth (sint x \<ge> sint y)))
      else if op = ''<='' then Some (Some (make_truth (sint x \<le> sint y)))
      else None)"

definition bit_arith :: "string \<Rightarrow> i64 \<Rightarrow> i64 \<Rightarrow> rval option" where
  "bit_arith op l r =
     (if op = ''&'' then Some (VInt (l AND r))
      else if op = ''|'' then Some (VInt (l OR r))
      else if op = ''^'' then Some (VInt (l XOR r))
      else if op = ''<<'' then
        (if sint r < 0 \<or> sint r \<ge> 64 then Some (VInt 0) else Some (VInt (push_bit (unat r) l)))
      else if op = ''>>'' then
        (if sint r < 0 \<or> sint r \<ge> 64 then Some (VInt 0) else Some (VInt (signed_drop_bit (unat r) l)))
      else None)"

section \<open>binary\_op\<close>

text \<open>\<open>strcmp(a, b) < 0\<close>: the bytes are compared as \<open>unsigned char\<close>.\<close>

fun c_less :: "string \<Rightarrow> string \<Rightarrow> bool" where
  "c_less _ [] = False"
| "c_less [] (_ # _) = True"
| "c_less (a # as) (b # bs) =
     (if (of_char a :: nat) < of_char b then True
      else if (of_char b :: nat) < of_char a then False
      else c_less as bs)"

definition string_compare :: "string \<Rightarrow> string \<Rightarrow> string \<Rightarrow> rval option" where
  "string_compare op a b =
     (if op = ''=='' then Some (make_truth (a = b))
      else if op = ''!='' then Some (make_truth (a \<noteq> b))
      else if op = ''<'' then Some (make_truth (c_less a b))
      else if op = ''>'' then Some (make_truth (c_less b a))
      else if op = ''<='' then Some (make_truth (\<not> c_less b a))
      else if op = ''>='' then Some (make_truth (\<not> c_less a b))
      else None)"

text \<open>A concatenand: strings as they are, numbers printed, booleans as 0 and 1.\<close>

definition concat_text :: "float_ops \<Rightarrow> rval \<Rightarrow> string" where
  "concat_text ff v =
     (case v of
        VStr s \<Rightarrow> s
      | VInt x \<Rightarrow> print_int (sint x)
      | VBool b \<Rightarrow> (if b then ''1'' else ''0'')
      | VFlt x \<Rightarrow> f_print ff x
      | VRef _ _ \<Rightarrow> ''?'')"

definition float_arith :: "float_ops \<Rightarrow> string \<Rightarrow> f64 \<Rightarrow> f64 \<Rightarrow> rval option" where
  "float_arith ff op l r =
     (if op = ''+'' then Some (VFlt (f_add ff l r))
      else if op = ''-'' then Some (VFlt (f_sub ff l r))
      else if op = ''*'' then Some (VFlt (f_mul ff l r))
      else if op = ''/'' then Some (VFlt (if \<not> f_eq ff r 0 then f_div ff l r else 0))
      else if op = ''%'' then Some (VFlt (if \<not> f_eq ff r 0 then f_mod ff l r else 0))
      else if op = ''>'' then Some (make_truth (f_lt ff r l))
      else if op = ''<'' then Some (make_truth (f_lt ff l r))
      else if op = ''>='' then Some (make_truth (f_le ff r l))
      else if op = ''<='' then Some (make_truth (f_le ff l r))
      else if op = ''=='' then Some (make_truth (f_eq ff l r))
      else if op = ''!='' then Some (make_truth (\<not> f_eq ff l r))
      else None)"

text \<open>The bounds \<open>1e-9\<close> and \<open>-1e-9\<close> of the comparison of doubles.\<close>

definition f_eps :: f64 where "f_eps = 0x3E112E0BE826D695"
definition f_neg_eps :: f64 where "f_neg_eps = 0xBE112E0BE826D695"

text \<open>\<open>values_equal\<close> on two scalars; with a heap object it is part of the heap parameter.\<close>

definition values_equal :: "float_ops \<Rightarrow> rval \<Rightarrow> rval \<Rightarrow> bool" where
  "values_equal ff a b =
     (case (a, b) of
        (VInt x, VInt y) \<Rightarrow> x = y
      | (VBool x, VBool y) \<Rightarrow> x = y
      | (VFlt x, VFlt y) \<Rightarrow> (let diff = f_sub ff x y in f_lt ff f_neg_eps diff \<and> f_lt ff diff f_eps)
      | (VStr x, VStr y) \<Rightarrow> x = y
      | _ \<Rightarrow> False)"

text \<open>\<open>intVal\<close> of an integer or a boolean; the double a scalar is promoted to.\<close>

definition int_payload :: "rval \<Rightarrow> i64 option" where
  "int_payload v = (case v of VInt x \<Rightarrow> Some x | VBool b \<Rightarrow> Some (if b then 1 else 0) | _ \<Rightarrow> None)"

definition is_float :: "rval \<Rightarrow> bool" where
  "is_float v \<longleftrightarrow> (case v of VFlt _ \<Rightarrow> True | _ \<Rightarrow> False)"

definition is_string :: "rval \<Rightarrow> bool" where
  "is_string v \<longleftrightarrow> (case v of VStr _ \<Rightarrow> True | _ \<Rightarrow> False)"

definition to_double :: "float_ops \<Rightarrow> rval \<Rightarrow> f64 option" where
  "to_double ff v =
     (case v of VFlt x \<Rightarrow> Some x | VInt x \<Rightarrow> Some (f_of_int ff x) | VBool b \<Rightarrow> Some (f_of_int ff (if b then 1 else 0))
      | _ \<Rightarrow> None)"

text \<open>After strings and doubles: integers, equality, bit operations, and 0 for everything else.\<close>

definition scalar_op :: "float_ops \<Rightarrow> string \<Rightarrow> rval \<Rightarrow> rval \<Rightarrow> rval option" where
  "scalar_op ff op l r =
     (case (case (l, r) of (VInt x, VInt y) \<Rightarrow> int_arith op x y | _ \<Rightarrow> None) of
        Some res \<Rightarrow> res
      | None \<Rightarrow>
          if op = ''!='' then Some (make_truth (\<not> values_equal ff l r))
          else if op = ''=='' then Some (make_truth (values_equal ff l r))
          else (case (int_payload l, int_payload r) of
                  (Some x, Some y) \<Rightarrow> (case bit_arith op x y of Some v \<Rightarrow> Some v | None \<Rightarrow> Some (VInt 0))
                | _ \<Rightarrow> Some (VInt 0)))"

text \<open>A double and a string meet only in a comparison or an operator strings do not have; the code
  then reads the union member that was not written, which has no defined result.\<close>

definition binary_op :: "float_ops \<Rightarrow> heap_ops \<Rightarrow> rval \<Rightarrow> string \<Rightarrow> rval \<Rightarrow> rval option" where
  "binary_op ff hh l op r =
     (if is_ref l \<or> is_ref r then heap_binop hh op l r
      else case (case (l, r) of (VStr a, VStr b) \<Rightarrow> string_compare op a b | _ \<Rightarrow> None) of
        Some v \<Rightarrow> Some v
      | None \<Rightarrow>
          if op = ''+'' \<and> (is_string l \<or> is_string r)
          then Some (make_string (concat_text ff l @ concat_text ff r))
          else if is_float l \<or> is_float r
          then (case (to_double ff l, to_double ff r) of
                  (Some x, Some y) \<Rightarrow> (case float_arith ff op x y of Some v \<Rightarrow> Some v | None \<Rightarrow> scalar_op ff op l r)
                | _ \<Rightarrow> None)
          else scalar_op ff op l r)"

section \<open>Checked division, unary operators\<close>

text \<open>The zero test of \<open>karkain_checked_div\<close> and \<open>karkain_checked_mod\<close>; \<open>True\<close> reports a runtime
  error and ends the program.\<close>

definition zero_divisor :: "float_ops \<Rightarrow> rval \<Rightarrow> rval \<Rightarrow> bool" where
  "zero_divisor ff l r \<longleftrightarrow>
     (if is_float l \<or> is_float r then (case to_double ff r of Some b \<Rightarrow> f_eq ff b 0 | None \<Rightarrow> False)
      else case (int_payload l, int_payload r) of (Some _, Some y) \<Rightarrow> y = 0 | _ \<Rightarrow> False)"

definition karkain_checked_div :: "float_ops \<Rightarrow> heap_ops \<Rightarrow> rval \<Rightarrow> rval \<Rightarrow> rval option" where
  "karkain_checked_div ff hh l r = (if zero_divisor ff l r then None else binary_op ff hh l ''/'' r)"

definition karkain_checked_mod :: "float_ops \<Rightarrow> heap_ops \<Rightarrow> rval \<Rightarrow> rval \<Rightarrow> rval option" where
  "karkain_checked_mod ff hh l r = (if zero_divisor ff l r then None else binary_op ff hh l ''%'' r)"

definition karkain_negate :: "float_ops \<Rightarrow> rval \<Rightarrow> rval option" where
  "karkain_negate ff v =
     (case v of
        VInt x \<Rightarrow> c_int (- sint x)
      | VFlt x \<Rightarrow> Some (VFlt (f_neg ff x))
      | _ \<Rightarrow> Some (VInt 0))"

definition karkain_not :: "float_ops \<Rightarrow> heap_ops \<Rightarrow> rval \<Rightarrow> rval" where
  "karkain_not ff hh v = VInt (if is_truthy ff hh v then 0 else 1)"

section \<open>Conversion and printing\<close>

definition karkain_str :: "float_ops \<Rightarrow> rval \<Rightarrow> rval" where
  "karkain_str ff v =
     (case v of
        VStr s \<Rightarrow> make_string s
      | VInt x \<Rightarrow> make_string (print_int (sint x))
      | VFlt x \<Rightarrow> make_string (f_print ff x)
      | VBool b \<Rightarrow> make_string (if b then ''true'' else ''false'')
      | VRef TYPE_ARRAY _ \<Rightarrow> make_string ''[array]''
      | VRef TYPE_MAP _ \<Rightarrow> make_string ''[map]''
      | VRef _ _ \<Rightarrow> make_string '''')"

text \<open>What \<open>print_value\<close> writes for a scalar, without the newline.\<close>

definition print_scalar :: "float_ops \<Rightarrow> rval \<Rightarrow> string option" where
  "print_scalar ff v =
     (case v of
        VInt x \<Rightarrow> Some (print_int (sint x))
      | VBool b \<Rightarrow> Some (if b then ''true'' else ''false'')
      | VFlt x \<Rightarrow> Some (f_print ff x)
      | VStr s \<Rightarrow> Some s
      | VRef _ _ \<Rightarrow> None)"

section \<open>Integer and string builtins\<close>

text \<open>A conversion to \<open>int\<close> keeps the low 32 bits.\<close>

definition c_cast_int :: "i64 \<Rightarrow> int" where
  "c_cast_int x = sint (ucast x :: 32 word)"

definition wrap32 :: "int \<Rightarrow> int" where
  "wrap32 x = sint (word_of_int x :: 32 word)"




definition karkain_abs :: "rval \<Rightarrow> rval option" where
  "karkain_abs v = (case v of VInt x \<Rightarrow> (if sint x \<ge> 0 then Some (VInt x) else c_int (- sint x)) | _ \<Rightarrow> Some (VInt 0))"

definition karkain_contains :: "rval \<Rightarrow> rval \<Rightarrow> rval" where
  "karkain_contains haystack needle =
     (case (haystack, needle) of (VStr h, VStr n) \<Rightarrow> make_truth (Contains h n) | _ \<Rightarrow> VInt 0)"

text \<open>\<open>karkain_substr\<close>; the sum \<open>s + l\<close> is a 32-bit \<open>int\<close> that wraps in the machine, and a copy
  past the end of the string has no defined result.\<close>

definition karkain_substr :: "rval \<Rightarrow> rval \<Rightarrow> rval \<Rightarrow> rval option" where
  "karkain_substr str start len =
     (case (str, start, len) of
        (VStr t, VInt a, VInt n) \<Rightarrow>
          (let s = c_cast_int a; l = c_cast_int n; slen = wrap32 (int (length t));
               s = (if s < 0 then 0 else s) in
           if s \<ge> slen then Some (make_string '''')
           else let l = (if wrap32 (s + l) > slen then slen - s else l);
                    l = (if l < 0 then 0 else l) in
             if s + l > slen then None
             else Some (make_string (take (nat l) (drop (nat s) t))))
      | _ \<Rightarrow> Some (make_string ''''))"

text \<open>\<open>karkain_slice\<close> on a string; a negative end counts from the length, \<open>-1\<close> being the end.\<close>

definition int_or :: "int \<Rightarrow> rval \<Rightarrow> int" where
  "int_or d v = (case v of VInt x \<Rightarrow> sint x | _ \<Rightarrow> d)"

definition karkain_slice_string :: "string \<Rightarrow> rval \<Rightarrow> rval \<Rightarrow> rval" where
  "karkain_slice_string t s e =
     (let start = int_or 0 s; end1 = int_or (- 1) e; n = int (length t);
          end2 = (if end1 < 0 then end1 + n + 1 else end1);
          start = (if start < 0 then 0 else start);
          end3 = (if end2 > n then n else end2) in
      if start \<ge> end3 \<or> start \<ge> n then make_string ''''
      else let len = end3 - start in make_string (take (nat len) (drop (nat start) t)))"

section \<open>What the builtins compute\<close>


lemma sint_i64_bounds: "minInt \<le> sint (x :: i64) \<and> sint x \<le> maxInt"
  using sint_greater_eq [of x] sint_less [of x] by (simp add: minInt_def maxInt_def)

lemma fits_sint [simp]: "fits_i64 (sint (x :: i64))"
  using sint_i64_bounds by (simp add: fits_i64_def)




text \<open>C31. Shifts: a count below 0 or from 64 on gives 0; otherwise \<open><<\<close> multiplies by the power of
  two modulo \<open>2\<^sup>64\<close> and \<open>>>\<close> is the floor of the quotient, so it keeps the sign, whatever the value.\<close>

theorem shifts_defined:
  "binary_op ff hh (VInt l) ''<<'' (VInt r) =
     Some (VInt (if 0 \<le> sint r \<and> sint r < 64 then l * 2 ^ nat (sint r) else 0)) \<and>
   binary_op ff hh (VInt l) ''>>'' (VInt r) =
     Some (VInt (if 0 \<le> sint r \<and> sint r < 64 then word_of_int (sint l div 2 ^ nat (sint r)) else 0))"
proof -
  have nn: "unat r = nat (sint r)" if "0 \<le> sint r"
  proof -
    from that have "uint r = sint r"
      using sint_i64_bounds [of r] by (simp add: uint_sint take_bit_int_eq_self maxInt_def)
    then show ?thesis using nat_uint_eq [of r] by simp
  qed
  have drop: "signed_drop_bit n l = word_of_int (sint l div 2 ^ n)" for n
  proof -
    have "signed_drop_bit n l = word_of_int (sint (signed_drop_bit n l))" by (simp only: of_int_sint scast_id)
    also have "\<dots> = word_of_int (sint l div 2 ^ n)" by (simp only: sint_signed_drop_bit_eq drop_bit_eq_div)
    finally show ?thesis .
  qed
  show ?thesis
    using nn by (simp add: binary_op_def is_ref_def is_string_def is_float_def scalar_op_def int_arith_def bit_arith_def
        int_payload_def push_bit_eq_mult drop not_less)
qed

text \<open>The \<open>substr\<close> call of the generated code: the characters from \<open>s\<close> on, at most \<open>l\<close> of them.\<close>

lemma wrap32_small: "- (2 ^ 31) \<le> x \<Longrightarrow> x < 2 ^ 31 \<Longrightarrow> wrap32 x = x"
  by (simp add: wrap32_def sint_sbintrunc' signed_take_bit_int_eq_self)

lemma c_cast_int_small: "- (2 ^ 31) \<le> sint x \<Longrightarrow> sint x < 2 ^ 31 \<Longrightarrow> c_cast_int x = sint x"
proof -
  assume "- (2 ^ 31) \<le> sint x" "sint x < 2 ^ 31"
  moreover have "ucast x = (word_of_int (sint x) :: 32 word)"
  proof -
    have "ucast x = (scast x :: 32 word)" by (rule bit_word_eqI) (auto simp: bit_simps)
    then show ?thesis by (simp only: scast_eq)
  qed
  ultimately show ?thesis using wrap32_small [of "sint x"] by (simp add: c_cast_int_def wrap32_def)
qed

text \<open>\<open>substr\<close> within the range of \<open>int\<close>: for a start and a length that are 32-bit numbers whose
  sum is one too, the result is the part of the string that begins at the start and has the length,
  cut off at the end of the string.\<close>

theorem karkain_substr_correct:
  assumes "int (length t) < 2 ^ 31" "CHR 0x00 \<notin> set t"
    and "- (2 ^ 31) \<le> sint s" "sint s < 2 ^ 31" "- (2 ^ 31) \<le> sint l" "sint l < 2 ^ 31"
    and "max 0 (sint s) + sint l < 2 ^ 31"
  shows "karkain_substr (VStr t) (VInt s) (VInt l) = Some (VStr (take (nat (sint l)) (drop (nat (sint s)) t)))"
proof -
  let ?s = "max 0 (sint s)" and ?n = "int (length t)"
  have nul: "make_string (take k (drop j t)) = VStr (take k (drop j t))" for k j
  proof -
    have "takeWhile (\<lambda>c. c \<noteq> CHR 0x00) (take k (drop j t)) = take k (drop j t)"
      using assms(2) by (intro takeWhile_eq_all_conv [THEN iffD2] ballI) (auto dest: in_set_takeD in_set_dropD)
    then show ?thesis by (simp add: make_string_def)
  qed
  have c: "c_cast_int s = sint s" "c_cast_int l = sint l" "wrap32 ?n = ?n" "wrap32 (?s + sint l) = ?s + sint l"
    using assms by (simp_all add: c_cast_int_small wrap32_small)
  have s: "(if sint s < 0 then 0 else sint s) = ?s" "nat ?s = nat (sint s)" by auto
  show ?thesis
  proof (cases "?s \<ge> ?n")
    case True
    then have "drop (nat (sint s)) t = []" using s(2) by (simp add: nat_le_iff)
    with True show ?thesis by (simp add: karkain_substr_def Let_def c s make_string_def)
  next
    case False
    then show ?thesis
    proof (cases "?s + sint l > ?n")
      case True
      then have "take (nat (sint l)) (drop (nat (sint s)) t) = drop (nat (sint s)) t"
        and "take (nat (?n - ?s)) (drop (nat (sint s)) t) = drop (nat (sint s)) t" using s(2) by auto
      with True False nul [of "nat (sint l)" "nat (sint s)"] show ?thesis
        by (simp add: karkain_substr_def Let_def c s)
    next
      case F2: False
      with False show ?thesis by (cases "sint l < 0") (simp_all add: karkain_substr_def Let_def c s nul make_string_def [of "[]"])
    qed
  qed
qed

theorem karkain_substr_correct_witness:
  "karkain_substr (VStr ''karkain'') (VInt 2) (VInt 3) = Some (VStr (take (nat (sint (3 :: i64))) (drop (nat (sint (2 :: i64))) ''karkain'')))"
  by (rule karkain_substr_correct) simp_all

text \<open>Outside that range the clipping fails: with the largest \<open>int\<close> as length the sum wraps to a
  negative number, the length is not cut, and the copy reads past the end of the string.\<close>

theorem karkain_substr_overrun:
  "karkain_substr (VStr ''abc'') (VInt 1) (VInt 2147483647) = None"
  by (simp add: karkain_substr_def Let_def c_cast_int_def wrap32_def)

end
