(* ===== verification/Ssa_Semantics.thy ===== *)
theory Ssa_Semantics
  imports Ssa_Wf Runtime_Values
begin

text \<open>
  A reference semantics of the SSA functions the C backend emits, and the proof that the passes it
  runs before emission (constant folding, branch simplification, dead code elimination) preserve it.

  The meaning of an instruction is that of the C statement \<open>emitSSAFunction\<close>
  (pkg/codegen/emit_ir.go) writes for it, on the scalar values of \<open>Runtime_Values\<close>.  Registers and
  variable cells are separate maps; a register that was not written has no value.  Calls, indexing,
  printing and the text of raw C statements are parameters: they see the values, the cells and a
  \<open>world\<close> of an arbitrary type, and raw C may write cells, change the world or leave the function.
  A step executes one block.
\<close>

section \<open>Constants in the emitted C\<close>

fun unescapeKarkain :: "string \<Rightarrow> string" where
  "unescapeKarkain [] = []"
| "unescapeKarkain [c] = [c]"
| "unescapeKarkain (c # d # s) =
     (if c \<noteq> CHR 0x5C then c # unescapeKarkain (d # s)
      else (if d = CHR ''n'' then [CHR 0x0A]
            else if d = CHR ''t'' then [CHR 0x09]
            else if d = CHR ''r'' then [CHR 0x0D]
            else if d = CHR ''0'' then [CHR 0x00]
            else if d = CHR 0x5C then [CHR 0x5C]
            else if d = CHR 0x22 then [CHR 0x22]
            else if d = CHR 0x27 then [CHR 0x27]
            else [CHR 0x5C, d]) @ unescapeKarkain s)"

text \<open>The value of the C expression \<open>operandC\<close> writes for a constant.\<close>

definition const_value :: "Operand \<Rightarrow> rval" where
  "const_value c =
     (case op_CstKind c of
        I \<Rightarrow> VInt (op_IntVal c)
      | F \<Rightarrow> VFlt (op_FltVal c)
      | Bool \<Rightarrow> make_bool (op_BoolVal c)
      | Str \<Rightarrow> make_string (unescapeKarkain (op_StrVal c))
      | _ \<Rightarrow> mk_nil)"

section \<open>The machine\<close>

type_synonym cells = "string \<rightharpoonup> rval"

record 'w machine =
  m_ff :: float_ops
  m_hh :: heap_ops
  m_call :: "string \<Rightarrow> rval list \<Rightarrow> 'w \<Rightarrow> (rval \<times> 'w) option"
  m_get :: "rval \<Rightarrow> rval \<Rightarrow> 'w \<Rightarrow> rval option"
  m_set :: "rval \<Rightarrow> rval \<Rightarrow> rval \<Rightarrow> 'w \<Rightarrow> 'w option"
  m_print :: "rval \<Rightarrow> 'w \<Rightarrow> 'w"
  m_expr :: "string \<Rightarrow> cells \<Rightarrow> 'w \<Rightarrow> (rval \<times> cells \<times> 'w) option"
  m_stmt :: "string \<Rightarrow> cells \<Rightarrow> 'w \<Rightarrow> (cells \<times> 'w + rval \<times> 'w) option"

record 'w mstate =
  s_regs :: "string \<rightharpoonup> rval"
  s_cells :: cells
  s_world :: 'w

type_synonym 'w istep = "'w mstate + rval \<times> 'w"

definition eval_operand :: "(string \<rightharpoonup> rval) \<Rightarrow> Operand \<Rightarrow> rval option" where
  "eval_operand rs a = (if op_IsCst a then Some (const_value a) else rs (op_Reg a))"

definition eval_args :: "(string \<rightharpoonup> rval) \<Rightarrow> Operand list \<Rightarrow> rval list option" where
  "eval_args rs as = those (map (eval_operand rs) as)"

definition set_reg :: "string \<Rightarrow> rval \<Rightarrow> 'w mstate \<Rightarrow> 'w istep option" where
  "set_reg d v s = (if d = [] then None else Some (Inl (s\<lparr>s_regs := (s_regs s)(d \<mapsto> v)\<rparr>)))"

definition exec_binop :: "'w machine \<Rightarrow> string \<Rightarrow> rval \<Rightarrow> rval \<Rightarrow> rval option" where
  "exec_binop m op l r =
     (if op = ''/'' then karkain_checked_div (m_ff m) (m_hh m) l r
      else if op = ''%'' then karkain_checked_mod (m_ff m) (m_hh m) l r
      else binary_op (m_ff m) (m_hh m) l op r)"

definition exec_unop :: "'w machine \<Rightarrow> string \<Rightarrow> rval \<Rightarrow> rval option" where
  "exec_unop m op v =
     (if op = ''!'' then Some (karkain_not (m_ff m) (m_hh m) v) else karkain_negate (m_ff m) v)"

definition write_result :: "string \<Rightarrow> rval option \<Rightarrow> 'w mstate \<Rightarrow> 'w istep option" where
  "write_result d res s = (case res of Some v \<Rightarrow> set_reg d v s | None \<Rightarrow> None)"

text \<open>An instruction that is not a terminator, on the values of its arguments.\<close>

definition exec_op :: "'w machine \<Rightarrow> Instr \<Rightarrow> rval list \<Rightarrow> 'w mstate \<Rightarrow> 'w istep option" where
  "exec_op m i vs s =
     (case i_Op i of
        OpConst \<Rightarrow> (case vs of v # _ \<Rightarrow> set_reg (i_Dest i) v s | [] \<Rightarrow> None)
      | OpBinOp \<Rightarrow> (case vs of l # r # _ \<Rightarrow> write_result (i_Dest i) (exec_binop m (i_OpStr i) l r) s | _ \<Rightarrow> None)
      | OpUnOp \<Rightarrow> (case vs of v # _ \<Rightarrow> write_result (i_Dest i) (exec_unop m (i_OpStr i) v) s | [] \<Rightarrow> None)
      | OpCall \<Rightarrow>
          (case m_call m (i_OpStr i) vs (s_world s) of
             Some (v, w) \<Rightarrow> set_reg (i_Dest i) v (s\<lparr>s_world := w\<rparr>) | None \<Rightarrow> None)
      | OpCallVoid \<Rightarrow>
          (case m_call m (i_OpStr i) vs (s_world s) of
             Some (v, w) \<Rightarrow> Some (Inl (s\<lparr>s_world := w\<rparr>)) | None \<Rightarrow> None)
      | OpIndexGet \<Rightarrow> (case vs of c # k # _ \<Rightarrow> write_result (i_Dest i) (m_get m c k (s_world s)) s | _ \<Rightarrow> None)
      | OpIndexSet \<Rightarrow>
          (case vs of
             c # k # v # _ \<Rightarrow>
               (case m_set m c k v (s_world s) of Some w \<Rightarrow> Some (Inl (s\<lparr>s_world := w\<rparr>)) | None \<Rightarrow> None)
           | _ \<Rightarrow> None)
      | OpPrint \<Rightarrow> (case vs of v # _ \<Rightarrow> Some (Inl (s\<lparr>s_world := m_print m v (s_world s)\<rparr>)) | [] \<Rightarrow> None)
      | OpLoad \<Rightarrow> write_result (i_Dest i) (s_cells s (i_Cell i)) s
      | OpStore \<Rightarrow>
          (case vs of v # _ \<Rightarrow> Some (Inl (s\<lparr>s_cells := (s_cells s)(i_Cell i \<mapsto> v)\<rparr>)) | [] \<Rightarrow> None)
      | OpRawC \<Rightarrow>
          if i_Dest i \<noteq> [] then
            (case m_expr m (i_RawC i) (s_cells s) (s_world s) of
               Some (v, c, w) \<Rightarrow> set_reg (i_Dest i) v (s\<lparr>s_cells := c, s_world := w\<rparr>) | None \<Rightarrow> None)
          else
            (case m_stmt m (i_RawC i) (s_cells s) (s_world s) of
               Some (Inl (c, w)) \<Rightarrow> Some (Inl (s\<lparr>s_cells := c, s_world := w\<rparr>))
             | Some (Inr r) \<Rightarrow> Some (Inr r)
             | None \<Rightarrow> None)
      | _ \<Rightarrow> None)"

definition exec_instr :: "'w machine \<Rightarrow> Instr \<Rightarrow> 'w mstate \<Rightarrow> 'w istep option" where
  "exec_instr m i s = (case eval_args (s_regs s) (i_Args i) of Some vs \<Rightarrow> exec_op m i vs s | None \<Rightarrow> None)"

text \<open>Entering a block: its parameters get the arguments of the branch, the missing ones nil.\<close>

definition param_reg :: "string \<Rightarrow> BlockParam \<Rightarrow> string" where
  "param_reg bn p = bn @ ''__'' @ bp_Name p"

definition param_value :: "(string \<rightharpoonup> rval) \<Rightarrow> Operand list \<Rightarrow> nat \<Rightarrow> rval option" where
  "param_value rs args j = (if j < length args then eval_operand rs (args ! j) else Some mk_nil)"

definition enter_block ::
  "(string \<rightharpoonup> BlockParam list) \<Rightarrow> string \<Rightarrow> Operand list \<Rightarrow> 'w mstate \<Rightarrow> (string \<times> 'w mstate) option" where
  "enter_block sig t args s =
     (case sig t of
        None \<Rightarrow> None
      | Some ps \<Rightarrow>
          (case those (map (param_value (s_regs s) args) [0..<length ps]) of
             None \<Rightarrow> None
           | Some vs \<Rightarrow> Some (t, s\<lparr>s_regs := (s_regs s)(map (param_reg t) ps [\<mapsto>] vs)\<rparr>)))"

definition branch_args :: "Instr \<Rightarrow> nat \<Rightarrow> Operand list" where
  "branch_args i k = (if k < length (i_BranchArgs i) then i_BranchArgs i ! k else [])"

type_synonym 'w bstep = "string \<times> 'w mstate + rval \<times> 'w"

definition exec_term ::
  "'w machine \<Rightarrow> string \<Rightarrow> (string \<rightharpoonup> BlockParam list) \<Rightarrow> Instr \<Rightarrow> 'w mstate \<Rightarrow> 'w bstep option" where
  "exec_term m fname sig i s =
     (case i_Op i of
        OpBr \<Rightarrow>
          (case i_Args i of
             c # _ \<Rightarrow>
               (case eval_operand (s_regs s) c of
                  Some v \<Rightarrow>
                    map_option Inl
                      (if is_truthy (m_ff m) (m_hh m) v
                       then enter_block sig (i_ThenTarget i) (branch_args i 0) s
                       else enter_block sig (i_ElseTarget i) (branch_args i 1) s)
                | None \<Rightarrow> None)
           | [] \<Rightarrow> None)
      | OpJmp \<Rightarrow>
          if i_BranchArgs i = [] then (case sig (i_JmpTarget i) of Some _ \<Rightarrow> Some (Inl (i_JmpTarget i, s)) | None \<Rightarrow> None)
          else map_option Inl (enter_block sig (i_JmpTarget i) (branch_args i 0) s)
      | OpRet \<Rightarrow>
          if fname = ''main'' then Some (Inr (mk_nil, s_world s))
          else (case i_Args i of
                  [] \<Rightarrow> Some (Inr (mk_nil, s_world s))
                | a # _ \<Rightarrow> map_option (\<lambda>v. Inr (v, s_world s)) (eval_operand (s_regs s) a))
      | _ \<Rightarrow> None)"

fun exec_instrs ::
  "'w machine \<Rightarrow> string \<Rightarrow> (string \<rightharpoonup> BlockParam list) \<Rightarrow> Instr list \<Rightarrow> 'w mstate \<Rightarrow> 'w bstep option" where
  "exec_instrs m fname sig [] s = None"
| "exec_instrs m fname sig (i # is) s =
     (if isTerminator i then exec_term m fname sig i s
      else case exec_instr m i s of
        None \<Rightarrow> None
      | Some (Inl s') \<Rightarrow> exec_instrs m fname sig is s'
      | Some (Inr r) \<Rightarrow> Some (Inr r))"

definition fn_sig :: "SsaFunction \<Rightarrow> string \<rightharpoonup> BlockParam list" where
  "fn_sig fn t = map_option b_Params (block_map (f_Blocks fn) t)"

definition block_step :: "'w machine \<Rightarrow> SsaFunction \<Rightarrow> string \<times> 'w mstate \<Rightarrow> 'w bstep option" where
  "block_step m fn = (\<lambda>(n, s).
     case block_map (f_Blocks fn) n of
       None \<Rightarrow> None
     | Some b \<Rightarrow> exec_instrs m (f_Name fn) (fn_sig fn) (b_Instrs b) s)"

section \<open>Runs\<close>

datatype 'r outcome = Stuck | Running | Done 'r

fun iterate :: "('a \<Rightarrow> ('a + 'r) option) \<Rightarrow> nat \<Rightarrow> 'a \<Rightarrow> 'r outcome" where
  "iterate step 0 a = Running"
| "iterate step (Suc n) a =
     (case step a of None \<Rightarrow> Stuck | Some (Inl a') \<Rightarrow> iterate step n a' | Some (Inr r) \<Rightarrow> Done r)"

text \<open>At most \<open>n\<close> blocks of a function, from its entry, with no register written.\<close>

definition run :: "'w machine \<Rightarrow> SsaFunction \<Rightarrow> nat \<Rightarrow> cells \<Rightarrow> 'w \<Rightarrow> (rval \<times> 'w) outcome" where
  "run m fn n c w = iterate (block_step m fn) n (f_Entry fn, \<lparr>s_regs = Map.empty, s_cells = c, s_world = w\<rparr>)"

text \<open>\<open>fn'\<close> does what \<open>fn\<close> does wherever \<open>fn\<close> does not fail: it returns the same value and leaves the
  same world, after the same number of blocks, or it is still running too.\<close>

definition implements :: "'w machine \<Rightarrow> SsaFunction \<Rightarrow> SsaFunction \<Rightarrow> bool" where
  "implements m fn' fn \<longleftrightarrow> (\<forall>n c w. run m fn n c w \<noteq> Stuck \<longrightarrow> run m fn' n c w = run m fn n c w)"

lemma implements_trans: "implements m c b \<Longrightarrow> implements m b a \<Longrightarrow> implements m c a"
  by (simp add: implements_def)

section \<open>Lockstep simulation\<close>

locale lockstep =
  fixes step1 :: "'a \<Rightarrow> ('a + 'r) option" and step2 :: "'b \<Rightarrow> ('b + 'r) option" and R :: "'a \<Rightarrow> 'b \<Rightarrow> bool"
  assumes sim_step: "R a b \<Longrightarrow> step1 a = Some res \<Longrightarrow> \<exists>res'. step2 b = Some res' \<and> rel_sum R (=) res res'"
begin

lemma iterate_same: "R a b \<Longrightarrow> iterate step1 n a \<noteq> Stuck \<Longrightarrow> iterate step2 n b = iterate step1 n a"
proof (induction n arbitrary: a b)
  case (Suc n)
  show ?case
  proof (cases "step1 a")
    case (Some res)
    with sim_step [OF Suc.prems(1)] obtain res' where r: "step2 b = Some res'" "rel_sum R (=) res res'" by auto
    show ?thesis
    proof (cases res)
      case (Inl a')
      with r(2) obtain b' where "res' = Inl b'" "R a' b'" by (cases res') auto
      with Some Inl r(1) Suc show ?thesis by simp
    next
      case (Inr x)
      with r(2) have "res' = Inr x" by (cases res') auto
      with Some Inr r(1) show ?thesis by simp
    qed
  qed (use Suc.prems(2) in simp)
qed simp

end

section \<open>Executing an instruction in related states\<close>

definition sim :: "((string \<rightharpoonup> rval) \<Rightarrow> (string \<rightharpoonup> rval) \<Rightarrow> bool) \<Rightarrow> 'w mstate \<Rightarrow> 'w mstate \<Rightarrow> bool" where
  "sim P s1 s2 \<longleftrightarrow> s_cells s1 = s_cells s2 \<and> s_world s1 = s_world s2 \<and> P (s_regs s1) (s_regs s2)"

lemma set_reg_rel:
  assumes "sim P s1 s2" "d \<noteq> [] \<Longrightarrow> P ((s_regs s1)(d \<mapsto> v1)) ((s_regs s2)(d \<mapsto> v2))" "set_reg d v1 s1 = Some r1"
  shows "\<exists>r2. set_reg d v2 s2 = Some r2 \<and> rel_sum (sim P) (=) r1 r2"
  using assms by (auto simp: set_reg_def sim_def split: if_splits)

lemma exec_op_rel:
  assumes s: "sim P s1 s2" and e: "exec_op m i vs s1 = Some r1"
    and P: "\<And>v. i_Dest i \<noteq> [] \<Longrightarrow> P ((s_regs s1)(i_Dest i \<mapsto> v)) ((s_regs s2)(i_Dest i \<mapsto> v))"
  shows "\<exists>r2. exec_op m i vs s2 = Some r2 \<and> rel_sum (sim P) (=) r1 r2"
  using assms
  by (cases "i_Op i")
    (auto simp: exec_op_def write_result_def set_reg_def sim_def split: list.splits option.splits if_splits sum.splits)

lemma those_map_mono:
  assumes "\<And>x v. x \<in> set xs \<Longrightarrow> f x = Some v \<Longrightarrow> g x = Some v" "those (map f xs) = Some vs"
  shows "those (map g xs) = Some vs"
  using assms
proof (induction xs arbitrary: vs)
  case (Cons x xs)
  then obtain v vs' where "f x = Some v" "those (map f xs) = Some vs'" "vs = v # vs'"
    by (auto split: option.splits)
  with Cons show ?case by simp
qed simp

lemma enter_block_rel:
  assumes s: "sim P s1 s2" and e: "enter_block sig t args s1 = Some (n, s1')"
    and args: "\<And>a v. a \<in> set args \<Longrightarrow> eval_operand (s_regs s1) a = Some v \<Longrightarrow> eval_operand (s_regs s2) a = Some v"
    and P: "\<And>ps vs. sig t = Some ps \<Longrightarrow>
      P ((s_regs s1)(map (param_reg t) ps [\<mapsto>] vs)) ((s_regs s2)(map (param_reg t) ps [\<mapsto>] vs))"
  shows "\<exists>s2'. enter_block sig t args s2 = Some (n, s2') \<and> sim P s1' s2'"
proof -
  from e obtain ps vs where ps: "sig t = Some ps" "those (map (param_value (s_regs s1) args) [0..<length ps]) = Some vs"
    and n: "n = t" "s1' = s1\<lparr>s_regs := (s_regs s1)(map (param_reg t) ps [\<mapsto>] vs)\<rparr>"
    by (auto simp: enter_block_def split: option.splits)
  have "those (map (param_value (s_regs s2) args) [0..<length ps]) = Some vs"
    by (rule those_map_mono [OF _ ps(2)]) (auto simp: param_value_def args split: if_splits)
  with ps(1) n P [OF ps(1)] s show ?thesis by (auto simp: enter_block_def sim_def)
qed

lemma branch_args_mem: "a \<in> set (branch_args i k) \<Longrightarrow> \<exists>g \<in> set (i_BranchArgs i). a \<in> set g"
  by (auto simp: branch_args_def split: if_splits)

text \<open>Two terminators that differ at most in their arguments.\<close>

definition same_targets :: "Instr \<Rightarrow> Instr \<Rightarrow> bool" where
  "same_targets i j \<longleftrightarrow> i_Op j = i_Op i \<and> i_ThenTarget j = i_ThenTarget i \<and> i_ElseTarget j = i_ElseTarget i
     \<and> i_JmpTarget j = i_JmpTarget i \<and> i_BranchArgs j = i_BranchArgs i \<and> length (i_Args j) = length (i_Args i)"

lemma exec_term_rel:
  assumes s: "sim P s1 s2" and e: "exec_term m fname sig i s1 = Some r1" and i: "same_targets i j"
    and cond: "\<And>v. i_Op i = OpBr \<Longrightarrow> i_Args i \<noteq> [] \<Longrightarrow> eval_operand (s_regs s1) (hd (i_Args i)) = Some v \<Longrightarrow>
      \<exists>v'. eval_operand (s_regs s2) (hd (i_Args j)) = Some v' \<and> is_truthy (m_ff m) (m_hh m) v' = is_truthy (m_ff m) (m_hh m) v"
    and ret: "\<And>v. i_Op i = OpRet \<Longrightarrow> i_Args i \<noteq> [] \<Longrightarrow> eval_operand (s_regs s1) (hd (i_Args i)) = Some v \<Longrightarrow>
      eval_operand (s_regs s2) (hd (i_Args j)) = Some v"
    and args: "\<And>g a v. g \<in> set (i_BranchArgs i) \<Longrightarrow> a \<in> set g \<Longrightarrow> eval_operand (s_regs s1) a = Some v \<Longrightarrow>
      eval_operand (s_regs s2) a = Some v"
    and P: "\<And>t ps vs. sig t = Some ps \<Longrightarrow>
      P ((s_regs s1)(map (param_reg t) ps [\<mapsto>] vs)) ((s_regs s2)(map (param_reg t) ps [\<mapsto>] vs))"
  shows "\<exists>r2. exec_term m fname sig j s2 = Some r2 \<and> rel_sum (rel_prod (=) (sim P)) (=) r1 r2"
proof -
  have ba: "branch_args j = branch_args i" using i by (auto simp: branch_args_def same_targets_def)
  have enter: "\<exists>r2. map_option Inl (enter_block sig t (branch_args i k) s2) = Some r2 \<and> rel_sum (rel_prod (=) (sim P)) (=) r1 r2"
    if en: "map_option Inl (enter_block sig t (branch_args i k) s1) = Some r1" for t k
  proof -
    from en obtain n s1' where e1: "enter_block sig t (branch_args i k) s1 = Some (n, s1')" and r1: "r1 = Inl (n, s1')" by auto
    have "\<exists>s2'. enter_block sig t (branch_args i k) s2 = Some (n, s2') \<and> sim P s1' s2'"
      by (rule enter_block_rel [OF s e1]) (auto dest: branch_args_mem intro: args P)
    then show ?thesis by (auto simp: r1)
  qed
  show ?thesis
  proof (cases "i_Op i")
    case OpBr
    with e obtain c cs v where c: "i_Args i = c # cs" "eval_operand (s_regs s1) c = Some v"
      by (auto simp: exec_term_def split: list.splits option.splits)
    with cond OpBr obtain v' where v': "eval_operand (s_regs s2) (hd (i_Args j)) = Some v'"
      "is_truthy (m_ff m) (m_hh m) v' = is_truthy (m_ff m) (m_hh m) v" by auto
    from i c obtain c' cs' where j: "i_Args j = c' # cs'" by (cases "i_Args j") (auto simp: same_targets_def)
    have "\<exists>t k. exec_term m fname sig i s1 = map_option Inl (enter_block sig t (branch_args i k) s1)
        \<and> exec_term m fname sig j s2 = map_option Inl (enter_block sig t (branch_args i k) s2)"
      using OpBr c v' j i ba
      by (cases "is_truthy (m_ff m) (m_hh m) v") (auto simp: exec_term_def same_targets_def)
    with enter e show ?thesis by metis
  next
    case OpJmp
    show ?thesis
    proof (cases "i_BranchArgs i = []")
      case True
      with OpJmp e s i show ?thesis by (auto simp: exec_term_def same_targets_def split: option.splits)
    next
      case False
      with OpJmp e i ba enter [of "i_JmpTarget i" 0] show ?thesis by (auto simp: exec_term_def same_targets_def)
    qed
  next
    case OpRet
    with e i s ret show ?thesis
      by (cases "i_Args i"; cases "i_Args j") (auto simp: exec_term_def same_targets_def sim_def split: if_splits)
  qed (use e in \<open>simp_all add: exec_term_def\<close>)
qed

end
