(* ===== verification/Lexer.thy ===== *)
theory Lexer
  imports Karkain_Prelude Go_Strings
begin

text \<open>
  The lexer (pkg/lexer/lexer.go).  A token type is a string constant, as in the code.  The fields
  \<open>Ch\<close> and \<open>ReadPosition\<close> of the Go struct are functions of \<open>Position\<close>: every write of one of the
  three goes through \<open>readChar\<close>, which sets \<open>Position\<close> to the old \<open>ReadPosition\<close>, adds one to it and
  loads the byte, 0 past the end.  Tokens keep their offsets at the widths of the code: 32 bits for
  the start, 16 bits for length, line and column.

  The loops end because a character other than NUL lies inside the input; \<open>tokens\<close>, the calls of
  \<open>NextToken\<close> up to the end of file, ends because every other token advances the position.
\<close>

section \<open>Token types\<close>

type_synonym TokenType = string

abbreviation TokenEOF :: TokenType where "TokenEOF \<equiv> ''EOF''"
abbreviation TokenIllegal :: TokenType where "TokenIllegal \<equiv> ''ILLEGAL''"
abbreviation TokenFunc :: TokenType where "TokenFunc \<equiv> ''FUNC''"
abbreviation TokenPrint :: TokenType where "TokenPrint \<equiv> ''PRINT''"
abbreviation TokenLet :: TokenType where "TokenLet \<equiv> ''LET''"
abbreviation TokenVar :: TokenType where "TokenVar \<equiv> ''VAR''"
abbreviation TokenReturn :: TokenType where "TokenReturn \<equiv> ''RETURN''"
abbreviation TokenIf :: TokenType where "TokenIf \<equiv> ''IF''"
abbreviation TokenElse :: TokenType where "TokenElse \<equiv> ''ELSE''"
abbreviation TokenImport :: TokenType where "TokenImport \<equiv> ''IMPORT''"
abbreviation TokenMatrix :: TokenType where "TokenMatrix \<equiv> ''MATRIX''"
abbreviation TokenAlloc :: TokenType where "TokenAlloc \<equiv> ''ALLOC''"
abbreviation TokenFree :: TokenType where "TokenFree \<equiv> ''FREE''"
abbreviation TokenAddr :: TokenType where "TokenAddr \<equiv> ''ADDR''"
abbreviation TokenQReg :: TokenType where "TokenQReg \<equiv> ''QREG''"
abbreviation TokenGate :: TokenType where "TokenGate \<equiv> ''GATE''"
abbreviation TokenMeasure :: TokenType where "TokenMeasure \<equiv> ''MEASURE''"
abbreviation TokenActor :: TokenType where "TokenActor \<equiv> ''ACTOR''"
abbreviation TokenSpawn :: TokenType where "TokenSpawn \<equiv> ''SPAWN''"
abbreviation TokenReceive :: TokenType where "TokenReceive \<equiv> ''RECEIVE''"
abbreviation TokenChannel :: TokenType where "TokenChannel \<equiv> ''CHANNEL''"
abbreviation TokenSend :: TokenType where "TokenSend \<equiv> ''SEND''"
abbreviation TokenMacro :: TokenType where "TokenMacro \<equiv> ''MACRO''"
abbreviation TokenQuote :: TokenType where "TokenQuote \<equiv> ''QUOTE''"
abbreviation TokenUnquote :: TokenType where "TokenUnquote \<equiv> ''UNQUOTE''"
abbreviation TokenComptime :: TokenType where "TokenComptime \<equiv> ''COMPTIME''"
abbreviation TokenWhile :: TokenType where "TokenWhile \<equiv> ''WHILE''"
abbreviation TokenFor :: TokenType where "TokenFor \<equiv> ''FOR''"
abbreviation TokenIn :: TokenType where "TokenIn \<equiv> ''IN''"
abbreviation TokenBreak :: TokenType where "TokenBreak \<equiv> ''BREAK''"
abbreviation TokenContinue :: TokenType where "TokenContinue \<equiv> ''CONTINUE''"
abbreviation TokenConst :: TokenType where "TokenConst \<equiv> ''CONST''"
abbreviation TokenStruct :: TokenType where "TokenStruct \<equiv> ''STRUCT''"
abbreviation TokenTypeDef :: TokenType where "TokenTypeDef \<equiv> ''TYPE''"
abbreviation TokenBool :: TokenType where "TokenBool \<equiv> ''BOOL''"
abbreviation TokenTrue :: TokenType where "TokenTrue \<equiv> ''TRUE''"
abbreviation TokenFalse :: TokenType where "TokenFalse \<equiv> ''FALSE''"
abbreviation TokenIdent :: TokenType where "TokenIdent \<equiv> ''IDENT''"
abbreviation TokenInt :: TokenType where "TokenInt \<equiv> ''INT''"
abbreviation TokenFloat64 :: TokenType where "TokenFloat64 \<equiv> ''FLOAT64''"
abbreviation TokenBigInt :: TokenType where "TokenBigInt \<equiv> ''BIGINT''"
abbreviation TokenBigFloat :: TokenType where "TokenBigFloat \<equiv> ''BIGFLOAT''"
abbreviation TokenString :: TokenType where "TokenString \<equiv> ''STRING''"
abbreviation TokenAssign :: TokenType where "TokenAssign \<equiv> ''=''"
abbreviation TokenEqual :: TokenType where "TokenEqual \<equiv> ''==''"
abbreviation TokenNotEqual :: TokenType where "TokenNotEqual \<equiv> ''!=''"
abbreviation TokenLessThan :: TokenType where "TokenLessThan \<equiv> ''<''"
abbreviation TokenLessEqual :: TokenType where "TokenLessEqual \<equiv> ''<=''"
abbreviation TokenGreaterThan :: TokenType where "TokenGreaterThan \<equiv> ''>''"
abbreviation TokenGreaterEqual :: TokenType where "TokenGreaterEqual \<equiv> ''>=''"
abbreviation TokenPlus :: TokenType where "TokenPlus \<equiv> ''+''"
abbreviation TokenMinus :: TokenType where "TokenMinus \<equiv> ''-''"
abbreviation TokenStar :: TokenType where "TokenStar \<equiv> ''*''"
abbreviation TokenSlash :: TokenType where "TokenSlash \<equiv> ''/''"
abbreviation TokenPercent :: TokenType where "TokenPercent \<equiv> ''%''"
abbreviation TokenAnd :: TokenType where "TokenAnd \<equiv> ''&&''"
abbreviation TokenOr :: TokenType where "TokenOr \<equiv> ''||''"
abbreviation TokenNot :: TokenType where "TokenNot \<equiv> ''!''"
abbreviation TokenPipe :: TokenType where "TokenPipe \<equiv> ''|''"
abbreviation TokenCaret :: TokenType where "TokenCaret \<equiv> ''^''"
abbreviation TokenShiftLeft :: TokenType where "TokenShiftLeft \<equiv> ''<<''"
abbreviation TokenShiftRight :: TokenType where "TokenShiftRight \<equiv> ''>>''"
abbreviation TokenLParen :: TokenType where "TokenLParen \<equiv> ''(''"
abbreviation TokenRParen :: TokenType where "TokenRParen \<equiv> '')''"
abbreviation TokenLBrace :: TokenType where "TokenLBrace \<equiv> ''{''"
abbreviation TokenRBrace :: TokenType where "TokenRBrace \<equiv> ''}''"
abbreviation TokenLBracket :: TokenType where "TokenLBracket \<equiv> ''[''"
abbreviation TokenRBracket :: TokenType where "TokenRBracket \<equiv> '']''"
abbreviation TokenComma :: TokenType where "TokenComma \<equiv> '',''"
abbreviation TokenDot :: TokenType where "TokenDot \<equiv> ''.''"
abbreviation TokenAt :: TokenType where "TokenAt \<equiv> ''@''"
abbreviation TokenSemicolon :: TokenType where "TokenSemicolon \<equiv> '';''"
abbreviation TokenAmp :: TokenType where "TokenAmp \<equiv> ''&''"
abbreviation TokenFatArrow :: TokenType where "TokenFatArrow \<equiv> ''=>''"
abbreviation TokenQuestion :: TokenType where "TokenQuestion \<equiv> ''?''"
abbreviation TOKEN_DERIVE :: TokenType where "TOKEN_DERIVE \<equiv> ''DERIVE''"
abbreviation TOKEN_TAG :: TokenType where "TOKEN_TAG \<equiv> ''TAG''"
abbreviation TokenKernel :: TokenType where "TokenKernel \<equiv> ''KERNEL''"
abbreviation TokenDevice :: TokenType where "TokenDevice \<equiv> ''DEVICE''"
abbreviation TokenGlobalID :: TokenType where "TokenGlobalID \<equiv> ''GLOBAL_ID''"
abbreviation TokenBarrier :: TokenType where "TokenBarrier \<equiv> ''BARRIER''"
abbreviation TokenColon :: TokenType where "TokenColon \<equiv> ''COLON''"
abbreviation TokenMut :: TokenType where "TokenMut \<equiv> ''MUT''"
abbreviation TokenRaw :: TokenType where "TokenRaw \<equiv> ''RAW''"
abbreviation TokenMove :: TokenType where "TokenMove \<equiv> ''MOVE''"
abbreviation TokenSome :: TokenType where "TokenSome \<equiv> ''SOME''"
abbreviation TokenNone :: TokenType where "TokenNone \<equiv> ''NONE''"
abbreviation TokenOk :: TokenType where "TokenOk \<equiv> ''OK''"
abbreviation TokenErr :: TokenType where "TokenErr \<equiv> ''ERR''"
abbreviation TokenMatch :: TokenType where "TokenMatch \<equiv> ''MATCH''"
abbreviation TokenLinear :: TokenType where "TokenLinear \<equiv> ''LINEAR''"
abbreviation TokenPacked :: TokenType where "TokenPacked \<equiv> ''PACKED''"
abbreviation TokenSIMD :: TokenType where "TokenSIMD \<equiv> ''SIMD''"
abbreviation TokenEnum :: TokenType where "TokenEnum \<equiv> ''ENUM''"
abbreviation TokenFn :: TokenType where "TokenFn \<equiv> ''FN''"
abbreviation TokenPub :: TokenType where "TokenPub \<equiv> ''PUB''"

text \<open>The cases of \<open>lookupIdent\<close>, in order.\<close>

definition ident_types :: "(string \<times> TokenType) list" where
  "ident_types = [
     (''func'', TokenFunc), (''print'', TokenPrint), (''println'', TokenPrint), (''let'', TokenLet),
     (''var'', TokenVar), (''const'', TokenConst), (''return'', TokenReturn), (''if'', TokenIf),
     (''else'', TokenElse), (''import'', TokenImport), (''matrix'', TokenMatrix), (''alloc'', TokenAlloc),
     (''free'', TokenFree), (''addr'', TokenAddr), (''float64'', TokenFloat64), (''qreg'', TokenQReg),
     (''gate'', TokenGate), (''measure'', TokenMeasure), (''actor'', TokenActor), (''spawn'', TokenSpawn),
     (''receive'', TokenReceive), (''channel'', TokenChannel), (''send'', TokenSend), (''macro'', TokenMacro),
     (''quote'', TokenQuote), (''unquote'', TokenUnquote), (''comptime'', TokenComptime), (''while'', TokenWhile),
     (''for'', TokenFor), (''type'', TokenTypeDef), (''struct'', TokenStruct), (''bool'', TokenBool),
     (''bigint'', TokenBigInt), (''bigfloat'', TokenBigFloat), (''true'', TokenTrue), (''false'', TokenFalse),
     (''kernel'', TokenKernel), (''device'', TokenDevice), (''global_id'', TokenGlobalID), (''barrier'', TokenBarrier),
     (''mut'', TokenMut), (''raw'', TokenRaw), (''move'', TokenMove), (''Some'', TokenSome),
     (''None'', TokenNone), (''Ok'', TokenOk), (''Err'', TokenErr), (''match'', TokenMatch),
     (''linear'', TokenLinear), (''packed'', TokenPacked), (''enum'', TokenEnum), (''fn'', TokenFn),
     (''public'', TokenPub), (''in'', TokenIn), (''break'', TokenBreak), (''continue'', TokenContinue)]"

definition lookupIdent :: "string \<Rightarrow> TokenType" where
  "lookupIdent ident = (case map_of ident_types ident of Some t \<Rightarrow> t | None \<Rightarrow> TokenIdent)"

text \<open>A second table of the source, no longer consulted by \<open>lookupIdent\<close>; the two agree.\<close>

definition keywords_table :: "(string \<times> TokenType) list" where
  "keywords_table = [
     (''macro'', TokenMacro), (''quote'', TokenQuote), (''unquote'', TokenUnquote),
     (''comptime'', TokenComptime), (''while'', TokenWhile), (''fn'', TokenFn)]"

lemma keywords_table_agrees: "list_all (\<lambda>(w, t). lookupIdent w = t) keywords_table"
  by code_simp

text \<open>The characters that are a token by themselves whatever follows.\<close>

definition single_types :: "(char \<times> TokenType) list" where
  "single_types = [
     (CHR ''('', TokenLParen), (CHR '')'', TokenRParen), (CHR ''{'', TokenLBrace), (CHR ''}'', TokenRBrace), (CHR ''['', TokenLBracket),
     (CHR '']'', TokenRBracket), (CHR '':'', TokenColon), (CHR '','', TokenComma), (CHR '';'', TokenSemicolon), (CHR ''.'', TokenDot),
     (CHR ''@'', TokenAt), (CHR ''^'', TokenCaret), (CHR ''+'', TokenPlus), (CHR ''-'', TokenMinus), (CHR ''*'', TokenStar),
     (CHR ''/'', TokenSlash), (CHR ''%'', TokenPercent), (CHR ''?'', TokenQuestion)]"

section \<open>State\<close>

record Token =
  tk_Type :: TokenType
  tk_Start :: u32
  tk_Len :: u16
  tk_Line :: u16
  tk_Col :: u16

record LexError =
  le_Line :: nat
  le_Col :: nat
  le_Msg :: string

record Lexer =
  lx_Input :: string
  lx_Position :: nat
  lx_Line :: nat
  lx_Col :: nat
  lx_Errors :: "LexError list"

abbreviation NUL :: char where "NUL \<equiv> CHR 0x00"

definition byte_at :: "string \<Rightarrow> nat \<Rightarrow> char" where
  "byte_at s i = (if i \<ge> length s then NUL else s ! i)"

definition Ch :: "Lexer \<Rightarrow> char" where "Ch l = byte_at (lx_Input l) (lx_Position l)"
definition ReadPosition :: "Lexer \<Rightarrow> nat" where "ReadPosition l = lx_Position l + 1"
definition peekChar :: "Lexer \<Rightarrow> char" where "peekChar l = byte_at (lx_Input l) (ReadPosition l)"

definition readChar :: "Lexer \<Rightarrow> Lexer" where
  "readChar l = l\<lparr>lx_Position := ReadPosition l\<rparr>"

text \<open>\<open>l.readChar(); l.Col++\<close>\<close>

definition advance :: "Lexer \<Rightarrow> Lexer" where
  "advance l = (readChar l)\<lparr>lx_Col := lx_Col l + 1\<rparr>"

definition BOM :: string where "BOM = [CHR 0xEF, CHR 0xBB, CHR 0xBF]"

definition New :: "string \<Rightarrow> Lexer" where
  "New input =
     (let b = (if length input \<ge> 3 \<and> take 3 input = BOM then drop 3 input else input)
      in \<lparr>lx_Input = b, lx_Position = 0, lx_Line = 1, lx_Col = 0, lx_Errors = []\<rparr>)"

definition Literal :: "Token \<Rightarrow> string \<Rightarrow> string" where
  "Literal t src = (if tk_Len t = 0 then [] else take (unat (tk_Len t)) (drop (unat (tk_Start t)) src))"

text \<open>\<open>LiteralBytes\<close> returns the same bytes (\<open>nil\<close> for none), \<open>GetInput\<close> and \<open>GetInputBytes\<close> the text being read.\<close>

definition LiteralBytes :: "Token \<Rightarrow> string \<Rightarrow> string" where
  "LiteralBytes t src = (if tk_Len t = 0 then [] else take (unat (tk_Len t)) (drop (unat (tk_Start t)) src))"

definition GetInput :: "Lexer \<Rightarrow> string" where "GetInput l = lx_Input l"
definition GetInputBytes :: "Lexer \<Rightarrow> string" where "GetInputBytes l = lx_Input l"

definition isLetter :: "char \<Rightarrow> bool" where
  "isLetter c \<longleftrightarrow> (let n = (of_char c :: nat) in (97 \<le> n \<and> n \<le> 122) \<or> (65 \<le> n \<and> n \<le> 90) \<or> c = CHR ''_'')"

definition isDigit :: "char \<Rightarrow> bool" where
  "isDigit c \<longleftrightarrow> (let n = (of_char c :: nat) in 48 \<le> n \<and> n \<le> 57)"

section \<open>Loops\<close>

definition remaining :: "Lexer \<Rightarrow> nat" where
  "remaining l = length (lx_Input l) - lx_Position l"

lemma remaining_advance: "Ch l \<noteq> NUL \<Longrightarrow> remaining (advance l) < remaining l"
  by (auto simp: remaining_def advance_def readChar_def ReadPosition_def Ch_def byte_at_def split: if_splits)

lemma remaining_advance_le: "remaining (advance l) \<le> remaining l"
  by (auto simp: remaining_def advance_def readChar_def ReadPosition_def)

text \<open>\<open>for cond(l.Ch) \{ l.readChar(); l.Col++ \}\<close>; no condition of the code holds of NUL.\<close>

function adv_while :: "(char \<Rightarrow> bool) \<Rightarrow> Lexer \<Rightarrow> Lexer" where
  "adv_while P l = (if Ch l \<noteq> NUL \<and> P (Ch l) then adv_while P (advance l) else l)"
  by auto
termination by (relation "measure (\<lambda>(P, l). remaining l)") (auto simp: remaining_advance)

function skip_space :: "Lexer \<Rightarrow> Lexer" where
  "skip_space l =
     (if Ch l = CHR '' '' \<or> Ch l = CHR 0x09 \<or> Ch l = CHR 0x0A \<or> Ch l = CHR 0x0D then
        (if Ch l = CHR 0x0A then skip_space (readChar (l\<lparr>lx_Line := lx_Line l + 1, lx_Col := 0\<rparr>))
         else skip_space (advance l))
      else l)"
  by auto
termination
  by (relation "measure remaining")
    (auto simp: remaining_advance, auto simp: remaining_def readChar_def ReadPosition_def Ch_def byte_at_def split: if_splits)

text \<open>The loop over a block comment, after its opening.\<close>

function block_comment :: "nat \<Rightarrow> Lexer \<Rightarrow> Lexer" where
  "block_comment depth l =
     (if depth > 0 \<and> Ch l \<noteq> NUL then
        (if Ch l = CHR ''/'' \<and> peekChar l = CHR ''*'' then block_comment (depth + 1) (advance (advance l))
         else if Ch l = CHR ''*'' \<and> peekChar l = CHR ''/'' then block_comment (depth - 1) (advance (advance l))
         else block_comment depth
           (readChar (if Ch l = CHR 0x0A then l\<lparr>lx_Line := lx_Line l + 1, lx_Col := 0\<rparr> else l\<lparr>lx_Col := lx_Col l + 1\<rparr>)))
      else l)"
  by auto
termination
proof (relation "measure (\<lambda>(d, l). remaining l)")
  fix depth :: nat and l assume "depth > 0 \<and> Ch l \<noteq> NUL"
  then have "remaining (advance l) < remaining l" by (simp add: remaining_advance)
  then show "((depth + 1, advance (advance l)), depth, l) \<in> measure (\<lambda>(d, l). remaining l)"
    "((depth - 1, advance (advance l)), depth, l) \<in> measure (\<lambda>(d, l). remaining l)"
    "((depth, readChar (if Ch l = CHR 0x0A then l\<lparr>lx_Line := lx_Line l + 1, lx_Col := 0\<rparr> else l\<lparr>lx_Col := lx_Col l + 1\<rparr>)), depth, l)
       \<in> measure (\<lambda>(d, l). remaining l)"
    using remaining_advance_le [of "advance l"] by (auto simp: remaining_def advance_def readChar_def ReadPosition_def)
qed simp

declare adv_while.simps [simp del] skip_space.simps [simp del] block_comment.simps [simp del]

lemma adv_while_le: "remaining (adv_while P l) \<le> remaining l"
proof (induction P l rule: adv_while.induct)
  case (1 P l)
  then show ?case using remaining_advance_le [of l] by (subst adv_while.simps) auto
qed

lemma skip_space_le: "remaining (skip_space l) \<le> remaining l"
proof (induction l rule: skip_space.induct)
  case (1 l)
  have "remaining (readChar (l\<lparr>lx_Line := lx_Line l + 1, lx_Col := 0\<rparr>)) \<le> remaining l"
    by (simp add: remaining_def readChar_def ReadPosition_def)
  with 1 show ?case using remaining_advance_le [of l] by (subst skip_space.simps) auto
qed

lemma block_comment_le: "remaining (block_comment d l) \<le> remaining l"
proof (induction d l rule: block_comment.induct)
  case (1 d l)
  have "remaining (readChar (if Ch l = CHR 0x0A then l\<lparr>lx_Line := lx_Line l + 1, lx_Col := 0\<rparr> else l\<lparr>lx_Col := lx_Col l + 1\<rparr>)) \<le> remaining l"
    by (simp add: remaining_def readChar_def ReadPosition_def)
  with 1 show ?case using remaining_advance_le [of l] remaining_advance_le [of "advance l"]
    by (subst block_comment.simps) (auto intro: order_trans)
qed

function skipWhitespace :: "Lexer \<Rightarrow> Lexer" where
  "skipWhitespace l =
     (let l1 = skip_space l in
      if Ch l1 = CHR ''/'' \<and> peekChar l1 = CHR ''/'' then skipWhitespace (adv_while (\<lambda>c. c \<noteq> CHR 0x0A) l1)
      else if Ch l1 = CHR ''/'' \<and> peekChar l1 = CHR ''*'' then skipWhitespace (block_comment 1 (advance (advance l1)))
      else l1)"
  by auto
termination
proof (relation "measure remaining")
  fix l l1 assume l1: "l1 = skip_space l"
  have le: "remaining l1 \<le> remaining l" by (simp add: l1 skip_space_le)
  show "(adv_while (\<lambda>c. c \<noteq> CHR 0x0A) l1, l) \<in> measure remaining"
    if "Ch l1 = CHR ''/'' \<and> peekChar l1 = CHR ''/''"
    using that le adv_while_le [of "\<lambda>c. c \<noteq> CHR 0x0A" "advance l1"] remaining_advance [of l1]
    by (subst adv_while.simps) simp
  show "(block_comment 1 (advance (advance l1)), l) \<in> measure remaining"
    if "\<not> (Ch l1 = CHR ''/'' \<and> peekChar l1 = CHR ''/'')" "Ch l1 = CHR ''/'' \<and> peekChar l1 = CHR ''*''"
    using that le block_comment_le [of 1 "advance (advance l1)"] remaining_advance [of l1] remaining_advance_le [of "advance l1"]
    by simp
qed simp

declare skipWhitespace.simps [simp del]

section \<open>Scanners\<close>

definition mk_token :: "TokenType \<Rightarrow> nat \<Rightarrow> nat \<Rightarrow> nat \<Rightarrow> nat \<Rightarrow> Token" where
  "mk_token t start len line col =
     \<lparr>tk_Type = t, tk_Start = of_nat start, tk_Len = of_nat len, tk_Line = of_nat line, tk_Col = of_nat col\<rparr>"

definition slice :: "string \<Rightarrow> nat \<Rightarrow> nat \<Rightarrow> string" where
  "slice s i j = take (j - i) (drop i s)"

definition scanIdentifier :: "Lexer \<Rightarrow> Token \<times> Lexer" where
  "scanIdentifier l =
     (let start = lx_Position l; startLine = lx_Line l; startCol = lx_Col l;
          l = adv_while (\<lambda>c. isLetter c \<or> isDigit c) l
      in (mk_token (lookupIdent (slice (lx_Input l) start (lx_Position l))) start (lx_Position l - start) startLine startCol, l))"

definition scanNumber :: "Lexer \<Rightarrow> Token \<times> Lexer" where
  "scanNumber l =
     (let start = lx_Position l; startLine = lx_Line l; startCol = lx_Col l;
          l = adv_while isDigit l;
          l = (if Ch l = CHR ''.'' then adv_while isDigit (advance l) else l);
          text = slice (lx_Input l) start (lx_Position l)
      in if Contains text ''.'' then
           (if Ch l = CHR ''b'' \<or> Ch l = CHR ''B'' then
              (let l = advance l in (mk_token TokenBigFloat start (lx_Position l - start) startLine startCol, l))
            else (mk_token TokenFloat64 start (lx_Position l - start) startLine startCol, l))
         else
           (if Ch l = CHR ''n'' \<or> Ch l = CHR ''N'' then
              (let l = advance l in (mk_token TokenBigInt start (lx_Position l - start) startLine startCol, l))
            else (mk_token TokenInt start (lx_Position l - start) startLine startCol, l)))"

text \<open>The loop of \<open>scanString\<close>; the flag says that the input ended before the closing quote.\<close>

function string_loop :: "Lexer \<Rightarrow> Lexer \<times> bool" where
  "string_loop l =
     (if Ch l = NUL then (l, True)
      else if Ch l = CHR 0x5C then
        (let l1 = advance l in if Ch l1 \<noteq> NUL then string_loop (advance l1) else string_loop l1)
      else if Ch l = CHR 0x22 then (l, False)
      else string_loop (advance l))"
  by auto
termination
proof (relation "measure remaining")
  fix l l1 assume "Ch l \<noteq> NUL" "l1 = advance l"
  then show "(advance l1, l) \<in> measure remaining" "(l1, l) \<in> measure remaining"
    using remaining_advance [of l] remaining_advance_le [of l1] by simp_all
qed (auto simp: remaining_advance)

declare string_loop.simps [simp del]

definition scanString :: "Lexer \<Rightarrow> Token \<times> Lexer" where
  "scanString l =
     (let startLine = lx_Line l; startCol = lx_Col l; startPos = lx_Position l;
          (l, eof) = string_loop (advance l);
          l = (if eof then l\<lparr>lx_Errors := lx_Errors l @
                 [\<lparr>le_Line = startLine, le_Col = startCol + 1, le_Msg = ''unterminated string literal''\<rparr>]\<rparr> else l);
          tokStart = startPos + 1; tokLen = lx_Position l - tokStart
      in (mk_token TokenString tokStart tokLen startLine startCol, advance l))"

section \<open>NextToken\<close>

text \<open>A token of one character, and of two (the column is that of the first).\<close>

definition one_char :: "TokenType \<Rightarrow> Lexer \<Rightarrow> Token \<times> Lexer" where
  "one_char t l = (mk_token t (lx_Position l) 1 (lx_Line l) (lx_Col l), advance l)"

definition two_char :: "TokenType \<Rightarrow> Lexer \<Rightarrow> Token \<times> Lexer" where
  "two_char t l =
     (let start = lx_Position l; l = advance l in (mk_token t start 2 (lx_Line l) (lx_Col l - 1), advance l))"

text \<open>The operator cases of the switch: the token type and whether it takes two characters.\<close>

definition op_token :: "char \<Rightarrow> char \<Rightarrow> (TokenType \<times> bool) option" where
  "op_token c p =
     (case map_of single_types c of
        Some t \<Rightarrow> Some (t, False)
      | None \<Rightarrow>
        if c = CHR ''='' then
          (if p = CHR ''='' then Some (TokenEqual, True)
           else if p = CHR ''>'' then Some (TokenFatArrow, True) else Some (TokenAssign, False))
        else if c = CHR ''!'' then
          (if p = CHR ''='' then Some (TokenNotEqual, True) else Some (TokenNot, False))
        else if c = CHR ''&'' then
          (if p = CHR ''&'' then Some (TokenAnd, True) else Some (TokenAmp, False))
        else if c = CHR ''|'' then
          (if p = CHR ''|'' then Some (TokenOr, True) else Some (TokenPipe, False))
        else if c = CHR ''<'' then
          (if p = CHR ''-'' then Some (TokenSend, True)
           else if p = CHR ''='' then Some (TokenLessEqual, True)
           else if p = CHR ''<'' then Some (TokenShiftLeft, True) else Some (TokenLessThan, False))
        else if c = CHR ''>'' then
          (if p = CHR ''='' then Some (TokenGreaterEqual, True)
           else if p = CHR ''>'' then Some (TokenShiftRight, True) else Some (TokenGreaterThan, False))
        else None)"

definition NextToken :: "Lexer \<Rightarrow> Token \<times> Lexer" where
  "NextToken l0 =
     (let l = skipWhitespace l0; c = Ch l in
      case op_token c (peekChar l) of
        Some (t, two) \<Rightarrow> if two then two_char t l else one_char t l
      | None \<Rightarrow>
        if c = CHR 0x22 then scanString l
        else if c = NUL then (mk_token TokenEOF (lx_Position l) 0 (lx_Line l) (lx_Col l), advance l)
        else if isLetter c then scanIdentifier l
        else if isDigit c then scanNumber l
        else one_char TokenIllegal l)"

section \<open>Progress\<close>

lemma adv_while_lt: "Ch l \<noteq> NUL \<Longrightarrow> P (Ch l) \<Longrightarrow> remaining (adv_while P l) < remaining l"
  using adv_while_le [of P "advance l"] remaining_advance [of l] by (subst adv_while.simps) simp

lemma string_loop_le: "remaining (fst (string_loop l)) \<le> remaining l"
proof (induction l rule: string_loop.induct)
  case (1 l)
  then show ?case
    using remaining_advance_le [of l] remaining_advance_le [of "advance l"]
    by (subst string_loop.simps) (auto simp: Let_def)
qed

lemma skipWhitespace_le: "remaining (skipWhitespace l) \<le> remaining l"
proof (induction l rule: skipWhitespace.induct)
  case (1 l)
  let ?l = "skip_space l"
  have "remaining (adv_while (\<lambda>c. c \<noteq> CHR 0x0A) ?l) \<le> remaining l"
    using adv_while_le skip_space_le order_trans by blast
  moreover have "remaining (block_comment 1 (advance (advance ?l))) \<le> remaining l"
    using block_comment_le remaining_advance_le skip_space_le by (meson order_trans)
  ultimately show ?case using 1(1) [OF refl] 1(2) [OF refl] skip_space_le [of l]
    by (subst skipWhitespace.simps) (auto simp: Let_def intro: order_trans)
qed

lemma one_char_lt: "Ch l \<noteq> NUL \<Longrightarrow> remaining (snd (one_char t l)) < remaining l"
  by (simp add: one_char_def remaining_advance)

lemma two_char_lt: "Ch l \<noteq> NUL \<Longrightarrow> remaining (snd (two_char t l)) < remaining l"
  using remaining_advance [of l] remaining_advance_le [of "advance l"] by (simp add: two_char_def Let_def)

lemma scanIdentifier_lt: "Ch l \<noteq> NUL \<Longrightarrow> isLetter (Ch l) \<Longrightarrow> remaining (snd (scanIdentifier l)) < remaining l"
  using adv_while_lt [of l "\<lambda>c. isLetter c \<or> isDigit c"] by (simp add: scanIdentifier_def Let_def)

lemma scanNumber_lt: "Ch l \<noteq> NUL \<Longrightarrow> isDigit (Ch l) \<Longrightarrow> remaining (snd (scanNumber l)) < remaining l"
proof -
  assume "Ch l \<noteq> NUL" "isDigit (Ch l)"
  then have 1: "remaining (adv_while isDigit l) < remaining l" by (rule adv_while_lt)
  define l2 where "l2 = (if Ch (adv_while isDigit l) = CHR ''.'' then adv_while isDigit (advance (adv_while isDigit l)) else adv_while isDigit l)"
  have 2: "remaining l2 < remaining l"
    using 1 adv_while_le [of isDigit "advance (adv_while isDigit l)"] remaining_advance_le [of "adv_while isDigit l"]
    by (simp add: l2_def)
  have "snd (scanNumber l) = l2 \<or> snd (scanNumber l) = advance l2"
    by (simp add: scanNumber_def Let_def l2_def [symmetric])
  with 2 remaining_advance_le [of l2] show ?thesis by auto
qed

lemma scanString_lt: "Ch l \<noteq> NUL \<Longrightarrow> remaining (snd (scanString l)) < remaining l"
proof -
  assume "Ch l \<noteq> NUL"
  then have "remaining (fst (string_loop (advance l))) < remaining l"
    using remaining_advance [of l] string_loop_le [of "advance l"] by simp
  moreover obtain l2 eof where l2: "string_loop (advance l) = (l2, eof)" by fastforce
  moreover have "remaining (advance (l2\<lparr>lx_Errors := e\<rparr>)) \<le> remaining l2" for e
    by (simp add: remaining_def advance_def readChar_def ReadPosition_def)
  ultimately show ?thesis
    using remaining_advance_le [of l2] by (cases eof) (auto simp: scanString_def Let_def intro: le_less_trans)
qed

lemma op_token_not: "op_token NUL p = None" "op_token c p = Some (t, two) \<Longrightarrow> c \<noteq> NUL \<and> t \<noteq> TokenEOF"
  by (auto simp: op_token_def single_types_def split: if_splits)

lemma NextToken_progress:
  assumes "tk_Type (fst (NextToken l)) \<noteq> TokenEOF"
  shows "remaining (snd (NextToken l)) < remaining l"
proof -
  let ?l = "skipWhitespace l"
  have ne: "Ch ?l \<noteq> NUL" using assms by (auto simp: NextToken_def Let_def mk_token_def op_token_not)
  have "remaining (snd (NextToken l)) < remaining ?l"
    using one_char_lt [OF ne] two_char_lt [OF ne] scanString_lt [OF ne] scanIdentifier_lt [OF ne] scanNumber_lt [OF ne] ne
    by (simp add: NextToken_def Let_def split: option.split prod.split)
  then show ?thesis using skipWhitespace_le [of l] by simp
qed

function tokens :: "Lexer \<Rightarrow> Token list \<times> Lexer" where
  "tokens l =
     (let (t, l') = NextToken l in
      if tk_Type t = TokenEOF then ([t], l') else let (ts, l'') = tokens l' in (t # ts, l''))"
  by auto
termination
proof (relation "measure remaining")
  fix l x t l' assume "x = NextToken l" "(t, l') = x" "tk_Type t \<noteq> TokenEOF"
  then show "(l', l) \<in> measure remaining" using NextToken_progress [of l] by (metis fst_conv in_measure snd_conv)
qed simp

declare tokens.simps [simp del]

section \<open>Blocks of C text\<close>

text \<open>The loop of \<open>readCBlock\<close>, which reads a character before it looks at it.\<close>

function c_block_loop :: "nat \<Rightarrow> Lexer \<Rightarrow> Lexer" where
  "c_block_loop braceDepth l =
     (let l1 = readChar l in
      if Ch l1 = NUL then l1
      else
        (let d = (if Ch l1 = CHR ''{'' then braceDepth + 1 else braceDepth) in
         if Ch l1 = CHR ''}'' then (if d - 1 = 0 then l1 else c_block_loop (d - 1) l1)
         else c_block_loop d l1))"
  by auto
termination
  by (relation "measure (\<lambda>(d, l). Suc (length (lx_Input l)) - lx_Position l)")
    (auto simp: readChar_def ReadPosition_def Ch_def byte_at_def split: if_splits)

declare c_block_loop.simps [simp del]

definition readCBlock :: "Lexer \<Rightarrow> string \<times> Lexer" where
  "readCBlock l =
     (let pos = lx_Position l + 1; l1 = c_block_loop 1 l
      in (slice (lx_Input l1) pos (lx_Position l1), readChar l1))"


end
