(* ===== verification/Lexer_Props.thy ===== *)
theory Lexer_Props
  imports Lexer
begin

text \<open>
  What the lexer returns: a text of lexemes, blanks, line breaks and comments is read back as the
  tokens of its lexemes; the tokens of any input are in order and inside it.  And where the widths of
  the token fields and the line count of strings show.
\<close>

section \<open>The input from the current position on\<close>

definition rest :: "Lexer \<Rightarrow> string" where
  "rest l = drop (lx_Position l) (lx_Input l)"

definition next_char :: "string \<Rightarrow> char" where
  "next_char s = (case s of [] \<Rightarrow> NUL | c # _ \<Rightarrow> c)"

lemma next_char_simps [simp]: "next_char [] = NUL" "next_char (c # s) = c"
  by (simp_all add: next_char_def)

lemma Ch_rest: "Ch l = next_char (rest l)"
proof (cases "lx_Position l < length (lx_Input l)")
  case True
  then show ?thesis by (simp add: Ch_def byte_at_def rest_def Cons_nth_drop_Suc [symmetric])
qed (simp add: Ch_def byte_at_def rest_def)

lemma peekChar_rest: "peekChar l = next_char (tl (rest l))"
proof (cases "lx_Position l + 1 < length (lx_Input l)")
  case True
  then show ?thesis
    by (simp add: peekChar_def ReadPosition_def byte_at_def rest_def Cons_nth_drop_Suc [symmetric])
next
  case False
  then have "length (rest l) \<le> 1" by (simp add: rest_def)
  then show ?thesis using False
    by (cases "rest l") (auto simp: peekChar_def ReadPosition_def byte_at_def split: list.split)
qed

text \<open>Moving \<open>n\<close> characters to the right on the same line.\<close>

definition move :: "nat \<Rightarrow> Lexer \<Rightarrow> Lexer" where
  "move n l = l\<lparr>lx_Position := lx_Position l + n, lx_Col := lx_Col l + n\<rparr>"

lemma move_simps [simp]:
  "lx_Input (move n l) = lx_Input l" "lx_Position (move n l) = lx_Position l + n" "lx_Line (move n l) = lx_Line l"
  "lx_Col (move n l) = lx_Col l + n" "lx_Errors (move n l) = lx_Errors l"
  "move 0 l = l" "move m (move n l) = move (n + m) l" "rest (move n l) = drop n (rest l)"
  by (simp_all add: move_def rest_def add.commute add.assoc)

lemma advance_move: "advance l = move 1 l"
  by (simp add: advance_def readChar_def ReadPosition_def move_def)

lemma adv_while_move: "adv_while P l = move (length (takeWhile (\<lambda>c. c \<noteq> NUL \<and> P c) (rest l))) l"
proof (induction P l rule: adv_while.induct)
  case (1 P l)
  show ?case
  proof (cases "Ch l \<noteq> NUL \<and> P (Ch l)")
    case True
    then obtain c s where "rest l = c # s" by (cases "rest l") (auto simp: Ch_rest)
    with True 1 show ?thesis by (subst adv_while.simps) (simp add: Ch_rest advance_move)
  next
    case False
    then have "takeWhile (\<lambda>c. c \<noteq> NUL \<and> P c) (rest l) = []" by (cases "rest l") (auto simp: Ch_rest)
    moreover have "adv_while P l = l" using False by (subst adv_while.simps) auto
    ultimately show ?thesis by simp
  qed
qed

lemma adv_while_span:
  assumes "rest l = w @ s" "\<forall>c \<in> set w. c \<noteq> NUL \<and> P c" "next_char s = NUL \<or> \<not> P (next_char s)"
  shows "adv_while P l = move (length w) l"
proof -
  have "takeWhile (\<lambda>c. c \<noteq> NUL \<and> P c) s = []" using assms(3) by (cases s) auto
  with assms(1,2) have "takeWhile (\<lambda>c. c \<noteq> NUL \<and> P c) (rest l) = w" by (simp add: takeWhile_append2)
  then show ?thesis by (simp add: adv_while_move)
qed

section \<open>Lexemes\<close>

text \<open>The spelling of every operator and its token type, as a table of its own.\<close>

definition operators :: "(string \<times> TokenType) list" where
  "operators = [
     (''('', TokenLParen), ('')'', TokenRParen), (''{'', TokenLBrace), (''}'', TokenRBrace), (''['', TokenLBracket),
     ('']'', TokenRBracket), ('':'', TokenColon), ('','', TokenComma), ('';'', TokenSemicolon), (''.'', TokenDot),
     (''@'', TokenAt), (''^'', TokenCaret), (''+'', TokenPlus), (''-'', TokenMinus), (''*'', TokenStar),
     (''/'', TokenSlash), (''%'', TokenPercent), (''?'', TokenQuestion), (''='', TokenAssign), (''!'', TokenNot),
     (''&'', TokenAmp), (''|'', TokenPipe), (''<'', TokenLessThan), (''>'', TokenGreaterThan), (''=='', TokenEqual),
     (''=>'', TokenFatArrow), (''!='', TokenNotEqual), (''&&'', TokenAnd), (''||'', TokenOr), (''<-'', TokenSend),
     (''<='', TokenLessEqual), (''<<'', TokenShiftLeft), (''>='', TokenGreaterEqual), (''>>'', TokenShiftRight)]"

datatype lexeme = Word string | IntLit string | FloatLit string string | BigIntLit string
  | BigFloatLit string string | StrLit string | Operator string

fun lexeme_text :: "lexeme \<Rightarrow> string" where
  "lexeme_text (Word w) = w"
| "lexeme_text (IntLit d) = d"
| "lexeme_text (FloatLit a b) = a @ ''.'' @ b"
| "lexeme_text (BigIntLit d) = d @ ''n''"
| "lexeme_text (BigFloatLit a b) = a @ ''.'' @ b @ ''b''"
| "lexeme_text (StrLit s) = [CHR 0x22] @ s @ [CHR 0x22]"
| "lexeme_text (Operator p) = p"

fun lexeme_literal :: "lexeme \<Rightarrow> string" where
  "lexeme_literal (StrLit s) = s"
| "lexeme_literal x = lexeme_text x"

fun lexeme_type :: "lexeme \<Rightarrow> TokenType" where
  "lexeme_type (Word w) = lookupIdent w"
| "lexeme_type (IntLit _) = TokenInt"
| "lexeme_type (FloatLit _ _) = TokenFloat64"
| "lexeme_type (BigIntLit _) = TokenBigInt"
| "lexeme_type (BigFloatLit _ _) = TokenBigFloat"
| "lexeme_type (StrLit _) = TokenString"
| "lexeme_type (Operator p) = the (map_of operators p)"

text \<open>The text between the quotes of a string literal: characters that are no quote, backslash or
  NUL, and a backslash with the character it escapes.\<close>

fun string_body :: "string \<Rightarrow> bool" where
  "string_body [] \<longleftrightarrow> True"
| "string_body (c # s) \<longleftrightarrow>
     (if c = CHR 0x5C then (case s of [] \<Rightarrow> False | d # s' \<Rightarrow> d \<noteq> NUL \<and> string_body s')
      else c \<noteq> NUL \<and> c \<noteq> CHR 0x22 \<and> string_body s)"

fun wf_lexeme :: "lexeme \<Rightarrow> bool" where
  "wf_lexeme (Word w) \<longleftrightarrow> w \<noteq> [] \<and> isLetter (hd w) \<and> list_all (\<lambda>c. isLetter c \<or> isDigit c) w"
| "wf_lexeme (IntLit d) \<longleftrightarrow> d \<noteq> [] \<and> list_all isDigit d"
| "wf_lexeme (FloatLit a b) \<longleftrightarrow> a \<noteq> [] \<and> list_all isDigit a \<and> list_all isDigit b"
| "wf_lexeme (BigIntLit d) \<longleftrightarrow> d \<noteq> [] \<and> list_all isDigit d"
| "wf_lexeme (BigFloatLit a b) \<longleftrightarrow> a \<noteq> [] \<and> list_all isDigit a \<and> list_all isDigit b"
| "wf_lexeme (StrLit s) \<longleftrightarrow> string_body s"
| "wf_lexeme (Operator p) \<longleftrightarrow> map_of operators p \<noteq> None"

text \<open>The text after a lexeme does not continue it.\<close>

fun stops :: "lexeme \<Rightarrow> string \<Rightarrow> bool" where
  "stops (Word w) s \<longleftrightarrow> \<not> isLetter (next_char s) \<and> \<not> isDigit (next_char s)"
| "stops (IntLit d) s \<longleftrightarrow> \<not> isDigit (next_char s) \<and> next_char s \<notin> {CHR ''.'', CHR ''n'', CHR ''N''}"
| "stops (FloatLit a b) s \<longleftrightarrow> \<not> isDigit (next_char s) \<and> next_char s \<notin> {CHR ''b'', CHR ''B''}"
| "stops (BigIntLit d) s \<longleftrightarrow> True"
| "stops (BigFloatLit a b) s \<longleftrightarrow> True"
| "stops (StrLit t) s \<longleftrightarrow> True"
| "stops (Operator p) s \<longleftrightarrow>
     (length p = 1 \<longrightarrow> map_of operators (p @ [next_char s]) = None \<and> p @ [next_char s] \<noteq> ''//'' \<and> p @ [next_char s] \<noteq> ''/*'')"

text \<open>The token of a lexeme at a position, in a line and a column.\<close>

definition lexeme_token :: "nat \<Rightarrow> nat \<Rightarrow> nat \<Rightarrow> lexeme \<Rightarrow> Token" where
  "lexeme_token p ln cl x =
     mk_token (lexeme_type x) (case x of StrLit _ \<Rightarrow> p + 1 | _ \<Rightarrow> p) (length (lexeme_literal x)) ln cl"

section \<open>Characters\<close>

lemma not_letter [simp]: "\<not> isLetter NUL" "\<not> isLetter (CHR '' '')" "\<not> isDigit NUL" "\<not> isDigit (CHR '' '')"
  "\<not> isDigit (CHR ''.'')" "\<not> isDigit (CHR ''n'')" "\<not> isDigit (CHR ''b'')"
  by (simp_all add: isLetter_def isDigit_def)

definition op_chars :: string where
  "op_chars = map fst single_types @ ''=!&|<>''"

lemma op_chars_not: "list_all (\<lambda>c. \<not> isLetter c \<and> \<not> isDigit c) op_chars"
  "list_all (\<lambda>c. c \<notin> {CHR 0x22, CHR '' '', CHR 0x09, CHR 0x0A, CHR 0x0D, NUL}) op_chars"
  by (simp_all add: op_chars_def single_types_def isLetter_def isDigit_def)

lemma op_token_chars: "op_token c p = Some r \<Longrightarrow> c \<in> set op_chars"
proof (cases "map_of single_types c")
  case None
  then show "op_token c p = Some r \<Longrightarrow> c \<in> set op_chars" by (simp add: op_token_def op_chars_def split: if_splits)
next
  case (Some t)
  from map_of_SomeD [OF this] show "c \<in> set op_chars" by (force simp: op_chars_def)
qed

text \<open>The switch of \<open>NextToken\<close> takes the longest operator of the table.\<close>

lemma operators_first: "map_of operators p \<noteq> None \<Longrightarrow> (length p = 1 \<or> length p = 2) \<and> hd p \<in> set op_chars"
proof -
  have "list_all (\<lambda>(p, t). (length p = 1 \<or> length p = 2) \<and> hd p \<in> set op_chars) operators" by code_simp
  then show "map_of operators p \<noteq> None \<Longrightarrow> ?thesis" by (auto simp: list_all_iff dest!: map_of_SomeD)
qed

lemma op_token_table:
  "op_token c d = (case map_of operators [c, d] of Some t \<Rightarrow> Some (t, True)
     | None \<Rightarrow> map_option (\<lambda>t. (t, False)) (map_of operators [c]))"
proof (cases "c \<in> set op_chars")
  case True
  then show ?thesis by (auto simp: op_chars_def single_types_def op_token_def operators_def)
next
  case False
  then have "map_of operators [c, d] = None" "map_of operators [c] = None"
    using operators_first [of "[c, d]"] operators_first [of "[c]"] by fastforce+
  moreover have "op_token c d = None" using False op_token_chars [of c d] by (cases "op_token c d") auto
  ultimately show ?thesis by simp
qed

lemma letter_not_op: "isLetter c \<or> isDigit c \<Longrightarrow> op_token c p = None"
  using op_token_chars [of c p] op_chars_not(1) by (cases "op_token c p") (auto simp: list_all_iff)

lemma letter_not_space:
  "isLetter c \<or> isDigit c \<Longrightarrow> c \<notin> {CHR 0x22, CHR '' '', CHR 0x09, CHR 0x0A, CHR 0x0D, CHR ''/'', NUL}"
  by (auto simp: isLetter_def isDigit_def)

lemma letter_not_digit: "isLetter c \<Longrightarrow> \<not> isDigit c"
  by (auto simp: isLetter_def isDigit_def Let_def)

lemma op_not_space: "op_token c p = Some r \<Longrightarrow> c \<notin> {CHR 0x22, CHR '' '', CHR 0x09, CHR 0x0A, CHR 0x0D, NUL}"
  using op_token_chars [of c p] op_chars_not(2) unfolding list_all_iff by blast

lemma Contains_digits: "list_all isDigit d \<Longrightarrow> \<not> Contains d ''.''"
  by (induction d) (auto simp: isDigit_def HasPrefix_def)

lemma Contains_dot: "Contains (a @ ''.'' @ b) ''.''"
  by (induction a) (auto simp: HasPrefix_def)

section \<open>One lexeme\<close>

lemma skip_here:
  assumes "rest l = c # s" "c \<notin> {CHR '' '', CHR 0x09, CHR 0x0A, CHR 0x0D}"
    and "c = CHR ''/'' \<Longrightarrow> next_char s \<noteq> CHR ''/'' \<and> next_char s \<noteq> CHR ''*''"
  shows "skipWhitespace l = l"
proof -
  have "skip_space l = l" using assms(1,2) by (subst skip_space.simps) (simp add: Ch_rest)
  then show ?thesis using assms(1,3)
    by (subst skipWhitespace.simps) (auto simp: Let_def Ch_rest peekChar_rest)
qed

lemma Literal_token:
  assumes "n < 2 ^ 16" "p < 2 ^ 32"
  shows "Literal (mk_token t p n ln cl) src = take n (drop p src)"
proof -
  have "Literal t src = take (unat (tk_Len t)) (drop (unat (tk_Start t)) src)" for t by (simp add: Literal_def)
  moreover have "unat (of_nat n :: u16) = n" "unat (of_nat p :: u32) = p" using assms by (simp_all add: unat_of_nat)
  ultimately show ?thesis by (simp add: mk_token_def)
qed

text \<open>What a scanner returns on a lexeme, relative to the state before it.\<close>

abbreviation lexed :: "Lexer \<Rightarrow> lexeme \<Rightarrow> Token \<times> Lexer" where
  "lexed l x \<equiv> (lexeme_token (lx_Position l) (lx_Line l) (lx_Col l) x, move (length (lexeme_text x)) l)"

lemma rest_take: "rest l = w @ s \<Longrightarrow> slice (lx_Input l) (lx_Position l) (lx_Position l + length w) = w"
  by (simp add: rest_def slice_def)

lemma lexes_word:
  assumes "rest l = w @ s" "wf_lexeme (Word w)" "stops (Word w) s"
  shows "scanIdentifier l = lexed l (Word w)"
proof -
  have "\<forall>c \<in> set w. c \<noteq> NUL \<and> (isLetter c \<or> isDigit c)" using assms(2) by (auto simp: list_all_iff)
  then have a: "adv_while (\<lambda>c. isLetter c \<or> isDigit c) l = move (length w) l"
    using assms(3) by (intro adv_while_span [OF assms(1)]) auto
  show ?thesis using rest_take [OF assms(1)] by (simp add: scanIdentifier_def Let_def a lexeme_token_def)
qed

lemma digits_span:
  assumes "rest l = d @ s" "list_all isDigit d" "\<not> isDigit (next_char s)"
  shows "adv_while isDigit l = move (length d) l"
  using assms by (intro adv_while_span [OF assms(1)]) (auto simp: list_all_iff)

lemma Ch_move: "rest l = w @ s \<Longrightarrow> Ch (move (length w) l) = next_char s"
  by (simp add: Ch_rest)

lemma lexes_int:
  assumes "rest l = d @ s" "wf_lexeme (IntLit d)" "stops (IntLit d) s"
  shows "scanNumber l = lexed l (IntLit d)"
proof -
  have a: "adv_while isDigit l = move (length d) l" using assms(2,3) by (intro digits_span [OF assms(1)]) simp_all
  show ?thesis using rest_take [OF assms(1)] assms(2,3)
    by (simp add: scanNumber_def Let_def a Ch_move [OF assms(1)] Contains_digits lexeme_token_def)
qed

lemma lexes_bigint:
  assumes "rest l = d @ CHR ''n'' # s" "wf_lexeme (BigIntLit d)"
  shows "scanNumber l = lexed l (BigIntLit d)"
proof -
  have a: "adv_while isDigit l = move (length d) l" using assms(2) by (intro digits_span [OF assms(1)]) (simp_all add: next_char_def)
  show ?thesis using rest_take [OF assms(1)] assms(2)
    by (simp add: scanNumber_def Let_def a Ch_move [OF assms(1)] Contains_digits lexeme_token_def advance_move next_char_def)
qed

lemma fraction_span:
  assumes "rest l = a @ ''.'' @ b @ s" "list_all isDigit a" "list_all isDigit b" "\<not> isDigit (next_char s)"
  shows "adv_while isDigit l = move (length a) l" "Ch (move (length a) l) = CHR ''.''"
    "adv_while isDigit (advance (move (length a) l)) = move (length a + 1 + length b) l"
    "Ch (move (length a + 1 + length b) l) = next_char s"
    "slice (lx_Input l) (lx_Position l) (lx_Position l + (length a + 1 + length b)) = a @ ''.'' @ b"
proof -
  show "adv_while isDigit l = move (length a) l" using assms by (intro digits_span [OF assms(1)]) (simp_all add: next_char_def)
  show "Ch (move (length a) l) = CHR ''.''" using Ch_move [OF assms(1)] by (simp add: next_char_def)
  have "rest (advance (move (length a) l)) = b @ s" using assms(1) by (simp add: advance_move)
  from digits_span [OF this assms(3,4)]
  show "adv_while isDigit (advance (move (length a) l)) = move (length a + 1 + length b) l" by (simp add: advance_move)
  have r: "rest l = (a @ ''.'' @ b) @ s" using assms(1) by simp
  show "Ch (move (length a + 1 + length b) l) = next_char s" using Ch_move [OF r] by simp
  show "slice (lx_Input l) (lx_Position l) (lx_Position l + (length a + 1 + length b)) = a @ ''.'' @ b" using rest_take [OF r] by simp
qed

lemma lexes_float:
  assumes "rest l = a @ ''.'' @ b @ s" "wf_lexeme (FloatLit a b)" "stops (FloatLit a b) s"
  shows "scanNumber l = lexed l (FloatLit a b)"
proof -
  from assms(2,3) have d: "list_all isDigit a" "list_all isDigit b" "\<not> isDigit (next_char s)" by simp_all
  show ?thesis using fraction_span [OF assms(1) d] Contains_dot [of a b] assms(3)
    by (simp add: scanNumber_def Let_def lexeme_token_def)
qed

lemma lexes_bigfloat:
  assumes "rest l = a @ ''.'' @ b @ CHR ''b'' # s" "wf_lexeme (BigFloatLit a b)"
  shows "scanNumber l = lexed l (BigFloatLit a b)"
proof -
  from assms(2) have d: "list_all isDigit a" "list_all isDigit b" "\<not> isDigit (next_char (CHR ''b'' # s))"
    by (simp_all add: next_char_def)
  show ?thesis using fraction_span [OF assms(1) d] Contains_dot [of a b]
    by (simp add: scanNumber_def Let_def lexeme_token_def advance_move next_char_def)
qed

lemma string_loop_body:
  assumes "rest l = w @ CHR 0x22 # s" "string_body w"
  shows "string_loop l = (move (length w) l, False)"
  using assms
proof (induction w arbitrary: l rule: string_body.induct)
  case 1
  then show ?case by (subst string_loop.simps) (simp add: Ch_rest)
next
  case (2 c w)
  show ?case
  proof (cases "c = CHR 0x5C")
    case True
    with 2(4) obtain d w' where w: "w = d # w'" "d \<noteq> NUL" "string_body w'" by (auto split: list.splits)
    have "rest (move 2 l) = w' @ CHR 0x22 # s" using 2(3) w(1) by simp
    from 2(1) [OF True w(1) this w(3)] have "string_loop (move 2 l) = (move (length w' + 2) l, False)" by (simp add: add.commute)
    moreover have "Ch l = CHR 0x5C" "Ch (move 1 l) = d" using 2(3) True w(1) by (simp_all add: Ch_rest next_char_def)
    ultimately show ?thesis using w(1,2) by (subst string_loop.simps) (simp add: Let_def advance_move numeral_2_eq_2)
  next
    case False
    have "rest (move 1 l) = w @ CHR 0x22 # s" using 2(3) by simp
    from 2(2) [OF False this] 2(4) False have "string_loop (move 1 l) = (move (Suc (length w)) l, False)" by simp
    moreover have "Ch l = c" using 2(3) by (simp add: Ch_rest)
    ultimately show ?thesis using 2(4) False by (subst string_loop.simps) (simp add: advance_move)
  qed
qed

lemma scanString_body:
  assumes "rest l = CHR 0x22 # w @ CHR 0x22 # s" "string_body w"
  shows "scanString l = lexed l (StrLit w)"
proof -
  have "rest (move 1 l) = w @ CHR 0x22 # s" using assms(1) by simp
  from string_loop_body [OF this assms(2)] show ?thesis
    by (simp add: scanString_def Let_def advance_move lexeme_token_def)
qed

lemma lexes_operator:
  assumes "rest l = p @ s" "wf_lexeme (Operator p)" "stops (Operator p) s"
  shows "skipWhitespace l = l \<and> NextToken l = lexed l (Operator p)"
proof -
  obtain t where t: "map_of operators p = Some t" using assms(2) by auto
  consider c where "p = [c]" | c d where "p = [c, d]"
    using operators_first [of p] t by (auto simp: length_Suc_conv numeral_2_eq_2)
  then show ?thesis
  proof cases
    case (1 c)
    have r: "rest l = c # s" using assms(1) 1 by simp
    have o: "op_token c (next_char s) = Some (t, False)" using t assms(3) 1 by (simp add: op_token_table)
    have k: "skipWhitespace l = l" using op_not_space [OF o] assms(3) 1 by (intro skip_here [OF r]) auto
    then show ?thesis using o r t 1
      by (simp add: NextToken_def Let_def Ch_rest peekChar_rest one_char_def lexeme_token_def advance_move)
  next
    case (2 c d)
    have r: "rest l = c # d # s" using assms(1) 2 by simp
    have o: "op_token c d = Some (t, True)" using t 2 by (simp add: op_token_table)
    have "c \<noteq> CHR ''/''" using o by (auto simp: op_token_def single_types_def)
    with op_not_space [OF o] have k: "skipWhitespace l = l" by (intro skip_here [OF r]) auto
    then show ?thesis using o r t 2
      by (simp add: NextToken_def Let_def Ch_rest peekChar_rest two_char_def lexeme_token_def advance_move numeral_2_eq_2)
  qed
qed

lemma NextToken_word_number:
  assumes "rest l = c # s" "isLetter c \<or> isDigit c"
  shows "skipWhitespace l = l \<and> NextToken l = (if isLetter c then scanIdentifier l else scanNumber l)"
proof -
  have k: "skipWhitespace l = l" using letter_not_space [OF assms(2)] by (intro skip_here [OF assms(1)]) auto
  show ?thesis using k assms letter_not_space [OF assms(2)] letter_not_op [OF assms(2)]
    by (auto simp: NextToken_def Let_def Ch_rest)
qed

lemma NextToken_lexeme:
  assumes r: "rest l = lexeme_text x @ s" and w: "wf_lexeme x" and p: "stops x s"
  shows "skipWhitespace l = l \<and> NextToken l = lexed l x"
proof -
  have num: "skipWhitespace l = l \<and> NextToken l = scanNumber l" if "rest l = d @ s'" "d \<noteq> []" "list_all isDigit d" for d s'
    using that NextToken_word_number [of l "hd d" "tl d @ s'"] letter_not_digit [of "hd d"] by (cases d) auto
  show ?thesis
  proof (cases x)
    case (Word a)
    with w have "isLetter (hd a)" "a \<noteq> []" by simp_all
    then have "skipWhitespace l = l \<and> NextToken l = scanIdentifier l"
      using r Word NextToken_word_number [of l "hd a" "tl a @ s"] by (cases a) auto
    with lexes_word [of l a s] r w p Word show ?thesis by simp
  next
    case (IntLit d)
    with num [of d s] lexes_int [of l d s] r w p show ?thesis by simp
  next
    case (FloatLit a c)
    with num [of a "''.'' @ c @ s"] lexes_float [of l a c s] r w p show ?thesis by simp
  next
    case (BigIntLit d)
    with num [of d "''n'' @ s"] lexes_bigint [of l d s] r w show ?thesis by simp
  next
    case (BigFloatLit a c)
    with num [of a "''.'' @ c @ ''b'' @ s"] lexes_bigfloat [of l a c s] r w show ?thesis by simp
  next
    case (StrLit a)
    with r have q: "rest l = CHR 0x22 # a @ CHR 0x22 # s" by simp
    have k: "skipWhitespace l = l" by (rule skip_here [OF q]) simp_all
    have "op_token (CHR 0x22) y = None" for y by (simp add: op_token_def single_types_def)
    with k q have "NextToken l = scanString l" by (simp add: NextToken_def Let_def Ch_rest next_char_def)
    with k scanString_body [OF q] w StrLit show ?thesis by simp
  next
    case (Operator q)
    with lexes_operator [of l q s] r w p show ?thesis by simp
  qed
qed

lemma NextToken_skip: "skipWhitespace l = skipWhitespace l' \<Longrightarrow> NextToken l = NextToken l'"
  by (simp add: NextToken_def)

lemma tokens_skip: "skipWhitespace l = skipWhitespace l' \<Longrightarrow> tokens l = tokens l'"
  using NextToken_skip [of l l'] by (subst (1 2) tokens.simps) simp

lemma tokens_step:
  assumes "NextToken l = (t, l')" "tk_Type t \<noteq> TokenEOF"
  shows "tokens l = (t # fst (tokens l'), snd (tokens l'))"
  using assms by (subst tokens.simps) (simp split: prod.split)

lemma lexeme_type_not_EOF: "wf_lexeme x \<Longrightarrow> lexeme_type x \<noteq> TokenEOF"
proof (cases x)
  case (Word w)
  have "lookupIdent w \<noteq> TokenEOF" by (auto simp: lookupIdent_def ident_types_def)
  with Word show ?thesis by simp
next
  case (Operator p)
  have "list_all (\<lambda>(p, t). t \<noteq> TokenEOF) operators" by code_simp
  with Operator show "wf_lexeme x \<Longrightarrow> ?thesis" by (force simp: list_all_iff dest: map_of_SomeD)
qed simp_all

section \<open>Texts\<close>

text \<open>A source text is a sequence of lexemes, blanks, line breaks and line comments.  A lexeme must not
  be continued by what follows it, and a comment extends to the end of its line.\<close>

datatype elem = Lx lexeme | Sp char | Nl | Cm string

fun elem_text :: "elem \<Rightarrow> string" where
  "elem_text (Lx x) = lexeme_text x"
| "elem_text (Sp c) = [c]"
| "elem_text Nl = [CHR 0x0A]"
| "elem_text (Cm c) = ''//'' @ c"

definition elems_text :: "elem list \<Rightarrow> string" where
  "elems_text es = concat (map elem_text es)"

lemma elems_text_simps [simp]: "elems_text [] = []" "elems_text (e # es) = elem_text e @ elems_text es"
  "elems_text (es @ es') = elems_text es @ elems_text es'"
  by (simp_all add: elems_text_def)

fun wf_elems :: "elem list \<Rightarrow> bool" where
  "wf_elems [] \<longleftrightarrow> True"
| "wf_elems (Lx x # es) \<longleftrightarrow> wf_lexeme x \<and> stops x (elems_text es) \<and> wf_elems es"
| "wf_elems (Sp c # es) \<longleftrightarrow> c \<in> {CHR '' '', CHR 0x09, CHR 0x0D} \<and> wf_elems es"
| "wf_elems (Nl # es) \<longleftrightarrow> wf_elems es"
| "wf_elems (Cm c # es) \<longleftrightarrow> CHR 0x0A \<notin> set c \<and> NUL \<notin> set c \<and> (es = [] \<or> hd es = Nl) \<and> wf_elems es"

text \<open>The tokens of a text from a position, line and column on.\<close>

fun elem_tokens :: "nat \<Rightarrow> nat \<Rightarrow> nat \<Rightarrow> elem list \<Rightarrow> Token list" where
  "elem_tokens p ln cl [] = [mk_token TokenEOF p 0 ln cl]"
| "elem_tokens p ln cl (Lx x # es) =
     lexeme_token p ln cl x # elem_tokens (p + length (lexeme_text x)) ln (cl + length (lexeme_text x)) es"
| "elem_tokens p ln cl (Sp c # es) = elem_tokens (p + 1) ln (cl + 1) es"
| "elem_tokens p ln cl (Nl # es) = elem_tokens (p + 1) (ln + 1) 0 es"
| "elem_tokens p ln cl (Cm c # es) = elem_tokens (p + (2 + length c)) ln (cl + (2 + length c)) es"

fun lexemes :: "elem list \<Rightarrow> lexeme list" where
  "lexemes [] = []"
| "lexemes (Lx x # es) = x # lexemes es"
| "lexemes (Sp c # es) = lexemes es"
| "lexemes (Nl # es) = lexemes es"
| "lexemes (Cm c # es) = lexemes es"

lemma skip_blank:
  assumes "rest l = c # s" "c \<in> {CHR '' '', CHR 0x09, CHR 0x0D}"
  shows "skipWhitespace l = skipWhitespace (move 1 l)"
proof -
  have "skip_space l = skip_space (move 1 l)"
    using assms by (subst skip_space.simps) (auto simp: Ch_rest advance_move)
  then show ?thesis by (subst (1 2) skipWhitespace.simps) simp
qed

definition next_line :: "Lexer \<Rightarrow> Lexer" where
  "next_line l = l\<lparr>lx_Position := lx_Position l + 1, lx_Line := lx_Line l + 1, lx_Col := 0\<rparr>"

lemma next_line_simps [simp]:
  "lx_Input (next_line l) = lx_Input l" "lx_Position (next_line l) = lx_Position l + 1" "lx_Line (next_line l) = lx_Line l + 1"
  "lx_Col (next_line l) = 0" "lx_Errors (next_line l) = lx_Errors l" "rest (next_line l) = tl (rest l)"
  by (simp_all add: next_line_def rest_def drop_Suc tl_drop [symmetric])

lemma skip_newline:
  assumes "rest l = CHR 0x0A # s"
  shows "skipWhitespace l = skipWhitespace (next_line l)"
proof -
  have "readChar (l\<lparr>lx_Line := lx_Line l + 1, lx_Col := 0\<rparr>) = next_line l"
    by (simp add: readChar_def ReadPosition_def next_line_def)
  then have "skip_space l = skip_space (next_line l)"
    using assms by (subst skip_space.simps) (simp add: Ch_rest)
  then show ?thesis by (subst (1 2) skipWhitespace.simps) simp
qed

lemma skip_comment:
  assumes "rest l = ''//'' @ c @ s" "CHR 0x0A \<notin> set c" "NUL \<notin> set c" "s = [] \<or> hd s = CHR 0x0A"
  shows "skipWhitespace l = skipWhitespace (move (2 + length c) l)"
proof -
  have k: "skip_space l = l" using assms(1) by (subst skip_space.simps) (simp add: Ch_rest)
  have r: "rest l = (''//'' @ c) @ s" using assms(1) by simp
  have n: "next_char s = NUL \<or> next_char s = CHR 0x0A" using assms(4) by (cases s) auto
  have "adv_while (\<lambda>d. d \<noteq> CHR 0x0A) l = move (length (''//'' @ c)) l"
    using assms(2,3) n by (intro adv_while_span [OF r]) auto
  then show ?thesis using k assms(1) by (subst skipWhitespace.simps) (simp add: Ch_rest peekChar_rest)
qed

lemma tokens_end:
  assumes "rest l = []"
  shows "tokens l = ([mk_token TokenEOF (lx_Position l) 0 (lx_Line l) (lx_Col l)], advance l)"
proof -
  have k: "skipWhitespace l = l"
    using assms by (subst skipWhitespace.simps) (simp add: skip_space.simps [of l] Ch_rest Let_def)
  then have "NextToken l = (mk_token TokenEOF (lx_Position l) 0 (lx_Line l) (lx_Col l), advance l)"
    using assms op_token_not(1) by (simp add: NextToken_def Let_def Ch_rest)
  then show ?thesis by (subst tokens.simps) (simp add: mk_token_def)
qed

lemma tokens_elems:
  assumes "rest l = elems_text es" "wf_elems es"
  shows "fst (tokens l) = elem_tokens (lx_Position l) (lx_Line l) (lx_Col l) es \<and> lx_Errors (snd (tokens l)) = lx_Errors l"
  using assms
proof (induction es arbitrary: l rule: wf_elems.induct)
  case 1
  then show ?case by (simp add: tokens_end advance_move)
next
  case (2 x es)
  have nt: "NextToken l = lexed l x" using NextToken_lexeme [of l x "elems_text es"] 2(2,3) by simp
  have "tk_Type (lexeme_token (lx_Position l) (lx_Line l) (lx_Col l) x) \<noteq> TokenEOF"
    using lexeme_type_not_EOF [of x] 2(3) by (simp add: lexeme_token_def mk_token_def)
  note st = tokens_step [OF nt this]
  have "rest (move (length (lexeme_text x)) l) = elems_text es" using 2(2) by simp
  from 2(1) [OF this] 2(3) show ?case by (simp add: st)
next
  case (3 c es)
  have "tokens l = tokens (move 1 l)" using 3(2,3) by (intro tokens_skip skip_blank [of l c]) simp_all
  with 3(1) [of "move 1 l"] 3(2,3) show ?case by simp
next
  case (4 es)
  have "tokens l = tokens (next_line l)" using 4(2) by (intro tokens_skip skip_newline) simp
  with 4(1) [of "next_line l"] 4(2,3) show ?case by simp
next
  case (5 c es)
  have "elems_text es = [] \<or> hd (elems_text es) = CHR 0x0A" using 5(3) by (cases es) auto
  then have "tokens l = tokens (move (2 + length c) l)"
    using 5(2,3) by (intro tokens_skip skip_comment [of l c "elems_text es"]) simp_all
  with 5(1) [of "move (2 + length c) l"] 5(2,3) show ?case by simp
qed

lemma lexeme_text_first: "wf_lexeme x \<Longrightarrow> lexeme_text x \<noteq> [] \<and> hd (lexeme_text x) \<noteq> CHR 0xEF"
proof (cases x)
  case (Operator p)
  have "list_all (\<lambda>c. c \<noteq> CHR 0xEF) op_chars" by code_simp
  with operators_first [of p] Operator show "wf_lexeme x \<Longrightarrow> ?thesis" by (force simp: list_all_iff)
qed (auto simp: isLetter_def isDigit_def neq_Nil_conv)

lemma no_BOM: "wf_elems es \<Longrightarrow> take 3 (elems_text es) \<noteq> BOM"
proof (cases es)
  case (Cons e es')
  assume "wf_elems es"
  then have "elem_text e \<noteq> [] \<and> hd (elem_text e) \<noteq> CHR 0xEF" using Cons lexeme_text_first by (cases e) auto
  then show ?thesis using Cons by (cases "elem_text e") (auto simp: BOM_def)
qed (simp add: BOM_def)

lemma New_text: "wf_elems es \<Longrightarrow> New (elems_text es) =
    \<lparr>lx_Input = elems_text es, lx_Position = 0, lx_Line = 1, lx_Col = 0, lx_Errors = []\<rparr>"
  by (simp add: New_def no_BOM)

lemma tokens_text:
  assumes "wf_elems es"
  shows "fst (tokens (New (elems_text es))) = elem_tokens 0 1 0 es" "lx_Errors (snd (tokens (New (elems_text es)))) = []"
  using tokens_elems [of "New (elems_text es)" es] assms by (simp_all add: New_text rest_def)

lemma lexeme_token_literal:
  assumes "length (pre @ lexeme_text x @ s) < 2 ^ 16"
  shows "Literal (lexeme_token (length pre) ln cl x) (pre @ lexeme_text x @ s) = lexeme_literal x"
  using assms by (cases x) (simp_all add: lexeme_token_def Literal_token)

lemma elem_tokens_literals:
  assumes "length (pre @ elems_text es) < 2 ^ 16"
  shows "map (\<lambda>t. (tk_Type t, Literal t (pre @ elems_text es))) (elem_tokens (length pre) ln cl es) =
    map (\<lambda>x. (lexeme_type x, lexeme_literal x)) (lexemes es) @ [(TokenEOF, [])]"
  using assms
proof (induction es arbitrary: pre ln cl rule: lexemes.induct)
  case 1
  then show ?case by (simp add: mk_token_def Literal_def)
next
  case (2 x es)
  have "tk_Type (lexeme_token (length pre) ln cl x) = lexeme_type x" by (simp add: lexeme_token_def mk_token_def)
  moreover have "Literal (lexeme_token (length pre) ln cl x) (pre @ lexeme_text x @ elems_text es) = lexeme_literal x"
    using 2(2) by (intro lexeme_token_literal) simp
  ultimately show ?case using 2(1) [of "pre @ lexeme_text x"] 2(2) by simp
next
  case (3 c es)
  show ?case using 3(1) [of "pre @ [c]"] 3(2) by simp
next
  case (4 es)
  show ?case using 4(1) [of "pre @ [CHR 0x0A]"] 4(2) by simp
next
  case (5 c es)
  show ?case using 5(1) [of "pre @ ''//'' @ c"] 5(2) by simp
qed

text \<open>C5. The lexer reads back what was written: on every text made of lexemes (words, integer, float,
  bigint and bigfloat literals, string literals with escapes, operators), blanks, line breaks and line
  comments, in which no lexeme is continued by what follows it, the tokens are exactly those of the
  lexemes, with their types, positions, lines and columns, then the end of file, and no error is
  recorded; when the text has less than 65536 characters each token's literal is the lexeme's text.\<close>

theorem lexer_roundtrip:
  assumes "wf_elems es"
  shows "fst (tokens (New (elems_text es))) = elem_tokens 0 1 0 es
    \<and> lx_Errors (snd (tokens (New (elems_text es)))) = []
    \<and> (length (elems_text es) < 2 ^ 16 \<longrightarrow>
        map (\<lambda>t. (tk_Type t, Literal t (elems_text es))) (fst (tokens (New (elems_text es)))) =
          map (\<lambda>x. (lexeme_type x, lexeme_literal x)) (lexemes es) @ [(TokenEOF, [])])"
  using tokens_text [OF assms] elem_tokens_literals [of "[]" es 1 0] by simp

theorem lexer_roundtrip_witness:
  "map (\<lambda>t. (tk_Type t, Literal t ''let x=1.5 <=20n// c'')) (fst (tokens (New ''let x=1.5 <=20n// c''))) =
     [(TokenLet, ''let''), (TokenIdent, ''x''), (TokenAssign, ''=''), (TokenFloat64, ''1.5''), (TokenLessEqual, ''<=''),
      (TokenBigInt, ''20n''), (TokenEOF, [])]"
proof -
  define es where "es = [Lx (Word ''let''), Sp CHR '' '', Lx (Word ''x''), Lx (Operator ''=''), Lx (FloatLit ''1'' ''5''), Sp CHR '' '',
    Lx (Operator ''<=''), Lx (BigIntLit ''20''), Cm '' c'']"
  have w: "wf_elems es" unfolding es_def by code_simp
  have r: "elems_text es = ''let x=1.5 <=20n// c''" by (simp add: es_def)
  have m: "map (\<lambda>x. (lexeme_type x, lexeme_literal x)) (lexemes es) =
     [(TokenLet, ''let''), (TokenIdent, ''x''), (TokenAssign, ''=''), (TokenFloat64, ''1.5''), (TokenLessEqual, ''<=''),
      (TokenBigInt, ''20n'')]"
    unfolding es_def by code_simp
  have "length (elems_text es) < 2 ^ 16" by (simp add: r)
  from lexer_roundtrip [OF w, THEN conjunct2, THEN conjunct2, rule_format, OF this] show ?thesis unfolding m r by simp
qed

section \<open>Spans\<close>

text \<open>Every function of the lexer keeps the input and moves to the right, and not past its end.\<close>

definition right_of :: "Lexer \<Rightarrow> Lexer \<Rightarrow> bool" where
  "right_of l l' \<longleftrightarrow> lx_Input l' = lx_Input l \<and> lx_Position l \<le> lx_Position l'
     \<and> lx_Position l' \<le> max (lx_Position l) (length (lx_Input l))"

lemma right_of_refl [simp]: "right_of l l"
  by (simp add: right_of_def)

lemma right_of_trans: "right_of a b \<Longrightarrow> right_of b c \<Longrightarrow> right_of a c"
  by (auto simp: right_of_def)

lemma Ch_inside: "Ch l \<noteq> NUL \<Longrightarrow> lx_Position l < length (lx_Input l)"
  by (auto simp: Ch_def byte_at_def split: if_splits)

lemma peekChar_inside: "peekChar l \<noteq> NUL \<Longrightarrow> lx_Position l + 1 < length (lx_Input l)"
  by (auto simp: peekChar_def ReadPosition_def byte_at_def split: if_splits)

lemma right_of_advance: "Ch l \<noteq> NUL \<Longrightarrow> right_of l (advance l)"
  by (auto simp: right_of_def advance_move dest: Ch_inside)

lemma right_of_two: "peekChar l \<noteq> NUL \<Longrightarrow> right_of l (advance (advance l))"
  by (auto simp: right_of_def advance_move dest: peekChar_inside)

lemma right_of_newline: "Ch l \<noteq> NUL \<Longrightarrow> right_of l (readChar (l\<lparr>lx_Line := a, lx_Col := b\<rparr>))"
  "Ch l \<noteq> NUL \<Longrightarrow> right_of l (readChar (l\<lparr>lx_Col := b\<rparr>))"
  by (auto simp: right_of_def readChar_def ReadPosition_def dest: Ch_inside)

lemma right_of_while: "right_of l (adv_while P l)"
proof (cases "lx_Position l \<le> length (lx_Input l)")
  case True
  have "length (takeWhile (\<lambda>c. c \<noteq> NUL \<and> P c) (rest l)) \<le> length (lx_Input l) - lx_Position l"
    using length_takeWhile_le [of "\<lambda>c. c \<noteq> NUL \<and> P c" "rest l"] by (simp add: rest_def)
  with True show ?thesis by (auto simp: right_of_def adv_while_move)
qed (simp add: right_of_def adv_while_move rest_def)

lemma skip_space_right: "right_of l (skip_space l)"
proof (induction l rule: skip_space.induct)
  case (1 l)
  show ?case
  proof (cases "Ch l = CHR '' '' \<or> Ch l = CHR 0x09 \<or> Ch l = CHR 0x0A \<or> Ch l = CHR 0x0D")
    case True
    then have "Ch l \<noteq> NUL" by auto
    with 1 [OF True] True right_of_advance [of l] right_of_newline(1) [of l] show ?thesis
      by (subst skip_space.simps) (auto intro: right_of_trans)
  qed (subst skip_space.simps, simp)
qed

lemma block_comment_right: "right_of l (block_comment d l)"
proof (induction d l rule: block_comment.induct)
  case (1 d l)
  show ?case
  proof (cases "d > 0 \<and> Ch l \<noteq> NUL")
    case True
    then have ne: "Ch l \<noteq> NUL" by simp
    from 1 [OF True] True show ?thesis
      by (subst block_comment.simps)
        (auto intro: right_of_trans [OF right_of_two] right_of_trans [OF right_of_newline(1) [OF ne]] right_of_trans [OF right_of_newline(2) [OF ne]])
  next
    case False
    then show ?thesis by (subst block_comment.simps) auto
  qed
qed

lemma skipWhitespace_right: "right_of l (skipWhitespace l)"
proof (induction l rule: skipWhitespace.induct)
  case (1 l)
  let ?l = "skip_space l"
  have a: "right_of l (adv_while (\<lambda>c. c \<noteq> CHR 0x0A) ?l)"
    by (rule right_of_trans [OF skip_space_right right_of_while])
  have b: "right_of l (block_comment 1 (advance (advance ?l)))" if "peekChar ?l = CHR ''*''"
    by (rule right_of_trans [OF right_of_trans [OF skip_space_right right_of_two] block_comment_right]) (simp add: that)
  show ?case
    using 1(1) [OF refl] 1(2) [OF refl] a b skip_space_right [of l]
    by (subst skipWhitespace.simps) (auto simp: Let_def intro: right_of_trans)
qed

lemma string_loop_right: "right_of l (fst (string_loop l))"
proof (induction l rule: string_loop.induct)
  case (1 l)
  show ?case
  proof (cases "Ch l = NUL")
    case False
    note r = right_of_advance [OF False]
    have "right_of l (advance (advance l))" if "Ch (advance l) \<noteq> NUL"
      by (rule right_of_trans [OF r right_of_advance [OF that]])
    with 1 False r show ?thesis
      by (subst string_loop.simps) (auto simp: Let_def intro: right_of_trans)
  qed (subst string_loop.simps, simp)
qed

text \<open>A token and the state after it: the span lies between the two positions and inside the input.\<close>

definition spans :: "Lexer \<Rightarrow> Token \<times> Lexer \<Rightarrow> bool" where
  "spans l r \<longleftrightarrow> (\<exists>ty p n ln cl. fst r = mk_token ty p n ln cl \<and> lx_Position l \<le> p \<and> p + n \<le> length (lx_Input l)
     \<and> p + n \<le> lx_Position (snd r) \<and> lx_Position (snd r) \<le> length (lx_Input l) + 1 \<and> lx_Input (snd r) = lx_Input l)"

lemma spansI:
  assumes "fst r = mk_token ty (lx_Position l) (lx_Position (snd r) - lx_Position l) ln cl" "right_of l (snd r)"
    "lx_Position l \<le> length (lx_Input l)"
  shows "spans l r"
  unfolding spans_def using assms
  by (intro exI [of _ ty] exI [of _ "lx_Position l"] exI [of _ "lx_Position (snd r) - lx_Position l"] exI [of _ ln] exI [of _ cl])
    (auto simp: right_of_def)

lemma spans_one: "Ch l \<noteq> NUL \<Longrightarrow> spans l (one_char t l)"
  by (rule spansI [of _ t _ "lx_Line l" "lx_Col l"])
    (use right_of_advance [of l] Ch_inside [of l] in \<open>auto simp: one_char_def advance_move\<close>)

lemma spans_two: "peekChar l \<noteq> NUL \<Longrightarrow> spans l (two_char t l)"
  by (rule spansI [of _ t _ "lx_Line l" "lx_Col l"])
    (use right_of_two [of l] peekChar_inside [of l] in \<open>auto simp: two_char_def advance_move Let_def\<close>)

lemma spans_word: "Ch l \<noteq> NUL \<Longrightarrow> spans l (scanIdentifier l)"
  by (rule spansI [where ln = "lx_Line l" and cl = "lx_Col l"])
    (use right_of_while [of l] Ch_inside [of l] in \<open>auto simp: scanIdentifier_def Let_def\<close>)

lemma spans_number: "Ch l \<noteq> NUL \<Longrightarrow> spans l (scanNumber l)"
proof -
  assume ne: "Ch l \<noteq> NUL"
  define l1 where "l1 = adv_while isDigit l"
  define l2 where "l2 = (if Ch l1 = CHR ''.'' then adv_while isDigit (advance l1) else l1)"
  have "right_of l1 l2" using right_of_trans [OF right_of_advance right_of_while, of l1] by (auto simp: l2_def)
  then have r2: "right_of l l2" using right_of_while [of l isDigit] by (auto simp: l1_def [symmetric] intro: right_of_trans)
  have r3: "right_of l (advance l2)" if "Ch l2 \<noteq> NUL" by (rule right_of_trans [OF r2 right_of_advance [OF that]])
  define l3 where "l3 = (if Contains (slice (lx_Input l2) (lx_Position l) (lx_Position l2)) ''.''
    then if Ch l2 = CHR ''b'' \<or> Ch l2 = CHR ''B'' then advance l2 else l2
    else if Ch l2 = CHR ''n'' \<or> Ch l2 = CHR ''N'' then advance l2 else l2)"
  have r: "right_of l l3" using r2 r3 by (auto simp: l3_def)
  have "snd (scanNumber l) = l3" by (simp add: scanNumber_def Let_def l1_def [symmetric] l2_def [symmetric] l3_def)
  moreover have "\<exists>ty. fst (scanNumber l) = mk_token ty (lx_Position l) (lx_Position l3 - lx_Position l) (lx_Line l) (lx_Col l)"
    by (simp add: scanNumber_def Let_def l1_def [symmetric] l2_def [symmetric] l3_def) blast
  ultimately show ?thesis using r Ch_inside [OF ne] by (auto intro: spansI)
qed

lemma spans_string: "Ch l \<noteq> NUL \<Longrightarrow> spans l (scanString l)"
proof -
  assume ne: "Ch l \<noteq> NUL"
  obtain l2 eof where l2: "string_loop (advance l) = (l2, eof)" by fastforce
  have "right_of (advance l) l2" using string_loop_right [of "advance l"] l2 by simp
  with Ch_inside [OF ne] have p: "lx_Position l + 1 \<le> lx_Position l2" "lx_Position l2 \<le> length (lx_Input l)" "lx_Input l2 = lx_Input l"
    by (auto simp: right_of_def advance_move)
  have a: "lx_Position (advance m) = lx_Position m + 1" "lx_Input (advance m) = lx_Input m" for m
    by (simp_all add: advance_def readChar_def ReadPosition_def)
  have f: "fst (scanString l) = mk_token TokenString (lx_Position l + 1) (lx_Position l2 - (lx_Position l + 1)) (lx_Line l) (lx_Col l)"
    by (cases eof) (simp_all add: scanString_def Let_def l2)
  have g: "lx_Position (snd (scanString l)) = lx_Position l2 + 1" "lx_Input (snd (scanString l)) = lx_Input l"
    using p(3) by (cases eof; simp add: scanString_def Let_def l2 a)+
  show ?thesis unfolding spans_def using p f g
    by (intro exI [of _ TokenString] exI [of _ "lx_Position l + 1"] exI [of _ "lx_Position l2 - (lx_Position l + 1)"]
        exI [of _ "lx_Line l"] exI [of _ "lx_Col l"]) simp
qed

lemma op_token_two: "op_token c p = Some (t, True) \<Longrightarrow> p \<noteq> NUL"
  by (auto simp: op_token_def single_types_def split: if_splits)

lemma NextToken_spans:
  assumes "tk_Type (fst (NextToken l)) \<noteq> TokenEOF" shows "spans l (NextToken l)"
proof -
  let ?l = "skipWhitespace l"
  have ne: "Ch ?l \<noteq> NUL" using assms by (auto simp: NextToken_def Let_def mk_token_def op_token_not)
  have "spans ?l (NextToken l)"
    using spans_one [OF ne] spans_two [of ?l] spans_string [OF ne] spans_word [OF ne] spans_number [OF ne] ne
    by (auto simp: NextToken_def Let_def dest: op_token_two split: option.split prod.split)
  then show ?thesis using skipWhitespace_right [of l] by (fastforce simp: spans_def right_of_def)
qed

lemma NextToken_EOF:
  assumes "tk_Type (fst (NextToken l)) = TokenEOF" "lx_Position l \<le> length (lx_Input l) + 1"
  shows "\<exists>p ln cl. fst (NextToken l) = mk_token TokenEOF p 0 ln cl \<and> lx_Position l \<le> p \<and> p \<le> length (lx_Input l) + 1"
proof -
  let ?l = "skipWhitespace l"
  have "Ch ?l = NUL"
  proof (rule ccontr)
    assume ne: "Ch ?l \<noteq> NUL"
    have k: "lookupIdent w \<noteq> TokenEOF" for w by (auto simp: lookupIdent_def ident_types_def)
    have "tk_Type (fst (NextToken l)) \<noteq> TokenEOF"
      using ne k by (auto simp: NextToken_def Let_def mk_token_def one_char_def two_char_def scanIdentifier_def scanNumber_def scanString_def
          dest: op_token_not(2) split: option.split prod.split)
    with assms(1) show False by simp
  qed
  then have "fst (NextToken l) = mk_token TokenEOF (lx_Position ?l) 0 (lx_Line ?l) (lx_Col ?l)"
    by (simp add: NextToken_def Let_def op_token_not(1))
  moreover have "lx_Position l \<le> lx_Position ?l" "lx_Position ?l \<le> length (lx_Input l) + 1"
    using skipWhitespace_right [of l] assms(2) by (auto simp: right_of_def)
  ultimately show ?thesis by blast
qed

definition tok_start :: "Token \<Rightarrow> nat" where "tok_start t = unat (tk_Start t)"
definition tok_end :: "Token \<Rightarrow> nat" where "tok_end t = unat (tk_Start t) + unat (tk_Len t)"

lemma tok_bounds:
  "p < 2 ^ 32 \<Longrightarrow> n < 2 ^ 16 \<Longrightarrow> tok_start (mk_token ty p n ln cl) = p \<and> tok_end (mk_token ty p n ln cl) = p + n"
  by (simp add: tok_start_def tok_end_def mk_token_def unat_of_nat)

lemma tokens_spans:
  assumes "length (lx_Input l) < 2 ^ 16" "lx_Position l \<le> length (lx_Input l) + 1"
  shows "sorted_wrt (\<lambda>a b. tok_end a \<le> tok_start b) (fst (tokens l))
    \<and> (\<forall>t \<in> set (fst (tokens l)). lx_Position l \<le> tok_start t \<and> (tk_Type t \<noteq> TokenEOF \<longrightarrow> tok_end t \<le> length (lx_Input l)))
    \<and> tk_Type (last (fst (tokens l))) = TokenEOF \<and> (\<forall>t \<in> set (butlast (fst (tokens l))). tk_Type t \<noteq> TokenEOF)
    \<and> fst (tokens l) \<noteq> []"
  using assms
proof (induction l rule: tokens.induct)
  case (1 l)
  obtain t l' where t: "NextToken l = (t, l')" by fastforce
  show ?case
  proof (cases "tk_Type t = TokenEOF")
    case True
    with NextToken_EOF [of l] t 1(3) obtain p ln cl where "t = mk_token TokenEOF p 0 ln cl" "lx_Position l \<le> p" "p \<le> length (lx_Input l) + 1" by auto
    with 1(2) have "lx_Position l \<le> tok_start t" using tok_bounds [of p 0] by simp
    moreover have "tokens l = ([t], l')" using t True by (subst tokens.simps) simp
    ultimately show ?thesis using True by simp
  next
    case False
    with NextToken_spans [of l] t obtain ty p n ln cl where s: "t = mk_token ty p n ln cl" "lx_Position l \<le> p" "p + n \<le> length (lx_Input l)"
      "p + n \<le> lx_Position l'" "lx_Position l' \<le> length (lx_Input l) + 1" "lx_Input l' = lx_Input l" by (auto simp: spans_def)
    have b: "tok_start t = p" "tok_end t = p + n" using tok_bounds [of p n ty ln cl] s(1,3) 1(2) by simp_all
    note IH = 1(1) [OF t [symmetric] refl False] note st = tokens_step [OF t False]
    have h: "length (lx_Input l') < 2 ^ 16" "lx_Position l' \<le> length (lx_Input l') + 1" using s 1(2) by simp_all
    from IH [OF h] s(2-6) b False show ?thesis unfolding st by (auto intro: order_trans)
  qed
qed

text \<open>C6. The tokens of a text of less than 65536 characters are a finite list that ends with the one
  end-of-file token; each other token lies inside the text, and each begins where or after the one
  before it ends.\<close>

theorem lexer_spans:
  assumes "length s < 2 ^ 16"
  shows "sorted_wrt (\<lambda>a b. tok_end a \<le> tok_start b) (fst (tokens (New s)))
    \<and> (\<forall>t \<in> set (fst (tokens (New s))). tk_Type t \<noteq> TokenEOF \<longrightarrow> tok_end t \<le> length (lx_Input (New s)))
    \<and> tk_Type (last (fst (tokens (New s)))) = TokenEOF
    \<and> (\<forall>t \<in> set (butlast (fst (tokens (New s)))). tk_Type t \<noteq> TokenEOF)"
proof -
  have "length (lx_Input (New s)) \<le> length s" by (simp add: New_def Let_def)
  with assms have l: "length (lx_Input (New s)) < 2 ^ 16" "lx_Position (New s) \<le> length (lx_Input (New s)) + 1"
    by (simp_all add: New_def Let_def)
  show ?thesis using tokens_spans [OF l] by blast
qed

theorem lexer_spans_witness:
  "sorted_wrt (\<lambda>a b. tok_end a \<le> tok_start b) (fst (tokens (New ''print(1)''))) \<and> tk_Type (last (fst (tokens (New ''print(1)'')))) = TokenEOF"
  using lexer_spans [of "''print(1)''"] by simp

section \<open>Limits of the token positions\<close>

text \<open>A line break inside a string literal is not counted, so every later token is reported a line too early:
  the second identifier of this text is on its third line.\<close>

lemma string_newline_not_counted:
  "map tk_Line (fst (tokens (New (''a '' @ [CHR 0x22, CHR 0x0A, CHR 0x0A, CHR 0x22] @ '' b'')))) = [1, 1, 1, 1]"
  by code_simp

text \<open>A block comment that is not closed swallows the rest of the text and no error is recorded, unlike a string
  that is not closed.\<close>

lemma open_comment_accepted:
  "map tk_Type (fst (tokens (New ''a /* b''))) = [TokenIdent, TokenEOF] \<and> lx_Errors (snd (tokens (New ''a /* b''))) = []"
  by code_simp

lemma open_string_reported:
  "lx_Errors (snd (tokens (New (''a '' @ [CHR 0x22] @ ''b'')))) = [\<lparr>le_Line = 1, le_Col = 3, le_Msg = ''unterminated string literal''\<rparr>]"
  by code_simp

text \<open>A NUL byte ends the tokens, whatever follows.\<close>

lemma nul_byte_ends: "map tk_Type (fst (tokens (New (''a '' @ [NUL] @ '' b'')))) = [TokenIdent, TokenEOF]"
  by code_simp


text \<open>The length of a token is kept in 16 bits: of a string literal of 65536 plain characters nothing is left.\<close>

lemma long_string_lost:
  assumes "rest l = CHR 0x22 # w @ CHR 0x22 # s" "string_body w" "length w = 65536"
  shows "Literal (fst (scanString l)) (lx_Input l) = []"
  unfolding scanString_body [OF assms(1,2)] by (simp add: Literal_def lexeme_token_def mk_token_def assms(3))


end
