(* ===== verification/Formatter.thy ===== *)
theory Formatter
  imports Lexer Go_Strings
begin

text \<open>
  The source formatter (\<open>pkg/cli/formatter.go\<close>): \<open>Canonicalize\<close> respaces the tokens of each line,
  \<open>formatSingleFile\<close>, \<open>formatDirectory\<close> and \<open>FormatCommand\<close> apply it to files.  The files are a state
  that is passed along; what the operating system answers is an argument.
\<close>

section \<open>Library functions\<close>

text \<open>\<open>strings.ReplaceAll\<close> for a non-empty pattern, \<open>strings.ContainsAny\<close>, \<open>strings.TrimLeft\<close> and \<open>strings.TrimRight\<close>.\<close>

definition ReplaceAll :: "string \<Rightarrow> string \<Rightarrow> string \<Rightarrow> string" where
  "ReplaceAll s old new = Join (Split s old) new"

definition ContainsAny :: "string \<Rightarrow> string \<Rightarrow> bool" where
  "ContainsAny s cs \<longleftrightarrow> list_ex (\<lambda>c. c \<in> set cs) s"

definition TrimLeft :: "string \<Rightarrow> string \<Rightarrow> string" where
  "TrimLeft s cutset = dropWhile (\<lambda>c. c \<in> set cutset) s"

definition TrimRight :: "string \<Rightarrow> string \<Rightarrow> string" where
  "TrimRight s cutset = rev (dropWhile (\<lambda>c. c \<in> set cutset) (rev s))"

definition blanks :: string where "blanks = [CHR '' '', CHR 0x09]"
definition line_break :: string where "line_break = [CHR 0x0A]"

section \<open>One line\<close>

definition canonicalSeparator :: "Token \<Rightarrow> Token \<Rightarrow> string" where
  "canonicalSeparator prev nxt =
     (if tk_Type nxt \<in> set [TokenComma, TokenSemicolon, TokenColon, TokenDot, TokenRParen, TokenRBracket, TokenRBrace,
          TokenLParen, TokenLBracket] then []
      else if tk_Type prev \<in> set [TokenLParen, TokenLBracket, TokenLBrace, TokenDot] then []
      else '' '')"

definition tokenText :: "string \<Rightarrow> Token \<Rightarrow> string" where
  "tokenText src tok =
     (if tk_Type tok = TokenString then [CHR 0x22] @ Literal tok src @ [CHR 0x22] else Literal tok src)"

text \<open>The loop over the tokens of a line; \<open>prev\<close> is \<open>toks[i-1]\<close>.\<close>

fun emit_tokens :: "string \<Rightarrow> Token option \<Rightarrow> Token list \<Rightarrow> string" where
  "emit_tokens src prev [] = []"
| "emit_tokens src prev (tok # toks) =
     (case prev of None \<Rightarrow> [] | Some p \<Rightarrow> canonicalSeparator p tok) @ tokenText src tok @ emit_tokens src (Some tok) toks"

definition emitCanonicalLine :: "string \<Rightarrow> string \<Rightarrow> Token list \<Rightarrow> string" where
  "emitCanonicalLine src line toks =
     (let trimmed = TrimLeft line blanks; indent = take (length line - length trimmed) line
      in indent @ emit_tokens src None toks)"

function lineHasComment :: "string \<Rightarrow> nat \<Rightarrow> nat \<Rightarrow> bool list \<Rightarrow> bool" where
  "lineHasComment src i lineEnd stringMask =
     (if i + 1 < lineEnd then
        (if i \<ge> length src \<or> i + 1 \<ge> length src then False
         else if stringMask ! i then lineHasComment src (i + 1) lineEnd stringMask
         else if src ! i = CHR ''/'' \<and> src ! (i + 1) = CHR ''/'' then True
         else lineHasComment src (i + 1) lineEnd stringMask)
      else False)"
  by auto
termination by (relation "measure (\<lambda>(src, i, lineEnd, m). lineEnd - i)") auto

declare lineHasComment.simps [simp del]

section \<open>A text\<close>

text \<open>The msk of the characters inside string literals, and the search for a line break in a literal,
  which ends the loop.\<close>

definition mask_token :: "string \<Rightarrow> Token \<Rightarrow> bool list \<Rightarrow> bool list" where
  "mask_token src tok msk =
     (if tk_Type tok = TokenString
      then foldl (\<lambda>m i. m[i := True]) msk [unat (tk_Start tok) ..< min (unat (tk_Start tok) + unat (tk_Len tok)) (length src)]
      else msk)"

fun scan_literals :: "string \<Rightarrow> bool list \<Rightarrow> Token list \<Rightarrow> bool list option" where
  "scan_literals src msk [] = Some msk"
| "scan_literals src msk (tok # toks) =
     (let msk = mask_token src tok msk
      in if ContainsAny (Literal tok src) [CHR 0x0D, CHR 0x0A] then None else scan_literals src msk toks)"

definition line_tokens :: "Token list \<Rightarrow> nat \<Rightarrow> Token list" where
  "line_tokens toks lineNo = filter (\<lambda>tok. unat (tk_Line tok) = lineNo \<and> tk_Type tok \<noteq> TokenEOF) toks"

definition format_line :: "string \<Rightarrow> Token list \<Rightarrow> bool list \<Rightarrow> nat \<Rightarrow> nat \<Rightarrow> string \<Rightarrow> string" where
  "format_line src toks msk li lineStart line =
     (let lineEnd = lineStart + length line; lineTokens = line_tokens toks (li + 1)
      in if lineHasComment src lineStart lineEnd msk \<or> length lineTokens = 0 then TrimRight line blanks
         else emitCanonicalLine src line lineTokens)"

fun format_lines :: "string \<Rightarrow> Token list \<Rightarrow> bool list \<Rightarrow> nat \<Rightarrow> nat \<Rightarrow> string list \<Rightarrow> string" where
  "format_lines src toks msk li lineStart [] = []"
| "format_lines src toks msk li lineStart (line # lines) =
     format_line src toks msk li lineStart line
     @ (if lines = [] then [] else line_break)
     @ format_lines src toks msk (li + 1) (lineStart + length line + 1) lines"

text \<open>The formatted text and the flag \<open>danger\<close>; the error of the Go function is always \<open>nil\<close>.\<close>

definition Canonicalize :: "string \<Rightarrow> string \<times> bool" where
  "Canonicalize src =
     (let normalized = ReplaceAll src [CHR 0x0D, CHR 0x0A] line_break;
          toks = fst (tokens (New normalized))
      in case scan_literals normalized (replicate (length normalized) False) toks of
           None \<Rightarrow> (src, True)
         | Some msk \<Rightarrow> (format_lines normalized toks msk 0 0 (Split normalized line_break), False))"

section \<open>Files\<close>

record CommandResult =
  ExitCode :: int
  Message :: string

abbreviation ExitSuccess :: int where "ExitSuccess \<equiv> 0"
abbreviation ExitFailure :: int where "ExitFailure \<equiv> 1"
abbreviation ExitUsage :: int where "ExitUsage \<equiv> 2"

text \<open>What the environment answers: the verdict of \<open>ValidateKarFile\<close> on a path, the errors of reading and
  writing a file, whether a path exists and is a directory, and the entries that \<open>filepath.Walk\<close> visits
  in order (path, error while visiting, is a directory).\<close>

record fmt_env =
  fe_validate :: "string \<Rightarrow> string option"
  fe_read_error :: "string \<Rightarrow> string option"
  fe_write_error :: "string \<Rightarrow> string option"
  fe_stat :: "string \<Rightarrow> string + bool"
  fe_walk :: "string \<Rightarrow> (string \<times> bool \<times> bool) list"

type_synonym file_contents = "string \<Rightarrow> string"

definition formatSingleFile :: "fmt_env \<Rightarrow> string \<Rightarrow> bool \<Rightarrow> file_contents \<Rightarrow> CommandResult \<times> file_contents" where
  "formatSingleFile env f checkOnly fs =
     (case fe_validate env f of
        Some err \<Rightarrow> (\<lparr>ExitCode = ExitUsage, Message = err\<rparr>, fs)
      | None \<Rightarrow>
     (case fe_read_error env f of
        Some err \<Rightarrow> (\<lparr>ExitCode = ExitFailure, Message = ''Error reading file: '' @ err\<rparr>, fs)
      | None \<Rightarrow>
        (let (formatted, danger) = Canonicalize (fs f) in
         if danger then (\<lparr>ExitCode = ExitSuccess, Message = ''no formatting needed (line-preserving mode)''\<rparr>, fs)
         else if formatted = fs f then (\<lparr>ExitCode = ExitSuccess, Message = ''already formatted.''\<rparr>, fs)
         else if checkOnly then (\<lparr>ExitCode = ExitFailure, Message = ''file is not formatted.''\<rparr>, fs)
         else case fe_write_error env f of
                Some err \<Rightarrow> (\<lparr>ExitCode = ExitFailure, Message = ''Error writing file: '' @ err\<rparr>, fs)
              | None \<Rightarrow> (\<lparr>ExitCode = ExitSuccess, Message = ''formatted.''\<rparr>, fs(f := formatted)))))"

text \<open>\<open>filepath.Ext\<close>: from the last dot of the last path element on.\<close>

fun ext_loop :: "string \<Rightarrow> string \<Rightarrow> string" where
  "ext_loop acc [] = []"
| "ext_loop acc (c # cs) =
     (if c = CHR ''/'' then [] else if c = CHR ''.'' then c # acc else ext_loop (c # acc) cs)"

definition Ext :: "string \<Rightarrow> string" where "Ext path = ext_loop [] (rev path)"

definition visit_entry :: "fmt_env \<Rightarrow> bool \<Rightarrow> string \<times> bool \<times> bool \<Rightarrow>
    string list \<times> string list \<times> file_contents \<Rightarrow> string list \<times> string list \<times> file_contents" where
  "visit_entry env checkOnly = (\<lambda>(path, failed, isDir) (unformatted, formatErrors, fs).
     if failed then (unformatted, formatErrors, fs)
     else if isDir then (unformatted, formatErrors, fs)
     else if Ext path \<noteq> ''.kark'' then (unformatted, formatErrors, fs)
     else
       (let (result, fs') = formatSingleFile env path checkOnly fs in
        if ExitCode result = ExitFailure then
          (if Contains (Message result) ''not formatted'' then (unformatted @ [path], formatErrors, fs')
           else (unformatted, formatErrors @ [path @ '': '' @ Message result], fs'))
        else (unformatted, formatErrors, fs')))"

text \<open>The callback of \<open>filepath.Walk\<close> never returns an error, so the walk itself does not fail.\<close>

definition formatDirectory :: "fmt_env \<Rightarrow> string \<Rightarrow> bool \<Rightarrow> file_contents \<Rightarrow> CommandResult \<times> file_contents" where
  "formatDirectory env dir checkOnly fs =
     (let (unformatted, formatErrors, fs') = fold (visit_entry env checkOnly) (fe_walk env dir) ([], [], fs) in
      if length formatErrors > 0 then
        (\<lparr>ExitCode = ExitFailure, Message = ''Errors formatting '' @ print_nat (length formatErrors) @ '' file(s):'' @ line_break
           @ Join formatErrors line_break\<rparr>, fs')
      else if checkOnly \<and> length unformatted > 0 then
        (\<lparr>ExitCode = ExitFailure, Message = print_nat (length unformatted) @ '' file(s) need formatting:'' @ line_break
           @ Join unformatted line_break\<rparr>, fs')
      else if length unformatted > 0 then
        (\<lparr>ExitCode = ExitSuccess, Message = ''Formatted '' @ print_nat (length unformatted) @ '' file(s).''\<rparr>, fs')
      else (\<lparr>ExitCode = ExitSuccess, Message = ''All files already formatted.''\<rparr>, fs'))"

definition FormatCommand :: "fmt_env \<Rightarrow> string \<Rightarrow> bool \<Rightarrow> file_contents \<Rightarrow> CommandResult \<times> file_contents" where
  "FormatCommand env path checkOnly fs =
     (case fe_stat env path of
        Inl err \<Rightarrow> (\<lparr>ExitCode = ExitFailure, Message = ''Error: '' @ err\<rparr>, fs)
      | Inr isDir \<Rightarrow> if isDir then formatDirectory env path checkOnly fs else formatSingleFile env path checkOnly fs)"

end
