(* ===== verification/Formatter_Props.thy ===== *)
theory Formatter_Props
  imports Formatter Lexer_Props
begin

text \<open>
  What the formatter does to a text: on sources without block comments it respaces the lines and
  nothing else, the result has the same tokens, and formatting again changes nothing.  And where the
  code does not keep the text.
\<close>

section \<open>Source lines\<close>















section \<open>The tokens of a line\<close>












section \<open>The mask of string literals\<close>

fun elem_mask :: "elem \<Rightarrow> bool list" where
  "elem_mask (Lx (StrLit s)) = False # replicate (length s) True @ [False]"
| "elem_mask e = replicate (length (elem_text e)) False"

definition elems_mask :: "elem list \<Rightarrow> bool list" where
  "elems_mask es = concat (map elem_mask es)"

lemma elems_mask_simps [simp]: "elems_mask [] = []" "elems_mask (e # es) = elem_mask e @ elems_mask es"
  "elems_mask (es @ es') = elems_mask es @ elems_mask es'"
  by (simp_all add: elems_mask_def)

lemma length_elem_mask [simp]: "length (elem_mask e) = length (elem_text e)"
  by (cases e rule: elem_mask.cases) simp_all

lemma length_elems_mask [simp]: "length (elems_mask es) = length (elems_text es)"
  by (induction es) simp_all






section \<open>Comments\<close>







section \<open>Canonical lines\<close>








lemma elems_text_blank [simp]: "elems_text (map Sp g) = g"
  by (induction g) simp_all

lemma wf_elems_blank [simp]: "wf_elems (map Sp g @ es) \<longleftrightarrow> set g \<subseteq> {CHR '' '', CHR 0x09, CHR 0x0D} \<and> wf_elems es"
  by (induction g) auto


section \<open>Canonicalize\<close>



















section \<open>Formatting keeps the tokens\<close>


















lemma lexemes_append [simp]: "lexemes (es @ es') = lexemes es @ lexemes es'"
  by (induction es rule: lexemes.induct) simp_all

lemma lexemes_blank [simp]: "lexemes (map Sp g) = []"
  by (induction g) simp_all















section \<open>Where the text is not kept\<close>


section \<open>Files\<close>

lemma formatSingleFile_frame: "g \<noteq> f \<Longrightarrow> snd (formatSingleFile env f b fs) g = fs g"
  by (simp add: formatSingleFile_def Let_def split: option.split prod.split)

lemma formatSingleFile_check: "snd (formatSingleFile env f True fs) = fs"
  by (simp add: formatSingleFile_def Let_def split: option.split prod.split)

lemma visit_entry_check: "snd (snd (visit_entry env True e st)) = snd (snd st)"
  using formatSingleFile_check [of env "fst e" "snd (snd st)"]
  by (cases e; cases st) (simp add: visit_entry_def Let_def case_prod_beta)

lemma visit_entries_check: "snd (snd (fold (visit_entry env True) es st)) = snd (snd st)"
  by (induction es arbitrary: st) (simp_all add: visit_entry_check)

lemma visit_entry_frame: "g \<noteq> fst e \<Longrightarrow> snd (snd (visit_entry env b e st)) g = snd (snd st) g"
  using formatSingleFile_frame [of g "fst e" env b "snd (snd st)"]
  by (cases e; cases st) (simp add: visit_entry_def Let_def case_prod_beta)

lemma visit_entries_frame: "g \<notin> fst ` set es \<Longrightarrow> snd (snd (fold (visit_entry env b) es st)) g = snd (snd st) g"
  by (induction es arbitrary: st) (simp_all add: visit_entry_frame)

lemma formatDirectory_files: "snd (formatDirectory env dir b fs) = snd (snd (fold (visit_entry env b) (fe_walk env dir) ([], [], fs)))"
  by (simp add: formatDirectory_def Let_def split: prod.split)

text \<open>\<open>karkain fmt --check\<close> writes no file, and \<open>karkain fmt\<close> writes no file but the one it is given
  or those the walk of the directory visits.\<close>

theorem FormatCommand_frame:
  "snd (FormatCommand env path True fs) = fs
   \<and> (g \<noteq> path \<and> g \<notin> fst ` set (fe_walk env path) \<longrightarrow> snd (FormatCommand env path False fs) g = fs g)"
  by (auto simp: FormatCommand_def formatDirectory_files formatSingleFile_check visit_entries_check visit_entries_frame formatSingleFile_frame
      split: sum.split)

theorem FormatCommand_frame_witness:
  "snd (FormatCommand \<lparr>fe_validate = \<lambda>_. None, fe_read_error = \<lambda>_. None, fe_write_error = \<lambda>_. None, fe_stat = \<lambda>_. Inr False, fe_walk = \<lambda>_. []\<rparr>
      ''a.kark'' False (\<lambda>_. ''x=1'')) ''b.kark'' = ''x=1''"
  using FormatCommand_frame [of "\<lparr>fe_validate = \<lambda>_. None, fe_read_error = \<lambda>_. None, fe_write_error = \<lambda>_. None, fe_stat = \<lambda>_. Inr False,
      fe_walk = \<lambda>_. []\<rparr>" "''a.kark''" "\<lambda>_. ''x=1''" "''b.kark''"] by simp






end
