(* ===== verification/Regalloc.thy ===== *)
theory Regalloc
  imports Main "HOL-Library.List_Lexorder" "HOL-Library.Char_ord"
begin

text \<open>
  The register allocator of the native backend (\<open>pkg/native/regalloc.go\<close>): live ranges of the int
  locals of a function body, their peak, and the linear scan that gives locals the callee-saved
  registers.  Beside it, how \<open>pkg/native/program.go\<close> reads and writes a local and homes the parameters.
\<close>

section \<open>Syntax\<close>

text \<open>The nodes of \<open>pkg/parser/ast.go\<close> that the allocator looks into; every other node, a literal or
  a missing (\<open>nil\<close>) one, is \<open>OtherExpr\<close> or \<open>OtherStmt\<close>.\<close>

datatype expr =
    Identifier string
  | BinaryExpr expr string expr
  | UnaryExpr string expr
  | IndexExpr expr expr
  | SliceExpr expr expr expr
  | DotExpr expr string
  | CallExpr string "expr list"
  | ArrayLiteral "expr list"
  | MapLiteral "expr list" "expr list"
  | StructLiteral string "expr list"
  | OtherExpr

datatype stmt =
    VarDeclStmt string expr
  | ExprStmt expr
  | PrintStmt expr
  | ReturnStmt expr
  | IfStmt expr "stmt list" "stmt list"
  | WhileStmt expr "stmt list"
  | ForStmt "stmt option" "expr option" "stmt option" "stmt list"
  | ForInStmt string expr "stmt list"
  | BlockStmt "stmt list"
  | OtherStmt

record FuncDecl =
  fd_Name :: string
  fd_Params :: "string list"
  fd_Body :: "stmt list"

datatype Kind = KindInt | KindString | KindFloat | KindArray | KindStruct | KindMap

datatype NReg = RAX | RCX | RDX | RBX | RSP | RBP | RSI | RDI | R8 | R9 | R10 | R11 | R12 | R13 | R14 | R15

definition allocRegs :: "NReg list" where "allocRegs = [R12, R13, R14, R15]"
definition allocRegCount :: nat where "allocRegCount = 4"
definition raMinLive :: nat where "raMinLive = allocRegCount + 1"

section \<open>Control flow\<close>

text \<open>The walk of \<open>hasControlFlow\<close>: the flag \<open>found\<close> stops it.\<close>

fun cf_stmt :: "stmt \<Rightarrow> bool" and cf_stmts :: "stmt list \<Rightarrow> bool" where
  "cf_stmt (IfStmt _ _ _) = True"
| "cf_stmt (WhileStmt _ _) = True"
| "cf_stmt (ForStmt _ _ _ _) = True"
| "cf_stmt (ForInStmt _ _ body) = cf_stmts body"
| "cf_stmt (BlockStmt body) = cf_stmts body"
| "cf_stmt _ = False"
| "cf_stmts [] = False"
| "cf_stmts (s # ss) = (if cf_stmt s then True else cf_stmts ss)"

definition hasControlFlow :: "stmt list \<Rightarrow> bool" where
  "hasControlFlow stmts = cf_stmts stmts"

section \<open>Names used by a statement\<close>

fun ex_names :: "expr \<Rightarrow> string list" and exs_names :: "expr list \<Rightarrow> string list" where
  "ex_names (Identifier x) = [x]"
| "ex_names (BinaryExpr l _ r) = ex_names l @ ex_names r"
| "ex_names (UnaryExpr _ e) = ex_names e"
| "ex_names (IndexExpr l i) = ex_names l @ ex_names i"
| "ex_names (SliceExpr t a b) = ex_names t @ ex_names a @ ex_names b"
| "ex_names (DotExpr l _) = ex_names l"
| "ex_names (CallExpr _ as) = exs_names as"
| "ex_names (ArrayLiteral es) = exs_names es"
| "ex_names (MapLiteral ks vs) = exs_names ks @ exs_names vs"
| "ex_names (StructLiteral _ fs) = exs_names fs"
| "ex_names OtherExpr = []"
| "exs_names [] = []"
| "exs_names (e # es) = ex_names e @ exs_names es"

fun st_names :: "stmt \<Rightarrow> string list" and sts_names :: "stmt list \<Rightarrow> string list" where
  "st_names (VarDeclStmt x e) = x # ex_names e"
| "st_names (ExprStmt e) = ex_names e"
| "st_names (PrintStmt e) = ex_names e"
| "st_names (ReturnStmt e) = ex_names e"
| "st_names (IfStmt c t f) = ex_names c @ sts_names t @ sts_names f"
| "st_names (WhileStmt c body) = ex_names c @ sts_names body"
| "st_names (ForStmt i c p body) =
     (case i of None \<Rightarrow> [] | Some s \<Rightarrow> st_names s) @ (case c of None \<Rightarrow> [] | Some e \<Rightarrow> ex_names e)
     @ sts_names body @ (case p of None \<Rightarrow> [] | Some s \<Rightarrow> st_names s)"
| "st_names (ForInStmt _ it body) = ex_names it @ sts_names body"
| "st_names (BlockStmt body) = sts_names body"
| "st_names OtherStmt = []"
| "sts_names [] = []"
| "sts_names (s # ss) = st_names s @ sts_names ss"

text \<open>The set of names is a list; the code uses it only for membership.\<close>

definition usedNames :: "stmt list \<Rightarrow> string list" where
  "usedNames list = sts_names list"

section \<open>Live ranges\<close>

record regRange =
  rr_name :: string
  rr_start :: nat
  rr_end :: nat

text \<open>The state of the walk: the point and the ranges in the order of their creation.  The map \<open>idx\<close> of
  the code is the search by name.\<close>

type_synonym ra_state = "nat \<times> regRange list"

fun touch_range :: "nat \<Rightarrow> bool \<Rightarrow> regRange \<Rightarrow> regRange" where
  "touch_range pos isDef r =
     (let r = (if isDef \<and> pos < rr_start r then r\<lparr>rr_start := pos\<rparr> else r)
      in if pos > rr_end r then r\<lparr>rr_end := pos\<rparr> else r)"

fun touch_in :: "string \<Rightarrow> nat \<Rightarrow> bool \<Rightarrow> regRange list \<Rightarrow> regRange list" where
  "touch_in x pos isDef [] = [touch_range pos isDef \<lparr>rr_name = x, rr_start = pos, rr_end = pos\<rparr>]"
| "touch_in x pos isDef (r # rs) =
     (if rr_name r = x then touch_range pos isDef r # rs else r # touch_in x pos isDef rs)"

definition touch :: "(string \<Rightarrow> Kind) \<Rightarrow> string \<Rightarrow> bool \<Rightarrow> ra_state \<Rightarrow> ra_state" where
  "touch kinds x isDef = (\<lambda>(pos, rs). if kinds x \<noteq> KindInt then (pos, rs) else (pos, touch_in x pos isDef rs))"

definition hold_range :: "nat \<Rightarrow> nat \<Rightarrow> regRange \<Rightarrow> regRange" where
  "hold_range from to r =
     (let r = (if from < rr_start r then r\<lparr>rr_start := from\<rparr> else r)
      in if to > rr_end r then r\<lparr>rr_end := to\<rparr> else r)"

definition hold :: "string list \<Rightarrow> nat \<Rightarrow> nat \<Rightarrow> ra_state \<Rightarrow> ra_state" where
  "hold names from to = (\<lambda>(pos, rs). (pos, map (\<lambda>r. if rr_name r \<in> set names then hold_range from to r else r) rs))"

definition step_pos :: "ra_state \<Rightarrow> ra_state" where
  "step_pos = (\<lambda>(pos, rs). (pos + 1, rs))"

text \<open>The left side of an assignment to a variable.\<close>

fun assigned_var :: "string \<Rightarrow> expr \<Rightarrow> string option" where
  "assigned_var op (Identifier x) = (if op = ''='' then Some x else None)"
| "assigned_var op _ = None"

fun walkExpr :: "(string \<Rightarrow> Kind) \<Rightarrow> expr \<Rightarrow> ra_state \<Rightarrow> ra_state"
  and walkExprs :: "(string \<Rightarrow> Kind) \<Rightarrow> expr list \<Rightarrow> ra_state \<Rightarrow> ra_state" where
  "walkExpr k (Identifier x) st = touch k x False (step_pos st)"
| "walkExpr k (BinaryExpr l op r) st =
     (case assigned_var op l of
        Some x \<Rightarrow> walkExpr k r (touch k x True (step_pos st))
      | None \<Rightarrow> walkExpr k r (walkExpr k l (step_pos st)))"
| "walkExpr k (UnaryExpr _ e) st = walkExpr k e (step_pos st)"
| "walkExpr k (IndexExpr l i) st = walkExpr k i (walkExpr k l (step_pos st))"
| "walkExpr k (SliceExpr t a b) st = walkExpr k b (walkExpr k a (walkExpr k t (step_pos st)))"
| "walkExpr k (DotExpr l _) st = walkExpr k l (step_pos st)"
| "walkExpr k (CallExpr _ as) st = walkExprs k as (step_pos st)"
| "walkExpr k (ArrayLiteral es) st = walkExprs k es (step_pos st)"
| "walkExpr k (MapLiteral ks vs) st = walkExprs k vs (walkExprs k ks (step_pos st))"
| "walkExpr k (StructLiteral _ fs) st = walkExprs k fs (step_pos st)"
| "walkExpr k OtherExpr st = step_pos st"
| "walkExprs k [] st = st"
| "walkExprs k (e # es) st = walkExprs k es (walkExpr k e st)"

fun walkStmt :: "(string \<Rightarrow> Kind) \<Rightarrow> stmt \<Rightarrow> ra_state \<Rightarrow> ra_state"
  and walkStmts :: "(string \<Rightarrow> Kind) \<Rightarrow> stmt list \<Rightarrow> ra_state \<Rightarrow> ra_state" where
  "walkStmt k (VarDeclStmt x e) st = walkExpr k e (touch k x True (step_pos st))"
| "walkStmt k (ExprStmt e) st = walkExpr k e st"
| "walkStmt k (PrintStmt e) st = walkExpr k e st"
| "walkStmt k (ReturnStmt e) st = walkExpr k e st"
| "walkStmt k (IfStmt c t f) st = walkStmts k f (walkStmts k t (walkExpr k c st))"
| "walkStmt k (WhileStmt c body) st =
     (let from = fst st; names = usedNames [WhileStmt c body];
          st = walkStmts k body (walkExpr k c st)
      in hold names from (fst st) st)"
| "walkStmt k (ForStmt i c p body) st =
     (let st = (case i of None \<Rightarrow> st | Some s \<Rightarrow> walkStmt k s st);
          from = fst st; names = usedNames [ForStmt i c p body];
          st = (case c of None \<Rightarrow> st | Some e \<Rightarrow> walkExpr k e st);
          st = walkStmts k body st;
          st = (case p of None \<Rightarrow> st | Some s \<Rightarrow> walkStmt k s st)
      in hold names from (fst st) st)"
| "walkStmt k (ForInStmt _ it body) st = walkStmts k body (walkExpr k it st)"
| "walkStmt k (BlockStmt body) st = walkStmts k body st"
| "walkStmt k OtherStmt st = st"
| "walkStmts k [] st = st"
| "walkStmts k (s # ss) st = walkStmts k ss (walkStmt k s st)"

text \<open>The insertion sorts of the code: element \<open>i\<close> moves left while it is less than its neighbour.\<close>

fun sift :: "('a \<Rightarrow> 'a \<Rightarrow> bool) \<Rightarrow> 'a \<Rightarrow> 'a list \<Rightarrow> 'a list" where
  "sift lt x [] = [x]"
| "sift lt x (y # ys) = (if lt x y then y # sift lt x ys else x # y # ys)"

definition insert_left :: "('a \<Rightarrow> 'a \<Rightarrow> bool) \<Rightarrow> 'a list \<Rightarrow> 'a \<Rightarrow> 'a list" where
  "insert_left lt done x = rev (sift lt x (rev done))"

definition swap_sort :: "('a \<Rightarrow> 'a \<Rightarrow> bool) \<Rightarrow> 'a list \<Rightarrow> 'a list" where
  "swap_sort lt xs = foldl (insert_left lt) [] xs"

definition range_events :: "regRange list \<Rightarrow> (nat \<times> int) list" where
  "range_events rs = concat (map (\<lambda>r. [(rr_start r, 1), (rr_end r + 1, -1)]) rs)"

definition event_less :: "nat \<times> int \<Rightarrow> nat \<times> int \<Rightarrow> bool" where
  "event_less a b \<longleftrightarrow> fst a < fst b \<or> fst a = fst b \<and> snd a < snd b"

fun sweep :: "int \<times> int \<Rightarrow> (nat \<times> int) list \<Rightarrow> int \<times> int" where
  "sweep (peak, live) [] = (peak, live)"
| "sweep (peak, live) (e # es) =
     (let live = live + snd e; peak = (if live > peak then live else peak) in sweep (peak, live) es)"

definition range_less :: "regRange \<Rightarrow> regRange \<Rightarrow> bool" where
  "range_less a b \<longleftrightarrow> rr_start a < rr_start b \<or> rr_start a = rr_start b \<and> rr_name a < rr_name b"

definition liveRanges :: "(string \<Rightarrow> Kind) \<Rightarrow> stmt list \<Rightarrow> regRange list \<times> int" where
  "liveRanges kinds stmts =
     (let rs = snd (walkStmts kinds stmts (0, []));
          events = swap_sort event_less (range_events rs);
          peak = fst (sweep (0, 0) events);
          out = filter (\<lambda>r. \<not> rr_end r < rr_start r) rs
      in (swap_sort range_less out, peak))"

section \<open>Linear scan\<close>

text \<open>The registers in use with the ranges that hold them, and the registers given to names.\<close>

type_synonym scan_regs = "(NReg \<rightharpoonup> regRange) \<times> (string \<times> NReg) list"

definition release :: "regRange \<Rightarrow> (NReg \<rightharpoonup> regRange) \<Rightarrow> (NReg \<rightharpoonup> regRange)" where
  "release r heldBy = (\<lambda>reg. case heldBy reg of
     Some other \<Rightarrow> if rr_end other < rr_start r then None else Some other | None \<Rightarrow> None)"

fun take_reg :: "regRange \<Rightarrow> NReg list \<Rightarrow> scan_regs \<Rightarrow> scan_regs" where
  "take_reg r [] st = st"
| "take_reg r (reg # regs) (heldBy, assigned) =
     (case heldBy reg of
        Some _ \<Rightarrow> take_reg r regs (heldBy, assigned)
      | None \<Rightarrow> (heldBy(reg \<mapsto> r), assigned @ [(rr_name r, reg)]))"

definition scan_range :: "scan_regs \<Rightarrow> regRange \<Rightarrow> scan_regs" where
  "scan_range = (\<lambda>(heldBy, assigned) r. take_reg r allocRegs (release r heldBy, assigned))"

definition linear_scan :: "regRange list \<Rightarrow> (string \<times> NReg) list" where
  "linear_scan ranges = snd (foldl scan_range (Map.empty, []) ranges)"

record reg_plan =
  regOf :: "(string \<times> NReg) list"
  regsUsed :: "NReg list"

definition planRegs :: "(string \<Rightarrow> Kind) \<Rightarrow> FuncDecl \<Rightarrow> reg_plan" where
  "planRegs kinds fd =
     (if \<not> hasControlFlow (fd_Body fd) then \<lparr>regOf = [], regsUsed = []\<rparr>
      else
        (let (ranges, peak) = liveRanges kinds (fd_Body fd) in
         if peak < int raMinLive then \<lparr>regOf = [], regsUsed = []\<rparr>
         else
           (let assigned = linear_scan ranges;
                used = filter (\<lambda>reg. list_ex (\<lambda>(_, got). got = reg) assigned) allocRegs
            in \<lparr>regOf = assigned, regsUsed = used\<rparr>)))"

definition regOfFor :: "reg_plan \<Rightarrow> string \<Rightarrow> NReg option" where
  "regOfFor plan x = map_of (regOf plan) x"

section \<open>Access to locals\<close>

text \<open>The registers and the frame of a running function, as far as int locals go.  \<open>argRegs\<close> carry the
  first six parameters; the others come from the array at \<open>R10\<close>.\<close>

record frame_state =
  fr_regs :: "NReg \<Rightarrow> int"
  fr_slots :: "nat \<Rightarrow> int"
  fr_extra :: "int list"

definition argRegs :: "NReg list" where "argRegs = [RDI, RSI, RDX, RCX, R8, R9]"

definition StoreStack :: "int \<Rightarrow> nat \<Rightarrow> frame_state \<Rightarrow> frame_state" where
  "StoreStack v off st = st\<lparr>fr_slots := (fr_slots st)(off := v)\<rparr>"

text \<open>The homing of int parameters (each takes one unit), from the unit of the first on.\<close>

fun home_params :: "(string \<Rightarrow> nat) \<Rightarrow> nat \<Rightarrow> string list \<Rightarrow> frame_state \<Rightarrow> frame_state" where
  "home_params slots u [] st = st"
| "home_params slots u (p # ps) st =
     (if u < length argRegs then home_params slots (u + 1) ps (StoreStack (fr_regs st (argRegs ! u)) (slots p) st)
      else
        (let v = fr_extra st ! (u - length argRegs); st = st\<lparr>fr_regs := (fr_regs st)(RAX := v)\<rparr>
         in home_params slots (u + 1) ps (StoreStack v (slots p) st)))"

text \<open>Reading a local, and writing the value in \<open>RAX\<close> to it.\<close>

definition read_local :: "reg_plan \<Rightarrow> (string \<Rightarrow> nat) \<Rightarrow> string \<Rightarrow> frame_state \<Rightarrow> frame_state" where
  "read_local plan slots x st =
     (case regOfFor plan x of
        Some reg \<Rightarrow> st\<lparr>fr_regs := (fr_regs st)(RAX := fr_regs st reg)\<rparr>
      | None \<Rightarrow> st\<lparr>fr_regs := (fr_regs st)(RAX := fr_slots st (slots x))\<rparr>)"

definition write_local :: "reg_plan \<Rightarrow> (string \<Rightarrow> nat) \<Rightarrow> string \<Rightarrow> frame_state \<Rightarrow> frame_state" where
  "write_local plan slots x st =
     (case regOfFor plan x of
        Some reg \<Rightarrow> st\<lparr>fr_regs := (fr_regs st)(reg := fr_regs st RAX)\<rparr>
      | None \<Rightarrow> StoreStack (fr_regs st RAX) (slots x) st)"

text \<open>The store of the element at the head of a for-in loop over an array: to the frame, always.\<close>

definition forin_bind :: "(string \<Rightarrow> nat) \<Rightarrow> string \<Rightarrow> int \<Rightarrow> frame_state \<Rightarrow> frame_state" where
  "forin_bind slots x v st = StoreStack v (slots x) (st\<lparr>fr_regs := (fr_regs st)(RAX := v)\<rparr>)"

end
