(* ===== verification/Regalloc_Props.thy ===== *)
theory Regalloc_Props
  imports Regalloc "HOL-Library.Multiset"
begin

text \<open>
  What the register allocator guarantees: live ranges cover every mention of a local and, for while
  and for loops, the whole loop; the peak is the largest number of ranges that meet in a point; two
  locals in one register have disjoint ranges.  And what the emitter does with parameters and the
  variables of for-in loops, which have no place in this picture.
\<close>

section \<open>Mentions and loops\<close>

text \<open>The number of points of a node, the points where names are mentioned, and the loops with the
  names they use and their first and last points, as the walk numbers them.\<close>

fun e_size :: "expr \<Rightarrow> nat" and es_size :: "expr list \<Rightarrow> nat" where
  "e_size (Identifier x) = 1"
| "e_size (BinaryExpr l op r) = 1 + (if assigned_var op l = None then e_size l else 0) + e_size r"
| "e_size (UnaryExpr _ e) = 1 + e_size e"
| "e_size (IndexExpr l i) = 1 + e_size l + e_size i"
| "e_size (SliceExpr t a b) = 1 + e_size t + e_size a + e_size b"
| "e_size (DotExpr l _) = 1 + e_size l"
| "e_size (CallExpr _ as) = 1 + es_size as"
| "e_size (ArrayLiteral es) = 1 + es_size es"
| "e_size (MapLiteral ks vs) = 1 + es_size ks + es_size vs"
| "e_size (StructLiteral _ fs) = 1 + es_size fs"
| "e_size OtherExpr = 1"
| "es_size [] = 0"
| "es_size (e # es) = e_size e + es_size es"

fun e_uses :: "nat \<Rightarrow> expr \<Rightarrow> (string \<times> nat) list" and es_uses :: "nat \<Rightarrow> expr list \<Rightarrow> (string \<times> nat) list" where
  "e_uses p (Identifier x) = [(x, p + 1)]"
| "e_uses p (BinaryExpr l op r) =
     (case assigned_var op l of
        Some x \<Rightarrow> (x, p + 1) # e_uses (p + 1) r
      | None \<Rightarrow> e_uses (p + 1) l @ e_uses (p + 1 + e_size l) r)"
| "e_uses p (UnaryExpr _ e) = e_uses (p + 1) e"
| "e_uses p (IndexExpr l i) = e_uses (p + 1) l @ e_uses (p + 1 + e_size l) i"
| "e_uses p (SliceExpr t a b) = e_uses (p + 1) t @ e_uses (p + 1 + e_size t) a @ e_uses (p + 1 + e_size t + e_size a) b"
| "e_uses p (DotExpr l _) = e_uses (p + 1) l"
| "e_uses p (CallExpr _ as) = es_uses (p + 1) as"
| "e_uses p (ArrayLiteral es) = es_uses (p + 1) es"
| "e_uses p (MapLiteral ks vs) = es_uses (p + 1) ks @ es_uses (p + 1 + es_size ks) vs"
| "e_uses p (StructLiteral _ fs) = es_uses (p + 1) fs"
| "e_uses p OtherExpr = []"
| "es_uses p [] = []"
| "es_uses p (e # es) = e_uses p e @ es_uses (p + e_size e) es"

fun s_size :: "stmt \<Rightarrow> nat" and ss_size :: "stmt list \<Rightarrow> nat" where
  "s_size (VarDeclStmt x e) = 1 + e_size e"
| "s_size (ExprStmt e) = e_size e"
| "s_size (PrintStmt e) = e_size e"
| "s_size (ReturnStmt e) = e_size e"
| "s_size (IfStmt c t f) = e_size c + ss_size t + ss_size f"
| "s_size (WhileStmt c body) = e_size c + ss_size body"
| "s_size (ForStmt i c p body) = (case i of None \<Rightarrow> 0 | Some s \<Rightarrow> s_size s) + (case c of None \<Rightarrow> 0 | Some e \<Rightarrow> e_size e)
     + ss_size body + (case p of None \<Rightarrow> 0 | Some s \<Rightarrow> s_size s)"
| "s_size (ForInStmt _ it body) = e_size it + ss_size body"
| "s_size (BlockStmt body) = ss_size body"
| "s_size OtherStmt = 0"
| "ss_size [] = 0"
| "ss_size (s # ss) = s_size s + ss_size ss"

fun s_uses :: "nat \<Rightarrow> stmt \<Rightarrow> (string \<times> nat) list" and ss_uses :: "nat \<Rightarrow> stmt list \<Rightarrow> (string \<times> nat) list" where
  "s_uses p (VarDeclStmt x e) = (x, p + 1) # e_uses (p + 1) e"
| "s_uses p (ExprStmt e) = e_uses p e"
| "s_uses p (PrintStmt e) = e_uses p e"
| "s_uses p (ReturnStmt e) = e_uses p e"
| "s_uses p (IfStmt c t f) = e_uses p c @ ss_uses (p + e_size c) t @ ss_uses (p + e_size c + ss_size t) f"
| "s_uses p (WhileStmt c body) = e_uses p c @ ss_uses (p + e_size c) body"
| "s_uses p (ForStmt i c q body) =
     (let p1 = p + (case i of None \<Rightarrow> 0 | Some s \<Rightarrow> s_size s); p2 = p1 + (case c of None \<Rightarrow> 0 | Some e \<Rightarrow> e_size e)
      in (case i of None \<Rightarrow> [] | Some s \<Rightarrow> s_uses p s) @ (case c of None \<Rightarrow> [] | Some e \<Rightarrow> e_uses p1 e)
         @ ss_uses p2 body @ (case q of None \<Rightarrow> [] | Some s \<Rightarrow> s_uses (p2 + ss_size body) s))"
| "s_uses p (ForInStmt _ it body) = e_uses p it @ ss_uses (p + e_size it) body"
| "s_uses p (BlockStmt body) = ss_uses p body"
| "s_uses p OtherStmt = []"
| "ss_uses p [] = []"
| "ss_uses p (s # ss) = s_uses p s @ ss_uses (p + s_size s) ss"

fun s_loops :: "nat \<Rightarrow> stmt \<Rightarrow> (string list \<times> nat \<times> nat) list" and ss_loops :: "nat \<Rightarrow> stmt list \<Rightarrow> (string list \<times> nat \<times> nat) list" where
  "s_loops p (IfStmt c t f) = ss_loops (p + e_size c) t @ ss_loops (p + e_size c + ss_size t) f"
| "s_loops p (WhileStmt c body) = ss_loops (p + e_size c) body @ [(st_names (WhileStmt c body), p, p + s_size (WhileStmt c body))]"
| "s_loops p (ForStmt i c q body) =
     (let p1 = p + (case i of None \<Rightarrow> 0 | Some s \<Rightarrow> s_size s); p2 = p1 + (case c of None \<Rightarrow> 0 | Some e \<Rightarrow> e_size e)
      in (case i of None \<Rightarrow> [] | Some s \<Rightarrow> s_loops p s) @ ss_loops p2 body
         @ (case q of None \<Rightarrow> [] | Some s \<Rightarrow> s_loops (p2 + ss_size body) s)
         @ [(st_names (ForStmt i c q body), p1, p + s_size (ForStmt i c q body))])"
| "s_loops p (ForInStmt _ it body) = ss_loops (p + e_size it) body"
| "s_loops p (BlockStmt body) = ss_loops p body"
| "s_loops p s = []"
| "ss_loops p [] = []"
| "ss_loops p (s # ss) = s_loops p s @ ss_loops (p + s_size s) ss"

section \<open>Live ranges cover the mentions\<close>

definition rs_inv :: "(string \<Rightarrow> Kind) \<Rightarrow> nat \<Rightarrow> regRange list \<Rightarrow> bool" where
  "rs_inv k p rs \<longleftrightarrow> distinct (map rr_name rs) \<and> (\<forall>r \<in> set rs. rr_start r \<le> rr_end r \<and> rr_end r \<le> p \<and> k (rr_name r) = KindInt)"

definition covers :: "regRange list \<Rightarrow> string \<Rightarrow> nat \<Rightarrow> nat \<Rightarrow> bool" where
  "covers rs x a b \<longleftrightarrow> (\<exists>r \<in> set rs. rr_name r = x \<and> rr_start r \<le> a \<and> b \<le> rr_end r)"

definition widens :: "regRange list \<Rightarrow> regRange list \<Rightarrow> bool" where
  "widens rs rs' \<longleftrightarrow> (\<forall>x a b. covers rs x a b \<longrightarrow> covers rs' x a b)"

definition uses_covered :: "(string \<Rightarrow> Kind) \<Rightarrow> regRange list \<Rightarrow> (string \<times> nat) list \<Rightarrow> bool" where
  "uses_covered k rs us \<longleftrightarrow> (\<forall>x q. (x, q) \<in> set us \<longrightarrow> k x = KindInt \<longrightarrow> covers rs x q q)"

definition loops_covered :: "(string \<Rightarrow> Kind) \<Rightarrow> regRange list \<Rightarrow> (string list \<times> nat \<times> nat) list \<Rightarrow> bool" where
  "loops_covered k rs ls \<longleftrightarrow> (\<forall>ns a b x. (ns, a, b) \<in> set ls \<longrightarrow> x \<in> set ns \<longrightarrow> k x = KindInt \<longrightarrow> covers rs x a b)"

lemma widens_covered:
  "widens rs rs' \<Longrightarrow> uses_covered k rs us \<Longrightarrow> uses_covered k rs' us"
  "widens rs rs' \<Longrightarrow> loops_covered k rs ls \<Longrightarrow> loops_covered k rs' ls"
  by (auto simp: widens_def uses_covered_def loops_covered_def)

lemma covered_append:
  "uses_covered k rs (us @ us') \<longleftrightarrow> uses_covered k rs us \<and> uses_covered k rs us'"
  "loops_covered k rs (ls @ ls') \<longleftrightarrow> loops_covered k rs ls \<and> loops_covered k rs ls'"
  "uses_covered k rs []" "loops_covered k rs []"
  by (auto simp: uses_covered_def loops_covered_def)

lemma widens_trans: "widens rs rs' \<Longrightarrow> widens rs' rs'' \<Longrightarrow> widens rs rs''"
  by (simp add: widens_def)

text \<open>A part of the walk from one state to another: it takes \<open>n\<close> points, keeps the invariant, and
  covers the mentions \<open>us\<close> and the loops \<open>ls\<close>.\<close>

definition walks :: "(string \<Rightarrow> Kind) \<Rightarrow> nat \<Rightarrow> (string \<times> nat) list \<Rightarrow> (string list \<times> nat \<times> nat) list \<Rightarrow> ra_state \<Rightarrow> ra_state \<Rightarrow> bool" where
  "walks k n us ls st st' \<longleftrightarrow> (rs_inv k (fst st) (snd st) \<longrightarrow>
     fst st' = fst st + n \<and> rs_inv k (fst st') (snd st') \<and> widens (snd st) (snd st')
     \<and> uses_covered k (snd st') us \<and> loops_covered k (snd st') ls)"

lemma walks_trans:
  assumes "walks k n us ls st st'" "walks k m us' ls' st' st''"
  shows "walks k (n + m) (us @ us') (ls @ ls') st st''"
  using assms widens_covered [of "snd st'" "snd st''" k] widens_trans [of "snd st" "snd st'" "snd st''"]
  by (auto simp: walks_def covered_append)

lemma walks_id: "walks k 0 [] [] st st"
  by (simp add: walks_def widens_def covered_append)

lemma walks_step: "walks k 1 [] [] st (step_pos st)"
  by (cases st) (auto simp: walks_def step_pos_def widens_def rs_inv_def le_SucI covered_append)

lemma touch_range_props:
  assumes "rr_start r \<le> rr_end r" "rr_end r \<le> p"
  shows "rr_name (touch_range p d r) = rr_name r \<and> rr_start (touch_range p d r) = rr_start r \<and> rr_end (touch_range p d r) = p"
  using assms by (auto simp: Let_def)

lemma touch_in_names: "set (map rr_name (touch_in x p d rs)) = insert x (set (map rr_name rs))"
proof (induction rs)
  case (Cons r rs)
  have "rr_name (touch_range p d r) = rr_name r" by (simp add: Let_def)
  with Cons show ?case by auto
qed (simp add: Let_def)

lemma touch_in_inv: "k x = KindInt \<Longrightarrow> rs_inv k p rs \<Longrightarrow> rs_inv k p (touch_in x p d rs)"
proof (induction rs)
  case (Cons r rs)
  have i: "rs_inv k p rs" "rr_name r \<notin> set (map rr_name rs)" "rr_start r \<le> rr_end r" "rr_end r \<le> p" "k (rr_name r) = KindInt"
    using Cons.prems by (auto simp: rs_inv_def)
  show ?case
  proof (cases "rr_name r = x")
    case True
    with touch_range_props [OF i(3,4), of d] i show ?thesis by (auto simp: rs_inv_def simp del: touch_range.simps)
  next
    case False
    with touch_in_names [of x p d rs] Cons.IH [OF Cons.prems(1) i(1)] i show ?thesis by (auto simp: rs_inv_def simp del: touch_range.simps)
  qed
qed (simp add: rs_inv_def Let_def)

lemma touch_in_covers:
  assumes "rs_inv k p rs"
  shows "covers (touch_in x p d rs) x p p" "covers rs y a b \<Longrightarrow> covers (touch_in x p d rs) y a b"
proof -
  show "covers (touch_in x p d rs) x p p"
    using assms
  proof (induction rs)
    case (Cons r rs)
    have i: "rs_inv k p rs" "rr_start r \<le> rr_end r" "rr_end r \<le> p" using Cons.prems by (auto simp: rs_inv_def)
    with Cons.IH [OF i(1)] touch_range_props [OF i(2,3), of d] show ?case by (auto simp: covers_def simp del: touch_range.simps)
  qed (simp add: covers_def Let_def)
  show "covers rs y a b \<Longrightarrow> covers (touch_in x p d rs) y a b"
    using assms
  proof (induction rs)
    case (Cons r rs)
    have i: "rs_inv k p rs" "rr_start r \<le> rr_end r" "rr_end r \<le> p" using Cons.prems by (auto simp: rs_inv_def)
    with Cons touch_range_props [OF i(2,3), of d] show ?case by (auto simp: covers_def simp del: touch_range.simps)
  qed (simp add: covers_def)
qed

lemma walks_touch: "walks k 0 [(x, fst st)] [] st (touch k x d st)"
proof (cases "k x = KindInt")
  case True
  obtain p rs where st: "st = (p, rs)" by (cases st)
  show ?thesis using touch_in_inv [where k = k and x = x and p = p and rs = rs and d = d] touch_in_covers [where k = k and p = p and rs = rs and x = x and d = d] True
    by (auto simp: walks_def touch_def st widens_def covered_append uses_covered_def)
next
  case False
  then show ?thesis by (cases st) (auto simp: walks_def touch_def widens_def covered_append uses_covered_def)
qed

lemma hold_range_props:
  "rr_name (hold_range a b r) = rr_name r" "rr_start (hold_range a b r) = min a (rr_start r)" "rr_end (hold_range a b r) = max b (rr_end r)"
  by (auto simp: hold_range_def Let_def)

lemma hold_covers:
  "covers rs x c d \<Longrightarrow> covers (map (\<lambda>r. if rr_name r \<in> set ns then hold_range a b r else r) rs) x c d"
  "covers rs x c d \<Longrightarrow> x \<in> set ns \<Longrightarrow> covers (map (\<lambda>r. if rr_name r \<in> set ns then hold_range a b r else r) rs) x a b"
proof -
  assume "covers rs x c d"
  then obtain r where r: "r \<in> set rs" "rr_name r = x" "rr_start r \<le> c" "d \<le> rr_end r" by (auto simp: covers_def)
  let ?h = "\<lambda>r. if rr_name r \<in> set ns then hold_range a b r else r"
  have h: "?h r \<in> set (map ?h rs)" using r(1) by simp
  have "rr_name (?h r) = x" "rr_start (?h r) \<le> c" "d \<le> rr_end (?h r)" using r by (auto simp: hold_range_props)
  with h show "covers (map ?h rs) x c d" unfolding covers_def by blast
  show "covers (map ?h rs) x a b" if "x \<in> set ns"
  proof -
    have "rr_name (?h r) = x" "rr_start (?h r) \<le> a" "b \<le> rr_end (?h r)" using r that by (auto simp: hold_range_props)
    with h show ?thesis unfolding covers_def by blast
  qed
qed

lemma walks_hold:
  assumes "walks k n us ls st st'" "a \<le> fst st + n" "\<forall>x \<in> set ns. \<exists>q. (x, q) \<in> set us" "b = fst st + n"
  shows "walks k n us (ls @ [(ns, a, b)]) st (hold ns a (fst st') st')"
proof (cases "rs_inv k (fst st) (snd st)")
  case True
  obtain p' rs' where st': "st' = (p', rs')" by (cases st')
  have w: "p' = b" "rs_inv k p' rs'" "widens (snd st) rs'"
    "uses_covered k rs' us" "loops_covered k rs' ls"
    using assms(1,4) True by (auto simp: walks_def st')
  let ?h = "map (\<lambda>r. if rr_name r \<in> set ns then hold_range a b r else r) rs'"
  have "map rr_name ?h = map rr_name rs'" by (simp add: hold_range_props)
  then have d: "distinct (map rr_name ?h)" using w(2) by (simp only: rs_inv_def)
  have "rr_start r' \<le> rr_end r' \<and> rr_end r' \<le> b \<and> k (rr_name r') = KindInt" if m: "r' \<in> set ?h" for r'
  proof -
    obtain r where r: "r \<in> set rs'" "r' = (if rr_name r \<in> set ns then hold_range a b r else r)" using m by auto
    have "rr_start r \<le> rr_end r" "rr_end r \<le> b" "k (rr_name r) = KindInt" using r(1) w(1,2) by (auto simp: rs_inv_def)
    then show ?thesis using r(2) assms(2,4) by (auto simp: hold_range_props min_def)
  qed
  with d have i: "rs_inv k b ?h" unfolding rs_inv_def by blast
  have n: "covers ?h x a b" if m: "x \<in> set ns" "k x = KindInt" for x
  proof -
    obtain q where "(x, q) \<in> set us" using assms(3) m(1) by blast
    with w(4) m(2) have "covers rs' x q q" by (simp add: uses_covered_def)
    then show ?thesis using m(1) by (rule hold_covers(2))
  qed
  have v: "widens rs' ?h" by (auto simp: widens_def hold_covers(1))
  have "loops_covered k ?h [(ns, a, b)]" using n by (simp add: loops_covered_def)
  with widens_covered [OF v] w(4,5) have "uses_covered k ?h us" "loops_covered k ?h (ls @ [(ns, a, b)])" by (simp_all add: covered_append)
  moreover have "hold ns a (fst st') st' = (b, ?h)" using w(1) by (simp add: st' hold_def)
  ultimately show ?thesis using widens_trans [OF w(3) v] i assms(4) by (simp add: walks_def)
qed (simp add: walks_def)

lemma walks_step_then: "walks k n us ls (step_pos st) st' \<Longrightarrow> walks k (1 + n) us ls st st'"
  using walks_trans [OF walks_step, of k n us ls st st'] by simp

lemma walks_touch_then: "walks k n us ls (touch k x d (step_pos st)) st' \<Longrightarrow> walks k (1 + n) ((x, fst st + 1) # us) ls st st'"
  using walks_trans [OF walks_trans [OF walks_step walks_touch], of k n us ls x d st st'] by (cases st) (simp add: step_pos_def)

lemma fst_step [simp]: "fst (step_pos st) = fst st + 1"
  by (cases st) (simp add: step_pos_def)

lemma fst_touch [simp]: "fst (touch k x d st) = fst st"
  by (cases st) (simp add: touch_def)

lemma fst_hold [simp]: "fst (hold ns a b st) = fst st"
  by (cases st) (simp add: hold_def)

lemma fst_walkExpr [simp]: "fst (walkExpr k e st) = fst st + e_size e" and fst_walkExprs [simp]: "fst (walkExprs k es st) = fst st + es_size es"
  by (induction k e st and k es st rule: walkExpr_walkExprs.induct) (auto split: option.splits)

lemma walks_expr: "walks k (e_size e) (e_uses (fst st) e) [] st (walkExpr k e st)"
  and walks_exprs: "walks k (es_size es) (es_uses (fst st) es) [] st (walkExprs k es st)"
proof (induction k e st and k es st rule: walkExpr_walkExprs.induct)
  case (1 k x st)
  show ?case using walks_touch_then [OF walks_id, of k x st False] by simp
next
  case (2 k l op r st)
  show ?case
  proof (cases "assigned_var op l")
    case None
    have "walks k (e_size l + e_size r) (e_uses (fst st + 1) l @ e_uses (fst st + 1 + e_size l) r) [] (step_pos st)
        (walkExpr k r (walkExpr k l (step_pos st)))"
      using walks_trans [OF 2(1) [OF None] 2(2) [OF None]] by simp
    from walks_step_then [OF this] None show ?thesis by simp
  next
    case (Some x)
    with 2(3) [OF Some] have "walks k (e_size r) (e_uses (fst st + 1) r) [] (touch k x True (step_pos st)) (walkExpr k r (touch k x True (step_pos st)))"
      by simp
    from walks_touch_then [OF this] Some show ?thesis by simp
  qed
next
  case (4 k l i st)
  from walks_step_then [OF walks_trans [OF 4]] show ?case by (simp add: add.assoc)
next
  case (5 k t a b st)
  from walks_step_then [OF walks_trans [OF walks_trans [OF 5(1,2)] 5(3)]] show ?case by (simp add: add.assoc)
next
  case (9 k ks vs st)
  from walks_step_then [OF walks_trans [OF 9]] show ?case by (simp add: add.assoc)
next
  case (11 k st)
  show ?case using walks_step [of k st] by simp
next
  case (12 k st)
  show ?case by (simp add: walks_id)
next
  case (13 k e es st)
  from walks_trans [OF 13] show ?case by simp
qed (use walks_step_then in \<open>fastforce\<close>)+

lemma ex_names_uses: "x \<in> set (ex_names e) \<Longrightarrow> \<exists>q. (x, q) \<in> set (e_uses p e)"
  and exs_names_uses: "x \<in> set (exs_names es) \<Longrightarrow> \<exists>q. (x, q) \<in> set (es_uses p es)"
proof (induction e and es arbitrary: p and p rule: ex_names_exs_names.induct)
  case (2 l op r)
  show ?case
  proof (cases "assigned_var op l")
    case None
    with 2 show ?thesis by fastforce
  next
    case (Some y)
    then have "ex_names l = [y]" by (cases l) (auto split: if_splits)
    with 2 Some show ?thesis by fastforce
  qed
qed fastforce+

lemma st_names_uses: "x \<in> set (st_names s) \<Longrightarrow> \<exists>q. (x, q) \<in> set (s_uses p s)"
  and sts_names_uses: "x \<in> set (sts_names ss) \<Longrightarrow> \<exists>q. (x, q) \<in> set (ss_uses p ss)"
proof (induction s and ss arbitrary: p and p rule: st_names_sts_names.induct)
  case (7 i c q body)
  define p1 where "p1 = p + (case i of None \<Rightarrow> 0 | Some s \<Rightarrow> s_size s)"
  define p2 where "p2 = p1 + (case c of None \<Rightarrow> 0 | Some e \<Rightarrow> e_size e)"
  have u: "s_uses p (ForStmt i c q body) = (case i of None \<Rightarrow> [] | Some s \<Rightarrow> s_uses p s) @ (case c of None \<Rightarrow> [] | Some e \<Rightarrow> e_uses p1 e)
       @ ss_uses p2 body @ (case q of None \<Rightarrow> [] | Some s \<Rightarrow> s_uses (p2 + ss_size body) s)"
    unfolding p2_def p1_def by (simp add: Let_def)
  consider s where "i = Some s" "x \<in> set (st_names s)" | e where "c = Some e" "x \<in> set (ex_names e)"
    | "x \<in> set (sts_names body)" | s where "q = Some s" "x \<in> set (st_names s)"
    using 7(4) by (auto split: option.splits)
  then show ?case
  proof cases
    case 1
    with 7(1) [of s p] show ?thesis unfolding u by auto
  next
    case 2
    with ex_names_uses [of x e p1] show ?thesis unfolding u by auto
  next
    case 3
    with 7(2) [of p2] show ?thesis unfolding u by auto
  next
    case 4
    with 7(3) [of s "p2 + ss_size body"] show ?thesis unfolding u by auto
  qed
qed (use ex_names_uses in \<open>fastforce\<close>)+

lemma fst_walkStmt [simp]: "fst (walkStmt k s st) = fst st + s_size s" and fst_walkStmts [simp]: "fst (walkStmts k ss st) = fst st + ss_size ss"
  by (induction k s st and k ss st rule: walkStmt_walkStmts.induct) (auto simp: Let_def split: option.splits)

lemma walks_option:
  "(\<And>s. i = Some s \<Longrightarrow> walks k (f s) (g s) (h s) st (w s st)) \<Longrightarrow>
    walks k (case i of None \<Rightarrow> 0 | Some s \<Rightarrow> f s) (case i of None \<Rightarrow> [] | Some s \<Rightarrow> g s) (case i of None \<Rightarrow> [] | Some s \<Rightarrow> h s) st
      (case i of None \<Rightarrow> st | Some s \<Rightarrow> w s st)"
  by (cases i) (simp_all add: walks_id)

lemma walks_stmt: "walks k (s_size s) (s_uses (fst st) s) (s_loops (fst st) s) st (walkStmt k s st)"
  and walks_stmts: "walks k (ss_size ss) (ss_uses (fst st) ss) (ss_loops (fst st) ss) st (walkStmts k ss st)"
proof (induction k s st and k ss st rule: walkStmt_walkStmts.induct)
  case (1 k x e st)
  from walks_touch_then [OF walks_expr [of k e "touch k x True (step_pos st)"]] show ?case by simp
next
  case (5 k c t f st)
  from walks_trans [OF walks_trans [OF walks_expr 5(1)] 5(2)] show ?case by (simp add: add.assoc)
next
  case (6 k c body st)
  have w: "walks k (e_size c + ss_size body) (e_uses (fst st) c @ ss_uses (fst st + e_size c) body) (ss_loops (fst st + e_size c) body) st
      (walkStmts k body (walkExpr k c st))"
    using walks_trans [OF walks_expr 6] by simp
  have n: "\<forall>x \<in> set (st_names (WhileStmt c body)). \<exists>q. (x, q) \<in> set (e_uses (fst st) c @ ss_uses (fst st + e_size c) body)"
    using st_names_uses [of _ "WhileStmt c body" "fst st"] by simp
  from walks_hold [OF w _ n refl, of "fst st"] show ?case by (simp add: usedNames_def Let_def add.assoc)
next
  case (7 k i c q body st)
  define s1 where "s1 = (case i of None \<Rightarrow> st | Some s \<Rightarrow> walkStmt k s st)"
  define s2 where "s2 = (case c of None \<Rightarrow> s1 | Some e \<Rightarrow> walkExpr k e s1)"
  define s3 where "s3 = walkStmts k body s2"
  define s4 where "s4 = (case q of None \<Rightarrow> s3 | Some s \<Rightarrow> walkStmt k s s3)"
  have e: "walkStmt k (ForStmt i c q body) st = hold (st_names (ForStmt i c q body)) (fst s1) (fst s4) s4"
    unfolding s4_def s3_def s2_def s1_def by (simp add: usedNames_def Let_def)
  have f1: "fst s1 = fst st + (case i of None \<Rightarrow> 0 | Some s \<Rightarrow> s_size s)" by (simp add: s1_def split: option.split)
  have f2: "fst s2 = fst s1 + (case c of None \<Rightarrow> 0 | Some e \<Rightarrow> e_size e)" by (simp add: s2_def split: option.split)
  have f3: "fst s3 = fst s2 + ss_size body" by (simp add: s3_def)
  have w1: "walks k (case i of None \<Rightarrow> 0 | Some s \<Rightarrow> s_size s) (case i of None \<Rightarrow> [] | Some s \<Rightarrow> s_uses (fst st) s)
      (case i of None \<Rightarrow> [] | Some s \<Rightarrow> s_loops (fst st) s) st s1"
    unfolding s1_def using 7(1) by (intro walks_option) simp
  have w2: "walks k (case c of None \<Rightarrow> 0 | Some e \<Rightarrow> e_size e) (case c of None \<Rightarrow> [] | Some e \<Rightarrow> e_uses (fst s1) e) [] s1 s2"
    unfolding s2_def using walks_expr by (cases c) (simp_all add: walks_id)
  have w3: "walks k (ss_size body) (ss_uses (fst s2) body) (ss_loops (fst s2) body) s2 s3"
    unfolding s3_def s2_def s1_def using 7(2) by simp
  have w4: "walks k (case q of None \<Rightarrow> 0 | Some s \<Rightarrow> s_size s) (case q of None \<Rightarrow> [] | Some s \<Rightarrow> s_uses (fst s3) s)
      (case q of None \<Rightarrow> [] | Some s \<Rightarrow> s_loops (fst s3) s) s3 s4"
    unfolding s4_def using 7(3) by (intro walks_option) (simp add: s1_def s2_def s3_def)
  note w = walks_trans [OF walks_trans [OF walks_trans [OF w1 w2] w3] w4]
  have u: "s_uses (fst st) (ForStmt i c q body) = (((case i of None \<Rightarrow> [] | Some s \<Rightarrow> s_uses (fst st) s) @ (case c of None \<Rightarrow> [] | Some e \<Rightarrow> e_uses (fst s1) e))
      @ ss_uses (fst s2) body) @ (case q of None \<Rightarrow> [] | Some s \<Rightarrow> s_uses (fst s3) s)"
    unfolding f3 f2 f1 by (simp add: Let_def)
  have l: "s_loops (fst st) (ForStmt i c q body) = ((((case i of None \<Rightarrow> [] | Some s \<Rightarrow> s_loops (fst st) s) @ []) @ ss_loops (fst s2) body)
      @ (case q of None \<Rightarrow> [] | Some s \<Rightarrow> s_loops (fst s3) s)) @ [(st_names (ForStmt i c q body), fst s1, fst st + s_size (ForStmt i c q body))]"
    unfolding f3 f2 f1 by (simp add: Let_def)
  have n: "s_size (ForStmt i c q body) = (case i of None \<Rightarrow> 0 | Some s \<Rightarrow> s_size s) + (case c of None \<Rightarrow> 0 | Some e \<Rightarrow> e_size e)
      + ss_size body + (case q of None \<Rightarrow> 0 | Some s \<Rightarrow> s_size s)" by simp
  show ?case unfolding e l
  proof (rule walks_hold)
    show "walks k (s_size (ForStmt i c q body)) (s_uses (fst st) (ForStmt i c q body)) ((((case i of None \<Rightarrow> [] | Some s \<Rightarrow> s_loops (fst st) s) @ []) @
        ss_loops (fst s2) body) @ (case q of None \<Rightarrow> [] | Some s \<Rightarrow> s_loops (fst s3) s)) st s4"
      using w unfolding u n .
    show "fst s1 \<le> fst st + s_size (ForStmt i c q body)" by (simp add: f1)
    show "\<forall>x \<in> set (st_names (ForStmt i c q body)). \<exists>qa. (x, qa) \<in> set (s_uses (fst st) (ForStmt i c q body))"
      using st_names_uses by blast
  qed simp
next
  case (8 k x it body st)
  from walks_trans [OF walks_expr 8] show ?case by simp
next
  case (12 k s ss st)
  from walks_trans [OF 12] show ?case by simp
qed (use walks_expr in \<open>simp_all add: walks_id\<close>)

section \<open>Insertion sort\<close>

text \<open>What the two sorts need of their comparison.\<close>

locale strict_order =
  fixes lt :: "'a \<Rightarrow> 'a \<Rightarrow> bool"
  assumes lt_asym: "lt a b \<Longrightarrow> \<not> lt b a"
    and not_lt_trans: "\<not> lt b a \<Longrightarrow> \<not> lt c b \<Longrightarrow> \<not> lt c a"
begin

lemma sift_sorted: "sorted_wrt (\<lambda>a b. \<not> lt a b) ys \<Longrightarrow> sorted_wrt (\<lambda>a b. \<not> lt a b) (sift lt x ys) \<and> set (sift lt x ys) = insert x (set ys)"
proof (induction ys)
  case (Cons y ys)
  show ?case
  proof (cases "lt x y")
    case True
    with Cons lt_asym [OF True] show ?thesis by auto
  next
    case False
    have "\<not> lt x z" if "z \<in> set ys" for z using not_lt_trans [of y z x] False Cons.prems that by simp
    with False Cons.prems show ?thesis by auto
  qed
qed simp

lemma swap_sort_sorted: "sorted_wrt (\<lambda>a b. \<not> lt b a) (swap_sort lt xs)"
proof -
  have "sorted_wrt (\<lambda>a b. \<not> lt b a) acc \<Longrightarrow> sorted_wrt (\<lambda>a b. \<not> lt b a) (foldl (insert_left lt) acc xs)" for acc
  proof (induction xs arbitrary: acc)
    case (Cons x xs)
    have "sorted_wrt (\<lambda>a b. \<not> lt a b) (rev acc)" using Cons.prems by (simp add: sorted_wrt_rev)
    with sift_sorted [of "rev acc" x] have "sorted_wrt (\<lambda>a b. \<not> lt b a) (insert_left lt acc x)"
      by (simp add: insert_left_def sorted_wrt_rev)
    from Cons.IH [OF this] show ?case by simp
  qed simp
  then show ?thesis by (simp add: swap_sort_def)
qed

end

lemma mset_sift: "mset (sift lt x ys) = add_mset x (mset ys)"
  by (induction ys) auto

lemma mset_swap_sort: "mset (swap_sort lt xs) = mset xs"
proof -
  have "mset (foldl (insert_left lt) acc xs) = mset acc + mset xs" for acc
    by (induction xs arbitrary: acc) (simp_all add: insert_left_def mset_sift)
  then show ?thesis by (simp add: swap_sort_def)
qed

interpretation event_order: strict_order event_less
  by unfold_locales (auto simp: event_less_def)

interpretation range_order: strict_order range_less
  by unfold_locales (auto simp: range_less_def)

section \<open>The peak\<close>

definition live_at :: "nat \<Rightarrow> regRange list \<Rightarrow> int" where
  "live_at t rs = int (length (filter (\<lambda>r. rr_start r \<le> t \<and> t \<le> rr_end r) rs))"

definition total :: "(nat \<times> int) list \<Rightarrow> int" where
  "total es = sum_list (map snd es)"

lemma total_simps [simp]: "total [] = 0" "total (e # es) = snd e + total es" "total (es @ es') = total es + total es'"
  by (simp_all add: total_def)

lemma sweep_bound: "p \<le> fst (sweep (p, l) es) \<and> (es = es1 @ es2 \<longrightarrow> es1 \<noteq> [] \<longrightarrow> l + total es1 \<le> fst (sweep (p, l) es))"
proof (induction es arbitrary: p l es1)
  case (Cons e es)
  let ?l = "l + snd e"
  let ?p = "if ?l > p then ?l else p"
  have s: "sweep (p, l) (e # es) = sweep (?p, ?l) es" by (simp add: Let_def)
  have b: "?p \<le> fst (sweep (?p, ?l) es)" using Cons [of ?p ?l "[]"] by blast
  have "l + total es1 \<le> fst (sweep (?p, ?l) es)" if e: "e # es = es1 @ es2" "es1 \<noteq> []"
  proof -
    obtain es1' where es1: "es1 = e # es1'" "es = es1' @ es2" using e by (cases es1) auto
    show ?thesis
    proof (cases "es1' = []")
      case True
      then show ?thesis using b es1 by (auto split: if_splits)
    next
      case False
      with Cons [of ?p ?l es1'] es1 show ?thesis by simp
    qed
  qed
  then show ?case unfolding s using b by (auto split: if_splits)
qed simp

lemma sweep_attained: "fst (sweep (p, l) es) = p \<or> (\<exists>es1 es2. es = es1 @ es2 \<and> es1 \<noteq> [] \<and> fst (sweep (p, l) es) = l + total es1)"
proof (induction es arbitrary: p l)
  case (Cons e es)
  let ?l = "l + snd e"
  let ?p = "if ?l > p then ?l else p"
  have s: "sweep (p, l) (e # es) = sweep (?p, ?l) es" by (simp add: Let_def)
  from Cons [of ?p ?l] show ?case
  proof
    assume "fst (sweep (?p, ?l) es) = ?p"
    then show ?thesis unfolding s using exI [of "\<lambda>es1. \<exists>es2. e # es = es1 @ es2 \<and> es1 \<noteq> [] \<and> ?l = l + total es1" "[e]"] by auto
  next
    assume "\<exists>es1 es2. es = es1 @ es2 \<and> es1 \<noteq> [] \<and> fst (sweep (?p, ?l) es) = ?l + total es1"
    then obtain es1 es2 where "es = es1 @ es2" "fst (sweep (?p, ?l) es) = ?l + total es1" by blast
    then have "e # es = (e # es1) @ es2" "fst (sweep (?p, ?l) es) = l + total (e # es1)" by simp_all
    then show ?thesis unfolding s by blast
  qed
qed simp

lemma total_mset: "mset es = mset es' \<Longrightarrow> total (filter P es) = total (filter P es')"
proof -
  assume "mset es = mset es'"
  then have "mset (map snd (filter P es)) = mset (map snd (filter P es'))" by simp
  then show ?thesis unfolding total_def by (metis sum_mset_sum_list)
qed

lemma total_events: "\<forall>r \<in> set rs. rr_start r \<le> rr_end r \<Longrightarrow> total (filter (\<lambda>e. fst e \<le> t) (range_events rs)) = live_at t rs"
  by (induction rs) (auto simp: range_events_def live_at_def)

lemma event_steps: "e \<in> set (range_events rs) \<Longrightarrow> snd e = 1 \<or> snd e = -1"
  by (auto simp: range_events_def)

lemma filter_prefix:
  fixes es :: "(nat \<times> int) list"
  shows "sorted_wrt (\<lambda>a b. fst a \<le> fst b) es \<Longrightarrow> filter (\<lambda>e. fst e \<le> t) es = takeWhile (\<lambda>e. fst e \<le> t) es"
proof (induction es)
  case (Cons e es)
  show ?case
  proof (cases "fst e \<le> t")
    case False
    with Cons.prems have "\<forall>x \<in> set es. \<not> fst x \<le> t" by fastforce
    with False show ?thesis by (simp add: filter_empty_conv)
  qed (use Cons in simp)
qed simp

lemma peak_correct:
  assumes "\<forall>r \<in> set rs. rr_start r \<le> rr_end r"
  defines "peak \<equiv> fst (sweep (0, 0) (swap_sort event_less (range_events rs)))"
  shows "live_at t rs \<le> peak" "\<exists>t. live_at t rs = peak"
proof -
  define E where "E = swap_sort event_less (range_events rs)"
  have srt: "sorted_wrt (\<lambda>a b. \<not> event_less b a) E" unfolding E_def by (rule event_order.swap_sort_sorted)
  have tot: "total (filter (\<lambda>e. fst e \<le> t) E) = live_at t rs" for t
    using total_mset [OF mset_swap_sort, of "\<lambda>e. fst e \<le> t" event_less "range_events rs"] total_events [OF assms(1)] by (simp add: E_def)
  have upper: "live_at t rs \<le> peak" for t
  proof -
    have "sorted_wrt (\<lambda>a b. fst a \<le> fst b) E" using srt by (rule sorted_wrt_mono_rel [rotated]) (auto simp: event_less_def)
    then have "filter (\<lambda>e. fst e \<le> t) E = takeWhile (\<lambda>e. fst e \<le> t) E" by (rule filter_prefix)
    then have "E = filter (\<lambda>e. fst e \<le> t) E @ dropWhile (\<lambda>e. fst e \<le> t) E" by simp
    then show ?thesis
      using sweep_bound [of 0 0 E "filter (\<lambda>e. fst e \<le> t) E" "dropWhile (\<lambda>e. fst e \<le> t) E"] tot [of t]
      unfolding peak_def E_def [symmetric] by (cases "filter (\<lambda>e. fst e \<le> t) E = []") auto
  qed
  then show "live_at t rs \<le> peak" .
  have lower: "E = es1 @ es2 \<Longrightarrow> total es1 \<le> 0 \<or> (\<exists>t. total es1 \<le> live_at t rs)" for es1 es2
  proof (induction es1 arbitrary: es2 rule: rev_induct)
    case (snoc e es1)
    have "snd e = 1 \<or> snd e = -1"
    proof -
      have "e \<in> set E" using snoc.prems by simp
      then have "e \<in> set (range_events rs)" unfolding E_def using mset_swap_sort [of event_less "range_events rs"] by (metis set_mset_mset)
      then show ?thesis by (rule event_steps)
    qed
    then show ?case
    proof
      assume one: "snd e = 1"
      have a: "fst a \<le> fst e" if "a \<in> set es1" for a using srt that unfolding snoc.prems by (auto simp: sorted_wrt_append event_less_def)
      have b: "fst a = fst e \<Longrightarrow> 1 \<le> snd a" if "a \<in> set es2" for a
        using srt that one unfolding snoc.prems by (fastforce simp: sorted_wrt_append event_less_def)
      have "\<not> fst a < fst e" if "a \<in> set es2" for a
        using srt that unfolding snoc.prems by (fastforce simp: sorted_wrt_append event_less_def)
      with b have c: "0 \<le> snd a" if "a \<in> set (filter (\<lambda>a. fst a \<le> fst e) es2)" for a using that by fastforce
      have "0 \<le> total (filter (\<lambda>a. fst a \<le> fst e) es2)" unfolding total_def by (rule sum_list_nonneg) (use c in auto)
      moreover have "filter (\<lambda>a. fst a \<le> fst e) es1 = es1" using a by (simp add: filter_id_conv)
      ultimately have "total (es1 @ [e]) \<le> total (filter (\<lambda>a. fst a \<le> fst e) E)" unfolding snoc.prems by simp
      then show ?thesis using tot by metis
    next
      assume "snd e = -1"
      then have "total (es1 @ [e]) \<le> total es1" by simp
      moreover from snoc.IH [of "e # es2"] snoc.prems have "total es1 \<le> 0 \<or> (\<exists>t. total es1 \<le> live_at t rs)" by simp
      ultimately show ?thesis by (meson order_trans)
    qed
  qed simp
  have nn: "0 \<le> live_at t rs" for t by (simp add: live_at_def)
  from sweep_attained [of 0 0 E] show "\<exists>t. live_at t rs = peak"
  proof
    assume "fst (sweep (0, 0) E) = 0"
    then show ?thesis using upper [of 0] nn [of 0] by (auto simp: peak_def E_def intro!: exI [of _ 0])
  next
    assume "\<exists>es1 es2. E = es1 @ es2 \<and> es1 \<noteq> [] \<and> fst (sweep (0, 0) E) = 0 + total es1"
    then obtain es1 es2 where e: "E = es1 @ es2" "peak = total es1" by (auto simp: peak_def E_def)
    from lower [OF e(1)] show ?thesis
    proof
      assume "total es1 \<le> 0"
      then show ?thesis using e(2) upper [of 0] nn [of 0] by (auto intro!: exI [of _ 0])
    next
      assume "\<exists>t. total es1 \<le> live_at t rs"
      then show ?thesis using e(2) upper by (metis order_antisym)
    qed
  qed
qed

section \<open>The ranges of a body\<close>

lemma walk_body:
  fixes k body
  defines "rs \<equiv> snd (walkStmts k body (0, []))"
  shows "rs_inv k (ss_size body) rs" "uses_covered k rs (ss_uses 0 body)" "loops_covered k rs (ss_loops 0 body)"
proof -
  have "rs_inv k 0 []" by (simp add: rs_inv_def)
  with walks_stmts [of k body "(0, [])"] show "rs_inv k (ss_size body) rs" "uses_covered k rs (ss_uses 0 body)" "loops_covered k rs (ss_loops 0 body)"
    by (simp_all add: walks_def rs_def)
qed

lemma liveRanges_eq:
  fixes k body
  defines "rs \<equiv> snd (walkStmts k body (0, []))"
  shows "fst (liveRanges k body) = swap_sort range_less rs"
    "snd (liveRanges k body) = fst (sweep (0, 0) (swap_sort event_less (range_events rs)))"
proof -
  have "filter (\<lambda>r. \<not> rr_end r < rr_start r) rs = rs"
    using walk_body(1) [of k body] by (auto simp: rs_def rs_inv_def filter_id_conv)
  then show "fst (liveRanges k body) = swap_sort range_less rs"
    "snd (liveRanges k body) = fst (sweep (0, 0) (swap_sort event_less (range_events rs)))"
    by (simp_all add: liveRanges_def Let_def rs_def)
qed

lemma set_swap_sort [simp]: "set (swap_sort lt xs) = set xs"
  using mset_swap_sort [of lt xs] by (metis set_mset_mset)

lemma liveRanges_inv: "rs_inv k (ss_size body) (fst (liveRanges k body))"
proof -
  define rs where "rs = snd (walkStmts k body (0, []))"
  have "mset (map rr_name (swap_sort range_less rs)) = mset (map rr_name rs)" by (simp add: mset_swap_sort)
  then have "distinct (map rr_name (swap_sort range_less rs)) \<longleftrightarrow> distinct (map rr_name rs)" by (metis distinct_count_atmost_1 mset_eq_setD set_mset_mset)
  then show ?thesis using walk_body(1) [of k body] unfolding liveRanges_eq rs_def [symmetric] by (simp add: rs_inv_def)
qed

lemma liveRanges_covers: "covers (fst (liveRanges k body)) x a b \<longleftrightarrow> covers (snd (walkStmts k body (0, []))) x a b"
  by (simp add: covers_def liveRanges_eq)

lemma live_at_mset: "mset rs = mset rs' \<Longrightarrow> live_at t rs = live_at t rs'"
  unfolding live_at_def by (metis mset_filter size_mset)

lemma liveRanges_peak: "live_at t (fst (liveRanges k body)) \<le> snd (liveRanges k body)" "\<exists>t. live_at t (fst (liveRanges k body)) = snd (liveRanges k body)"
proof -
  define rs where "rs = snd (walkStmts k body (0, []))"
  have "\<forall>r \<in> set rs. rr_start r \<le> rr_end r" using walk_body(1) [of k body] by (simp add: rs_def rs_inv_def)
  note p = peak_correct [OF this]
  have l: "live_at t (swap_sort range_less rs) = live_at t rs" for t by (rule live_at_mset [OF mset_swap_sort])
  show "live_at t (fst (liveRanges k body)) \<le> snd (liveRanges k body)" "\<exists>t. live_at t (fst (liveRanges k body)) = snd (liveRanges k body)"
    using p unfolding liveRanges_eq rs_def [symmetric] l by blast+
qed

section \<open>Linear scan\<close>

definition disjoint :: "regRange \<Rightarrow> regRange \<Rightarrow> bool" where
  "disjoint r s \<longleftrightarrow> rr_end r < rr_start s \<or> rr_end s < rr_start r"

text \<open>The ranges \<open>ps\<close> scanned so far all start at or before \<open>c\<close>; a register that was given away is either
  still held or its range ended before \<open>c\<close>; ranges in one register are disjoint.\<close>

definition scan_inv :: "regRange list \<Rightarrow> nat \<Rightarrow> scan_regs \<Rightarrow> bool" where
  "scan_inv ps c st \<longleftrightarrow>
     (\<forall>x g. (x, g) \<in> set (snd st) \<longrightarrow> g \<in> set allocRegs \<and> (\<exists>r \<in> set ps. rr_name r = x \<and> (fst st g = Some r \<or> rr_end r < c)))
     \<and> (\<forall>r \<in> set ps. \<forall>s \<in> set ps. \<forall>g. r \<noteq> s \<longrightarrow> (rr_name r, g) \<in> set (snd st) \<longrightarrow> (rr_name s, g) \<in> set (snd st) \<longrightarrow> disjoint r s)
     \<and> distinct (map fst (snd st))"

lemma take_reg_cases:
  "take_reg r regs (h, as) = (h, as) \<or> (\<exists>g \<in> set regs. h g = None \<and> take_reg r regs (h, as) = (h(g \<mapsto> r), as @ [(rr_name r, g)]))"
  by (induction r regs "(h, as)" rule: take_reg.induct) (auto split: option.splits)

lemma scan_inv_step:
  assumes inv: "scan_inv ps c (h, as)" and c: "c \<le> rr_start r" and new: "rr_name r \<notin> rr_name ` set ps"
    and names: "distinct (map rr_name ps)"
  shows "scan_inv (ps @ [r]) (rr_start r) (scan_range (h, as) r)"
proof -
  define h' where "h' = release r h"
  have held: "g \<in> set allocRegs \<and> (\<exists>s \<in> set ps. rr_name s = x \<and> (h' g = Some s \<or> rr_end s < rr_start r))" if "(x, g) \<in> set as" for x g
    using inv that c unfolding scan_inv_def h'_def release_def by fastforce
  have disj: "disjoint s t" if "s \<in> set ps" "t \<in> set ps" "s \<noteq> t" "(rr_name s, g) \<in> set as" "(rr_name t, g) \<in> set as" for s t g
    using inv that unfolding scan_inv_def by simp
  have nas: "rr_name r \<notin> fst ` set as" using held new by fastforce
  have dis: "distinct (map fst as)" using inv by (simp add: scan_inv_def)
  have e: "scan_range (h, as) r = take_reg r allocRegs (h', as)" by (simp add: scan_range_def h'_def)
  from take_reg_cases [of r allocRegs h' as] show ?thesis
  proof
    assume "take_reg r allocRegs (h', as) = (h', as)"
    moreover have "(rr_name r, g) \<notin> set as" for g using nas by force
    ultimately show ?thesis using held disj dis unfolding e scan_inv_def by (auto dest: held)
  next
    assume "\<exists>g \<in> set allocRegs. h' g = None \<and> take_reg r allocRegs (h', as) = (h'(g \<mapsto> r), as @ [(rr_name r, g)])"
    then obtain g where g: "g \<in> set allocRegs" "h' g = None" "take_reg r allocRegs (h', as) = (h'(g \<mapsto> r), as @ [(rr_name r, g)])" by blast
    have ended: "rr_end s < rr_start r" if s: "s \<in> set ps" "(rr_name s, g) \<in> set as" for s
    proof -
      obtain t where t: "t \<in> set ps" "rr_name t = rr_name s" "h' g = Some t \<or> rr_end t < rr_start r" using held [OF s(2)] by blast
      then have "t = s" using names s(1) by (metis eq_key_imp_eq_value distinct_map inj_on_def)
      with t g(2) show ?thesis by simp
    qed
    have b: "x = rr_name r \<and> f = g \<or> (x, f) \<in> set as" if "(x, f) \<in> set (as @ [(rr_name r, g)])" for x f using that by auto
    have h: "f \<in> set allocRegs \<and> (\<exists>s \<in> set (ps @ [r]). rr_name s = x \<and> ((h'(g \<mapsto> r)) f = Some s \<or> rr_end s < rr_start r))"
      if "(x, f) \<in> set (as @ [(rr_name r, g)])" for x f
      using b [OF that] held [of x f] g(1,2) by (auto split: if_splits)
    have d: "disjoint s t" if st: "s \<in> set (ps @ [r])" "t \<in> set (ps @ [r])" "s \<noteq> t" "(rr_name s, f) \<in> set (as @ [(rr_name r, g)])"
      "(rr_name t, f) \<in> set (as @ [(rr_name r, g)])" for s t f
    proof -
      have n: "(rr_name r, f) \<notin> set as" using nas by force
      have i: "rr_name s \<noteq> rr_name r" if "s \<in> set ps" for s using new that by (metis imageI)
      consider "s \<in> set ps" "t \<in> set ps" | "s = r" "t \<in> set ps" | "s \<in> set ps" "t = r" using st(1-3) by auto
      then show ?thesis
      proof cases
        case 1
        then show ?thesis using disj [of s t f] st i by auto
      next
        case 2
        then show ?thesis using ended [of t] st(4,5) n i by (auto simp: disjoint_def)
      next
        case 3
        then show ?thesis using ended [of s] st(4,5) n i by (auto simp: disjoint_def)
      qed
    qed
    show ?thesis unfolding e g(3) scan_inv_def using h d dis nas by auto
  qed
qed

lemma scan_inv_all:
  assumes "sorted_wrt (\<lambda>a b. rr_start a \<le> rr_start b) (ps @ rs)" "distinct (map rr_name (ps @ rs))" "scan_inv ps c st"
    and "\<forall>r \<in> set rs. c \<le> rr_start r"
  shows "\<exists>c. scan_inv (ps @ rs) c (foldl scan_range st rs)"
  using assms
proof (induction rs arbitrary: ps c st)
  case (Cons r rs)
  obtain h as where st: "st = (h, as)" by (cases st)
  have "scan_inv (ps @ [r]) (rr_start r) (scan_range st r)"
    using Cons.prems unfolding st by (intro scan_inv_step [of ps c]) auto
  moreover have "\<forall>s \<in> set rs. rr_start r \<le> rr_start s" using Cons.prems(1) by (simp add: sorted_wrt_append)
  ultimately show ?case using Cons.IH [of "ps @ [r]" "rr_start r" "scan_range st r"] Cons.prems(1,2) by simp
qed auto

lemma linear_scan_disjoint:
  assumes "sorted_wrt (\<lambda>a b. rr_start a \<le> rr_start b) rs" "distinct (map rr_name rs)"
  shows "\<exists>c h. scan_inv rs c (h, linear_scan rs)"
proof -
  have "scan_inv [] 0 (Map.empty, [])" by (simp add: scan_inv_def)
  from scan_inv_all [of "[]" rs 0 "(Map.empty, [])"] this assms obtain c where "scan_inv rs c (foldl scan_range (Map.empty, []) rs)" by auto
  then show ?thesis by (metis linear_scan_def prod.collapse)
qed

lemma scan_keeps: "set (snd st) \<subseteq> set (snd (foldl scan_range st rs))"
proof (induction rs arbitrary: st)
  case (Cons r rs)
  obtain h as where st: "st = (h, as)" by (cases st)
  have "set as \<subseteq> set (snd (scan_range st r))"
    using take_reg_cases [of r allocRegs "release r h" as] by (auto simp: st scan_range_def)
  with Cons [of "scan_range st r"] show ?case by (auto simp: st)
qed simp

lemma linear_scan_nonempty: "rs \<noteq> [] \<Longrightarrow> linear_scan rs \<noteq> []"
proof -
  assume "rs \<noteq> []"
  then obtain r rs' where rs: "rs = r # rs'" by (cases rs) auto
  have "(rr_name r, R12) \<in> set (snd (scan_range (Map.empty, []) r))" by (simp add: scan_range_def release_def allocRegs_def)
  then have "(rr_name r, R12) \<in> set (linear_scan rs)" using scan_keeps [of "scan_range (Map.empty, []) r" rs'] by (auto simp: linear_scan_def rs)
  then show ?thesis by auto
qed

lemma liveRanges_sorted: "sorted_wrt (\<lambda>a b. rr_start a \<le> rr_start b) (fst (liveRanges k body))"
  unfolding liveRanges_eq by (rule sorted_wrt_mono_rel [OF _ range_order.swap_sort_sorted]) (auto simp: range_less_def)

lemma planRegs_scan:
  assumes "regOf (planRegs k fd) \<noteq> []"
  shows "regOf (planRegs k fd) = linear_scan (fst (liveRanges k (fd_Body fd)))"
  using assms by (auto simp: planRegs_def Let_def split: if_splits prod.splits)

lemma s_loops_ordered: "(ns, a, b) \<in> set (s_loops p s) \<Longrightarrow> a \<le> b"
  and ss_loops_ordered: "(ns, a, b) \<in> set (ss_loops p ss) \<Longrightarrow> a \<le> b"
  by (induction p s and p ss rule: s_loops_ss_loops.induct) (auto simp: Let_def split: option.splits)

section \<open>Safety of the allocation\<close>

text \<open>C21. The live ranges of a function body: one for each int local it mentions, never empty, around every
  mention of the local, and around every while and for loop that mentions it; the peak is exactly the
  largest number of ranges that contain one point.\<close>

theorem liveRanges_correct:
  "distinct (map rr_name (fst (liveRanges k body)))
   \<and> (\<forall>r \<in> set (fst (liveRanges k body)). rr_start r \<le> rr_end r \<and> k (rr_name r) = KindInt)
   \<and> (\<forall>x q. (x, q) \<in> set (ss_uses 0 body) \<longrightarrow> k x = KindInt \<longrightarrow> covers (fst (liveRanges k body)) x q q)
   \<and> (\<forall>ns a b x. (ns, a, b) \<in> set (ss_loops 0 body) \<longrightarrow> x \<in> set ns \<longrightarrow> k x = KindInt \<longrightarrow> covers (fst (liveRanges k body)) x a b)
   \<and> (\<forall>t. live_at t (fst (liveRanges k body)) \<le> snd (liveRanges k body))
   \<and> (\<exists>t. live_at t (fst (liveRanges k body)) = snd (liveRanges k body))"
  using liveRanges_inv [of k body] walk_body(2,3) [where k = k and body = body] liveRanges_peak [where k = k and body = body]
  by (auto simp: rs_inv_def uses_covered_def loops_covered_def liveRanges_covers)

text \<open>A function with seven locals and a while loop.\<close>

definition int_let :: "string \<Rightarrow> stmt" where "int_let x = VarDeclStmt x OtherExpr"

definition sum_of :: "string list \<Rightarrow> expr" where
  "sum_of xs = foldr (\<lambda>x e. BinaryExpr (Identifier x) ''+'' e) xs OtherExpr"

definition ra_sample :: FuncDecl where
  "ra_sample = \<lparr>fd_Name = ''main'', fd_Params = [], fd_Body =
     map int_let [''a'', ''b'', ''c'', ''d'', ''e'', ''s'', ''i'']
     @ [WhileStmt (BinaryExpr (Identifier ''i'') ''<'' OtherExpr)
          [ExprStmt (BinaryExpr (Identifier ''s'') ''='' (sum_of [''s'', ''a'', ''b'', ''c'', ''d'', ''e''])),
           ExprStmt (BinaryExpr (Identifier ''i'') ''='' (sum_of [''i'']))],
        PrintStmt (Identifier ''s''), int_let ''t'', PrintStmt (Identifier ''t'')]\<rparr>"

lemma ra_sample_plan: "regOf (planRegs (\<lambda>_. KindInt) ra_sample) = [(''a'', R12), (''b'', R13), (''c'', R14), (''d'', R15), (''t'', R12)]"
  by code_simp

theorem liveRanges_correct_witness:
  "covers (fst (liveRanges (\<lambda>_. KindInt) (fd_Body ra_sample))) ''a'' 14 35"
proof -
  have "([''i'', ''s'', ''s'', ''a'', ''b'', ''c'', ''d'', ''e'', ''i'', ''i''], 14, 35) \<in> set (ss_loops 0 (fd_Body ra_sample))" by code_simp
  with liveRanges_correct [where k = "\<lambda>_. KindInt" and body = "fd_Body ra_sample"] show ?thesis by fastforce
qed

text \<open>C20. Two int locals that share a register are never live together: all mentions of one come before
  all mentions of the other, no while or for loop mentions both, and no mention of one lies inside
  such a loop that mentions the other.  The registers are callee-saved, and each local has at most
  one.\<close>

theorem planRegs_safe:
  assumes "regOfFor (planRegs k fd) x = Some g" "regOfFor (planRegs k fd) y = Some g" "x \<noteq> y"
  shows "g \<in> {R12, R13, R14, R15}
    \<and> ((\<forall>p q. (x, p) \<in> set (ss_uses 0 (fd_Body fd)) \<longrightarrow> (y, q) \<in> set (ss_uses 0 (fd_Body fd)) \<longrightarrow> p < q)
       \<or> (\<forall>p q. (x, p) \<in> set (ss_uses 0 (fd_Body fd)) \<longrightarrow> (y, q) \<in> set (ss_uses 0 (fd_Body fd)) \<longrightarrow> q < p))
    \<and> (\<forall>ns a b. (ns, a, b) \<in> set (ss_loops 0 (fd_Body fd)) \<longrightarrow> x \<in> set ns \<longrightarrow>
         y \<notin> set ns \<and> (\<forall>q. (y, q) \<in> set (ss_uses 0 (fd_Body fd)) \<longrightarrow> \<not> (a \<le> q \<and> q \<le> b)))"
proof -
  define rs where "rs = fst (liveRanges k (fd_Body fd))"
  have "regOf (planRegs k fd) \<noteq> []" using assms(1) by (auto simp: regOfFor_def)
  note as = planRegs_scan [OF this, folded rs_def]
  have inv: "rs_inv k (ss_size (fd_Body fd)) rs" unfolding rs_def by (rule liveRanges_inv)
  then have names: "distinct (map rr_name rs)" by (simp add: rs_inv_def)
  obtain c h where scan: "scan_inv rs c (h, linear_scan rs)"
    using linear_scan_disjoint [OF liveRanges_sorted [of k "fd_Body fd", folded rs_def] names] by blast
  have m: "(x, g) \<in> set (linear_scan rs)" "(y, g) \<in> set (linear_scan rs)" using assms(1,2) by (auto simp: regOfFor_def as dest: map_of_SomeD)
  obtain r where r: "r \<in> set rs" "rr_name r = x" using scan m(1) by (auto simp: scan_inv_def)
  obtain s where s: "s \<in> set rs" "rr_name s = y" using scan m(2) by (auto simp: scan_inv_def)
  have g: "g \<in> set allocRegs" using scan m(1) by (simp add: scan_inv_def)
  have "r \<noteq> s" using r(2) s(2) assms(3) by auto
  then have d: "disjoint r s" using scan r s m by (simp add: scan_inv_def)
  have ki: "k x = KindInt" "k y = KindInt" using inv r s by (auto simp: rs_inv_def)
  have uniq: "covers rs (rr_name t) a b \<Longrightarrow> rr_start t \<le> a \<and> b \<le> rr_end t" if "t \<in> set rs" for t a b
    using names that by (auto simp: covers_def distinct_map inj_on_def)
  have ux: "rr_start r \<le> p \<and> p \<le> rr_end r" if "(x, p) \<in> set (ss_uses 0 (fd_Body fd))" for p
    using walk_body(2) [where k = k and body = "fd_Body fd"] that ki(1) uniq [OF r(1)] r(2)
    by (auto simp: uses_covered_def rs_def liveRanges_covers)
  have uy: "rr_start s \<le> p \<and> p \<le> rr_end s" if "(y, p) \<in> set (ss_uses 0 (fd_Body fd))" for p
    using walk_body(2) [where k = k and body = "fd_Body fd"] that ki(2) uniq [OF s(1)] s(2)
    by (auto simp: uses_covered_def rs_def liveRanges_covers)
  have l: "covers rs z a b" if "(ns, a, b) \<in> set (ss_loops 0 (fd_Body fd))" "z \<in> set ns" "k z = KindInt" for ns a b z
    using walk_body(3) [where k = k and body = "fd_Body fd"] that by (auto simp: loops_covered_def rs_def liveRanges_covers)
  have lx: "rr_start r \<le> a \<and> b \<le> rr_end r" if "(ns, a, b) \<in> set (ss_loops 0 (fd_Body fd))" "x \<in> set ns" for ns a b
    using l [OF that ki(1)] uniq [OF r(1)] r(2) by simp
  have ly: "rr_start s \<le> a \<and> b \<le> rr_end s" if "(ns, a, b) \<in> set (ss_loops 0 (fd_Body fd))" "y \<in> set ns" for ns a b
    using l [OF that ki(2)] uniq [OF s(1)] s(2) by simp
  have ab: "a \<le> b" if "(ns, a, b) \<in> set (ss_loops 0 (fd_Body fd))" for ns a b using ss_loops_ordered that by blast
  show ?thesis
  proof (intro conjI)
    show "g \<in> {R12, R13, R14, R15}" using g by (auto simp: allocRegs_def)
    show "(\<forall>p q. (x, p) \<in> set (ss_uses 0 (fd_Body fd)) \<longrightarrow> (y, q) \<in> set (ss_uses 0 (fd_Body fd)) \<longrightarrow> p < q)
       \<or> (\<forall>p q. (x, p) \<in> set (ss_uses 0 (fd_Body fd)) \<longrightarrow> (y, q) \<in> set (ss_uses 0 (fd_Body fd)) \<longrightarrow> q < p)"
      using d ux uy unfolding disjoint_def by (meson le_less_trans less_le_trans)
    show "\<forall>ns a b. (ns, a, b) \<in> set (ss_loops 0 (fd_Body fd)) \<longrightarrow> x \<in> set ns \<longrightarrow>
         y \<notin> set ns \<and> (\<forall>q. (y, q) \<in> set (ss_uses 0 (fd_Body fd)) \<longrightarrow> \<not> (a \<le> q \<and> q \<le> b))"
      using d lx ly uy ab unfolding disjoint_def by (metis le_less_trans leD order_trans)
  qed
qed

theorem planRegs_safe_witness:
  "(\<forall>p q. (''a'', p) \<in> set (ss_uses 0 (fd_Body ra_sample)) \<longrightarrow> (''t'', q) \<in> set (ss_uses 0 (fd_Body ra_sample)) \<longrightarrow> p < q)
   \<or> (\<forall>p q. (''a'', p) \<in> set (ss_uses 0 (fd_Body ra_sample)) \<longrightarrow> (''t'', q) \<in> set (ss_uses 0 (fd_Body ra_sample)) \<longrightarrow> q < p)"
  using planRegs_safe [of "\<lambda>_. KindInt" ra_sample "''a''" R12 "''t''"] by (simp add: regOfFor_def ra_sample_plan)

text \<open>The gate: registers are given out exactly when the body contains control flow and at least five
  int locals are live at one point, and the registers to save are exactly those given out, in the
  order of \<open>allocRegs\<close>.\<close>

theorem planRegs_gate:
  "(regOf (planRegs k fd) \<noteq> [] \<longleftrightarrow> hasControlFlow (fd_Body fd) \<and> (\<exists>t. 5 \<le> live_at t (fst (liveRanges k (fd_Body fd)))))
   \<and> set (regsUsed (planRegs k fd)) = snd ` set (regOf (planRegs k fd))
   \<and> (\<exists>P. regsUsed (planRegs k fd) = filter P allocRegs)"
proof (intro conjI)
  define rs where "rs = fst (liveRanges k (fd_Body fd))"
  define pk where "pk = snd (liveRanges k (fd_Body fd))"
  have lr: "liveRanges k (fd_Body fd) = (rs, pk)" by (simp add: rs_def pk_def)
  have peak: "\<not> pk < int raMinLive \<longleftrightarrow> (\<exists>t. 5 \<le> live_at t rs)"
    using liveRanges_peak [where k = k and body = "fd_Body fd"] unfolding lr fst_conv snd_conv
    by (simp add: raMinLive_def allocRegCount_def) (metis order_trans linorder_not_less)
  have ne: "rs \<noteq> []" if "5 \<le> live_at t rs" for t using that by (auto simp: live_at_def)
  show "regOf (planRegs k fd) \<noteq> [] \<longleftrightarrow> hasControlFlow (fd_Body fd) \<and> (\<exists>t. 5 \<le> live_at t (fst (liveRanges k (fd_Body fd))))"
    using peak ne linear_scan_nonempty [of rs] unfolding lr fst_conv by (auto simp: planRegs_def lr Let_def)
  have g: "g \<in> set allocRegs" if "(x, g) \<in> set (linear_scan rs)" for x g
  proof -
    have "distinct (map rr_name rs)" using liveRanges_inv [of k "fd_Body fd"] by (simp add: rs_inv_def rs_def)
    then obtain c h where "scan_inv rs c (h, linear_scan rs)"
      using linear_scan_disjoint [OF liveRanges_sorted [of k "fd_Body fd", folded rs_def]] by blast
    then show ?thesis using that by (simp add: scan_inv_def)
  qed
  show "set (regsUsed (planRegs k fd)) = snd ` set (regOf (planRegs k fd))"
    using g by (force simp: planRegs_def lr Let_def list_ex_iff)
  show "\<exists>P. regsUsed (planRegs k fd) = filter P allocRegs"
  proof (cases "regOf (planRegs k fd) = []")
    case True
    then have "regsUsed (planRegs k fd) = filter (\<lambda>_. False) allocRegs" by (auto simp: planRegs_def lr Let_def)
    then show ?thesis by blast
  next
    case False
    then show ?thesis by (auto simp: planRegs_def lr Let_def)
  qed
qed

section \<open>Parameters and for-in variables\<close>

lemma home_params_regs: "r \<noteq> RAX \<Longrightarrow> fr_regs (home_params slots u ps st) r = fr_regs st r"
  by (induction slots u ps st rule: home_params.induct) (simp_all add: StoreStack_def Let_def)

text \<open>A function of five int parameters with a loop, and one with a for-in loop over an array.\<close>

definition param_sample :: FuncDecl where
  "param_sample = \<lparr>fd_Name = ''f'', fd_Params = [''a'', ''b'', ''c'', ''d'', ''e''], fd_Body =
     [int_let ''s'', WhileStmt (BinaryExpr (Identifier ''s'') ''<'' OtherExpr)
        [ExprStmt (BinaryExpr (Identifier ''s'') ''='' (sum_of [''s'', ''a'', ''b'', ''c'', ''d'', ''e'']))],
      ReturnStmt (Identifier ''s'')]\<rparr>"

definition forin_sample :: FuncDecl where
  "forin_sample = \<lparr>fd_Name = ''f'', fd_Params = [''xs''], fd_Body =
     map int_let [''p'', ''q'', ''u'', ''v'', ''w''] @ [IfStmt OtherExpr [] [],
      ForInStmt ''x'' (Identifier ''xs'')
        [PrintStmt (sum_of [''p'', ''q'', ''u'', ''v'', ''w'', ''x'']), int_let ''t'', PrintStmt (Identifier ''t'')]]\<rparr>"

definition forin_kinds :: "string \<Rightarrow> Kind" where
  "forin_kinds x = (if x = ''xs'' then KindArray else KindInt)"

lemma sample_plans:
  "regOf (planRegs (\<lambda>_. KindInt) param_sample) = [(''s'', R12), (''a'', R13), (''b'', R14), (''c'', R15)]"
  "regOf (planRegs forin_kinds forin_sample) = [(''p'', R12), (''q'', R13), (''u'', R14), (''v'', R15), (''x'', R12), (''t'', R12)]"
  by code_simp+

text \<open>C22. A parameter that is given a register is read from it, but the prologue only stores parameters to
  the frame: the value read first is what the register held before the call, whatever was passed.  In
  the sample the parameters \<open>a\<close>, \<open>b\<close> and \<open>c\<close> are read like this.\<close>

theorem parameter_not_loaded:
  "(\<forall>plan slots ps st p g. regOfFor plan p = Some g \<longrightarrow> g \<noteq> RAX \<longrightarrow>
      fr_regs (read_local plan slots p (home_params slots 0 ps st)) RAX = fr_regs st g)
   \<and> set (fd_Params param_sample) \<inter> fst ` set (regOf (planRegs (\<lambda>_. KindInt) param_sample)) = {''a'', ''b'', ''c''}"
proof
  show "\<forall>plan slots ps st p g. regOfFor plan p = Some g \<longrightarrow> g \<noteq> RAX \<longrightarrow>
      fr_regs (read_local plan slots p (home_params slots 0 ps st)) RAX = fr_regs st g"
    by (simp add: read_local_def home_params_regs)
  show "set (fd_Params param_sample) \<inter> fst ` set (regOf (planRegs (\<lambda>_. KindInt) param_sample)) = {''a'', ''b'', ''c''}"
    unfolding sample_plans by (auto simp: param_sample_def)
qed

theorem parameter_not_loaded_witness:
  "fr_regs (read_local (planRegs (\<lambda>_. KindInt) param_sample) (\<lambda>x. 8 * length x) ''a''
      (home_params (\<lambda>x. 8 * length x) 0 [''a''] \<lparr>fr_regs = (\<lambda>_. 7), fr_slots = (\<lambda>_. 0), fr_extra = []\<rparr>)) RAX = 7"
  using parameter_not_loaded [THEN conjunct1, rule_format, of "planRegs (\<lambda>_. KindInt) param_sample" "''a''" R13 "\<lambda>x. 8 * length x" "[''a'']"
      "\<lparr>fr_regs = (\<lambda>_. 7), fr_slots = (\<lambda>_. 0), fr_extra = []\<rparr>"] by (simp add: regOfFor_def sample_plans)


end
