(* ===== verification/Ast.thy ===== *)
theory Ast
  imports Karkain_Prelude
begin

text \<open>
  The syntax tree (pkg/parser/ast.go): the nodes of the parser and the macro expander, and \<open>setNodeLine\<close> of arena.go.
  \<open>Node\<close> is \<open>interface\{\}\<close> in the code; its \<open>nil\<close> is the constructor \<open>NoNode\<close>.  A constructor has the
  fields of the struct of its name, in their order, less those the parser never writes (they keep
  their zero value).  Slices are lists (nil and empty slices are not told apart), lines and columns
  are integers, a line being 0 when it was never set.

  To keep the datatype small the nodes without children are a datatype of their own and the nodes
  with one child and a line share one constructor; abbreviations give both the names of the source.
  \<open>MatchArm\<close> and its \<open>MatchPattern\<close> are structs in the slice of a \<open>MatchExpr\<close>; here an arm is a node.
\<close>

section \<open>Nodes\<close>

record GenericTypeParam =
  gp_Name :: string
  gp_Constraints :: "string list"

record StructField =
  sf_Name :: string
  sf_Type :: string

record EnumVariant =
  ev_Name :: string
  ev_Payload :: string

record Parameter =
  pa_Name :: string
  pa_Type :: string

datatype leaf =
    LeafStringLiteral string int
  | LeafIntLiteral string int
  | LeafFloat64Literal string int
  | LeafBigIntLiteral string int
  | LeafBigFloatLiteral string int
  | LeafIdentifier string int int int
  | LeafBoolLiteral bool int
  | LeafOptionNoneExpr int
  | LeafGlobalIdExpr int int
  | LeafBarrierStmt int
  | LeafBreakStmt int
  | LeafContinueStmt int
  | LeafLinearTypeDecl string "StructField list" int
  | LeafPackedStructDecl string "StructField list" int
  | LeafEnumDecl string "EnumVariant list" bool int
  | LeafStructDeclStmt string "StructField list" "GenericTypeParam list" bool int

datatype wrapper =
    WrapReturnStmt | WrapExprStmt | WrapPrintStmt | WrapMoveExpr | WrapPropagateExpr | WrapOptionSomeExpr | WrapResultOkExpr | WrapResultErrExpr
  | WrapAddressOf | WrapDereference | WrapFreeExpr | WrapMeasureExpr | WrapQuoteExpr | WrapUnquoteExpr | WrapComptimeExpr | WrapReflectTypeExpr | WrapChRecvExpr

datatype (plugins only: size code) node =
    NoNode
  | Leaf leaf
  | Wrap wrapper node int
  | FuncDecl string "string list" "string list" "node list" "GenericTypeParam list" "string list" bool string int int int
  | VarDeclStmt string node string bool bool bool int bool int int int
  | IfStmt node "node list" "node list" int
  | WhileStmt node "node list" int
  | BlockStmt "node list"
  | ArrayLiteral "node list" int
  | MapLiteral "node list" "node list" int
  | IndexExpr node node int
  | SliceExpr node node node int
  | BinaryExpr node string node int
  | CallExpr string string "node list" bool "string list" int int int
  | IndirectCallExpr node "node list" int int int
  | RawAccessExpr node node int
  | BorrowExpr node bool int
  | MatchExpr node "node list" int
  | MatchArm string node string node
  | SIMDBuiltinExpr string "node list" int
  | AtomicOp string "node list" string int
  | EnumVariantExpr string string node int
  | AllocExpr string node int
  | MatrixDecl node node string int
  | MatrixIndexExpr node node node int
  | DotExpr node string int
  | QRegDeclStmt string node int
  | GateApplyStmt string node node "node list" int
  | ActorDeclStmt string "node list" int
  | SpawnExpr string "node list" int
  | ReceiveStmt node string int
  | SendExpr node node int
  | MacroDeclStmt string "string list" "node list" bool int
  | MacroExpandExpr string "node list" int
  | DeriveExpr string node int
  | TagExpr node string string int
  | ComptimeStmt "node list" int
  | KernelDeclStmt string "Parameter list" "node list" int
  | StructLiteral string "node list" "string list" int
  | ForStmt node node node "node list" int
  | ForInStmt string string node "node list" int
  | LambdaExpr "string list" "string list" "node list" "string list" int
  | UnaryExpr string node int

abbreviation StringLiteral where "StringLiteral a b \<equiv> Leaf (LeafStringLiteral a b)"
abbreviation IntLiteral where "IntLiteral a b \<equiv> Leaf (LeafIntLiteral a b)"
abbreviation Float64Literal where "Float64Literal a b \<equiv> Leaf (LeafFloat64Literal a b)"
abbreviation BigIntLiteral where "BigIntLiteral a b \<equiv> Leaf (LeafBigIntLiteral a b)"
abbreviation BigFloatLiteral where "BigFloatLiteral a b \<equiv> Leaf (LeafBigFloatLiteral a b)"
abbreviation Identifier where "Identifier a b c d \<equiv> Leaf (LeafIdentifier a b c d)"
abbreviation BoolLiteral where "BoolLiteral a b \<equiv> Leaf (LeafBoolLiteral a b)"
abbreviation OptionNoneExpr where "OptionNoneExpr a \<equiv> Leaf (LeafOptionNoneExpr a)"
abbreviation GlobalIdExpr where "GlobalIdExpr a b \<equiv> Leaf (LeafGlobalIdExpr a b)"
abbreviation BarrierStmt where "BarrierStmt a \<equiv> Leaf (LeafBarrierStmt a)"
abbreviation BreakStmt where "BreakStmt a \<equiv> Leaf (LeafBreakStmt a)"
abbreviation ContinueStmt where "ContinueStmt a \<equiv> Leaf (LeafContinueStmt a)"
abbreviation LinearTypeDecl where "LinearTypeDecl a b c \<equiv> Leaf (LeafLinearTypeDecl a b c)"
abbreviation PackedStructDecl where "PackedStructDecl a b c \<equiv> Leaf (LeafPackedStructDecl a b c)"
abbreviation EnumDecl where "EnumDecl a b c d \<equiv> Leaf (LeafEnumDecl a b c d)"
abbreviation StructDeclStmt where "StructDeclStmt a b c d e \<equiv> Leaf (LeafStructDeclStmt a b c d e)"
abbreviation ReturnStmt where "ReturnStmt a b \<equiv> Wrap WrapReturnStmt a b"
abbreviation ExprStmt where "ExprStmt a b \<equiv> Wrap WrapExprStmt a b"
abbreviation PrintStmt where "PrintStmt a b \<equiv> Wrap WrapPrintStmt a b"
abbreviation MoveExpr where "MoveExpr a b \<equiv> Wrap WrapMoveExpr a b"
abbreviation PropagateExpr where "PropagateExpr a b \<equiv> Wrap WrapPropagateExpr a b"
abbreviation OptionSomeExpr where "OptionSomeExpr a b \<equiv> Wrap WrapOptionSomeExpr a b"
abbreviation ResultOkExpr where "ResultOkExpr a b \<equiv> Wrap WrapResultOkExpr a b"
abbreviation ResultErrExpr where "ResultErrExpr a b \<equiv> Wrap WrapResultErrExpr a b"
abbreviation AddressOf where "AddressOf a b \<equiv> Wrap WrapAddressOf a b"
abbreviation Dereference where "Dereference a b \<equiv> Wrap WrapDereference a b"
abbreviation FreeExpr where "FreeExpr a b \<equiv> Wrap WrapFreeExpr a b"
abbreviation MeasureExpr where "MeasureExpr a b \<equiv> Wrap WrapMeasureExpr a b"
abbreviation QuoteExpr where "QuoteExpr a b \<equiv> Wrap WrapQuoteExpr a b"
abbreviation UnquoteExpr where "UnquoteExpr a b \<equiv> Wrap WrapUnquoteExpr a b"
abbreviation ComptimeExpr where "ComptimeExpr a b \<equiv> Wrap WrapComptimeExpr a b"
abbreviation ReflectTypeExpr where "ReflectTypeExpr a b \<equiv> Wrap WrapReflectTypeExpr a b"
abbreviation ChRecvExpr where "ChRecvExpr a b \<equiv> Wrap WrapChRecvExpr a b"

text \<open>The test \<open>node == nil\<close>.\<close>

fun is_nil :: "node \<Rightarrow> bool" where
  "is_nil NoNode = True"
| "is_nil _ = False"

section \<open>Lines\<close>

fun set_leaf_line :: "leaf \<Rightarrow> int \<Rightarrow> leaf" where
  "set_leaf_line (LeafStringLiteral a _) line = LeafStringLiteral a line"
| "set_leaf_line (LeafIntLiteral a _) line = LeafIntLiteral a line"
| "set_leaf_line (LeafFloat64Literal a _) line = LeafFloat64Literal a line"
| "set_leaf_line (LeafBigIntLiteral a _) line = LeafBigIntLiteral a line"
| "set_leaf_line (LeafBigFloatLiteral a _) line = LeafBigFloatLiteral a line"
| "set_leaf_line (LeafIdentifier a _ c d) line = LeafIdentifier a line c d"
| "set_leaf_line (LeafBoolLiteral a _) line = LeafBoolLiteral a line"
| "set_leaf_line (LeafOptionNoneExpr _) line = LeafOptionNoneExpr line"
| "set_leaf_line (LeafGlobalIdExpr a _) line = LeafGlobalIdExpr a line"
| "set_leaf_line (LeafBarrierStmt _) line = LeafBarrierStmt line"
| "set_leaf_line (LeafBreakStmt _) line = LeafBreakStmt line"
| "set_leaf_line (LeafContinueStmt _) line = LeafContinueStmt line"
| "set_leaf_line (LeafLinearTypeDecl a b _) line = LeafLinearTypeDecl a b line"
| "set_leaf_line (LeafPackedStructDecl a b _) line = LeafPackedStructDecl a b line"
| "set_leaf_line (LeafEnumDecl a b c _) line = LeafEnumDecl a b c line"
| "set_leaf_line (LeafStructDeclStmt a b c d _) line = LeafStructDeclStmt a b c d line"

text \<open>The switch of \<open>setNodeLine\<close>; blocks have no line, and atomic operations are missing from it.\<close>

fun set_line :: "node \<Rightarrow> int \<Rightarrow> node" where
  "set_line (Leaf x) line = Leaf (set_leaf_line x line)"
| "set_line (Wrap w x _) line = Wrap w x line"
| "set_line (FuncDecl a b c d e f g h _ j k) line = FuncDecl a b c d e f g h line j k"
| "set_line (VarDeclStmt a b c d e f g h _ j k) line = VarDeclStmt a b c d e f g h line j k"
| "set_line (IfStmt a b c _) line = IfStmt a b c line"
| "set_line (WhileStmt a b _) line = WhileStmt a b line"
| "set_line (ArrayLiteral a _) line = ArrayLiteral a line"
| "set_line (MapLiteral a b _) line = MapLiteral a b line"
| "set_line (IndexExpr a b _) line = IndexExpr a b line"
| "set_line (SliceExpr a b c _) line = SliceExpr a b c line"
| "set_line (BinaryExpr a b c _) line = BinaryExpr a b c line"
| "set_line (CallExpr a b c d e _ g h) line = CallExpr a b c d e line g h"
| "set_line (IndirectCallExpr a b _ d e) line = IndirectCallExpr a b line d e"
| "set_line (RawAccessExpr a b _) line = RawAccessExpr a b line"
| "set_line (BorrowExpr a b _) line = BorrowExpr a b line"
| "set_line (MatchExpr a b _) line = MatchExpr a b line"
| "set_line (SIMDBuiltinExpr a b _) line = SIMDBuiltinExpr a b line"
| "set_line (EnumVariantExpr a b c _) line = EnumVariantExpr a b c line"
| "set_line (AllocExpr a b _) line = AllocExpr a b line"
| "set_line (MatrixDecl a b c _) line = MatrixDecl a b c line"
| "set_line (MatrixIndexExpr a b c _) line = MatrixIndexExpr a b c line"
| "set_line (DotExpr a b _) line = DotExpr a b line"
| "set_line (QRegDeclStmt a b _) line = QRegDeclStmt a b line"
| "set_line (GateApplyStmt a b c d _) line = GateApplyStmt a b c d line"
| "set_line (ActorDeclStmt a b _) line = ActorDeclStmt a b line"
| "set_line (SpawnExpr a b _) line = SpawnExpr a b line"
| "set_line (ReceiveStmt a b _) line = ReceiveStmt a b line"
| "set_line (SendExpr a b _) line = SendExpr a b line"
| "set_line (MacroDeclStmt a b c d _) line = MacroDeclStmt a b c d line"
| "set_line (MacroExpandExpr a b _) line = MacroExpandExpr a b line"
| "set_line (DeriveExpr a b _) line = DeriveExpr a b line"
| "set_line (TagExpr a b c _) line = TagExpr a b c line"
| "set_line (ComptimeStmt a _) line = ComptimeStmt a line"
| "set_line (KernelDeclStmt a b c _) line = KernelDeclStmt a b c line"
| "set_line (StructLiteral a b c _) line = StructLiteral a b c line"
| "set_line (ForStmt a b c d _) line = ForStmt a b c d line"
| "set_line (ForInStmt a b c d _) line = ForInStmt a b c d line"
| "set_line (LambdaExpr a b c d _) line = LambdaExpr a b c d line"
| "set_line (UnaryExpr a b _) line = UnaryExpr a b line"
| "set_line n _ = n"

definition setNodeLine :: "node \<Rightarrow> int \<Rightarrow> node" where
  "setNodeLine n line = (if line = 0 \<or> is_nil n then n else set_line n line)"

end
