(* ===== verification/Arena.thy ===== *)
theory Arena
  imports Ast "HOL-Library.Word"
begin

text \<open>
  The arena of syntax nodes (pkg/parser/arena.go): chunks of 4096 nodes, a node being named by its
  number.  The parser allocates every node with \<open>AllocX\<close>, which is \<open>Alloc\<close> followed by \<open>Get\<close> of the
  number it returned.  A slice index out of range panics, which is \<open>None\<close> here.
\<close>

section \<open>The arena\<close>

definition arenaChunkSize :: nat where "arenaChunkSize = 4096"

record Arena =
  ar_chunks :: "node list list"
  ar_current :: nat
  ar_chunkIdx :: nat
  ar_total :: "32 word"
  ar_currentLine :: int

definition NewArena :: Arena where
  "NewArena = \<lparr>ar_chunks = [[]], ar_current = 0, ar_chunkIdx = 0, ar_total = 0, ar_currentLine = 0\<rparr>"

definition Arena_SetLine :: "int \<Rightarrow> Arena \<Rightarrow> Arena" where
  "Arena_SetLine line a = a\<lparr>ar_currentLine := line\<rparr>"

text \<open>The current chunk is full: a new one, behind all chunks there are.\<close>

definition next_chunk :: "Arena \<Rightarrow> Arena" where
  "next_chunk a =
     (if ar_current a \<ge> arenaChunkSize
      then a\<lparr>ar_chunks := ar_chunks a @ [[]], ar_chunkIdx := ar_chunkIdx a + 1, ar_current := 0\<rparr> else a)"

definition Alloc :: "node \<Rightarrow> Arena \<Rightarrow> (32 word \<times> Arena) option" where
  "Alloc n a =
     (let a = next_chunk a; n = setNodeLine n (ar_currentLine a) in
      if ar_chunkIdx a < length (ar_chunks a) then
        Some (ar_total a, a\<lparr>ar_chunks := (ar_chunks a)[ar_chunkIdx a := ar_chunks a ! ar_chunkIdx a @ [n]],
          ar_current := ar_current a + 1, ar_total := ar_total a + 1\<rparr>)
      else None)"

definition Arena_Get :: "32 word \<Rightarrow> Arena \<Rightarrow> node option" where
  "Arena_Get i a =
     (let chunkIdx = unat i div arenaChunkSize; offset = unat i mod arenaChunkSize in
      if chunkIdx < length (ar_chunks a) \<and> offset < length (ar_chunks a ! chunkIdx)
      then Some (ar_chunks a ! chunkIdx ! offset) else None)"

definition Arena_Len :: "Arena \<Rightarrow> 32 word" where "Arena_Len a = ar_total a"

definition Arena_Reset :: "Arena \<Rightarrow> Arena" where
  "Arena_Reset a =
     (let chunks = map (\<lambda>_. []) (ar_chunks a) in
      a\<lparr>ar_chunks := (if chunks = [] then [[]] else chunks), ar_current := 0, ar_chunkIdx := 0, ar_total := 0\<rparr>)"

text \<open>\<open>AllocX\<close>: the node that was allocated.\<close>

definition AllocNode :: "node \<Rightarrow> Arena \<Rightarrow> (node \<times> Arena) option" where
  "AllocNode n a =
     (case Alloc n a of
        None \<Rightarrow> None
      | Some (i, a) \<Rightarrow> (case Arena_Get i a of None \<Rightarrow> None | Some n \<Rightarrow> Some (n, a)))"

section \<open>The contract of a store that only grows\<close>

text \<open>A store is a list of nodes; an address is a position in it, as long as positions fit.\<close>

locale growing_store =
  fixes inv :: "'s \<Rightarrow> bool" and contents :: "'s \<Rightarrow> 'n list" and room :: nat
    and put :: "'n \<Rightarrow> 's \<Rightarrow> ('i \<times> 's) option" and get :: "'i \<Rightarrow> 's \<Rightarrow> 'n option" and pos :: "'i \<Rightarrow> nat"
    and made :: "'n \<Rightarrow> 's \<Rightarrow> 'n"
  assumes put_ok: "inv s \<Longrightarrow> length (contents s) < room \<Longrightarrow>
      \<exists>i s'. put n s = Some (i, s') \<and> inv s' \<and> contents s' = contents s @ [made n s] \<and> pos i = length (contents s)"
    and get_ok: "inv s \<Longrightarrow> length (contents s) \<le> room \<Longrightarrow> pos i < length (contents s) \<Longrightarrow> get i s = Some (contents s ! pos i)"
begin

lemma put_get:
  assumes "inv s" "length (contents s) < room" "put n s = Some (i, s')"
  shows "get i s' = Some (made n s)"
proof -
  have "inv s'" "contents s' = contents s @ [made n s]" "pos i = length (contents s)" using put_ok [OF assms(1,2), of n] assms(3) by auto
  then show ?thesis using get_ok [of s' i] assms(2) by simp
qed

lemma get_stays:
  assumes "inv s" "length (contents s) < room" "put n s = Some (i, s')" "pos j < length (contents s)"
  shows "get j s' = get j s"
proof -
  have "inv s'" "contents s' = contents s @ [made n s]" using put_ok [OF assms(1,2), of n] assms(3) by auto
  then show ?thesis using get_ok [of s' j] get_ok [of s j] assms by (simp add: nth_append)
qed

end

section \<open>The arena keeps it\<close>

definition arena_inv :: "Arena \<Rightarrow> bool" where
  "arena_inv a \<longleftrightarrow> ar_chunkIdx a < length (ar_chunks a) \<and> (\<forall>i < ar_chunkIdx a. length (ar_chunks a ! i) = arenaChunkSize) \<and>
     length (ar_chunks a ! ar_chunkIdx a) = ar_current a \<and> ar_current a \<le> arenaChunkSize \<and>
     (\<forall>i < length (ar_chunks a). ar_chunkIdx a < i \<longrightarrow> ar_chunks a ! i = []) \<and>
     ar_total a = of_nat (length (concat (ar_chunks a)))"

abbreviation arena_nodes :: "Arena \<Rightarrow> node list" where "arena_nodes a \<equiv> concat (ar_chunks a)"

lemma concat_nth:
  assumes "c < length xs" "\<forall>i < c. length (xs ! i) = k" "j < length (xs ! c)"
  shows "concat xs ! (c * k + j) = xs ! c ! j"
  using assms
proof (induction xs arbitrary: c)
  case (Cons x xs)
  show ?case
  proof (cases c)
    case 0
    then show ?thesis using Cons.prems by (simp add: nth_append)
  next
    case (Suc d)
    have "length x = k" using Cons.prems(2) Suc by (metis nth_Cons_0 zero_less_Suc)
    moreover have "concat xs ! (d * k + j) = xs ! d ! j" using Cons.prems Suc by (intro Cons.IH) auto
    ultimately show ?thesis using Suc by (simp add: nth_append)
  qed
qed simp

lemma concat_rest: "\<forall>i < length (x # xs). 0 < i \<longrightarrow> (x # xs) ! i = [] \<Longrightarrow> concat xs = []"
proof -
  assume "\<forall>i < length (x # xs). 0 < i \<longrightarrow> (x # xs) ! i = []"
  then have "xs ! i = []" if "i < length xs" for i using that by (metis Suc_less_eq length_Cons nth_Cons_Suc zero_less_Suc)
  then show ?thesis by (auto simp: in_set_conv_nth)
qed

lemma concat_nils [simp]: "concat (map (\<lambda>_. []) xs) = []"
  by (induction xs) simp_all

lemma concat_length:
  assumes "c < length xs" "\<forall>i < c. length (xs ! i) = k" "\<forall>i < length xs. c < i \<longrightarrow> xs ! i = []"
  shows "length (concat xs) = c * k + length (xs ! c)"
  using assms
proof (induction xs arbitrary: c)
  case (Cons x xs)
  show ?case
  proof (cases c)
    case 0
    then have e: "concat xs = []" using concat_rest Cons.prems(3) by blast
    show ?thesis by (simp add: 0 e)
  next
    case (Suc d)
    have "length x = k" using Cons.prems(2) Suc by (metis nth_Cons_0 zero_less_Suc)
    moreover have "length (concat xs) = d * k + length (xs ! d)" using Cons.prems Suc by (intro Cons.IH) auto
    ultimately show ?thesis using Suc by simp
  qed
qed simp

lemma concat_put:
  assumes "c < length xs" "\<forall>i < length xs. c < i \<longrightarrow> xs ! i = []"
  shows "concat (xs[c := xs ! c @ [n]]) = concat xs @ [n]"
  using assms
proof (induction xs arbitrary: c)
  case (Cons x xs)
  show ?case
  proof (cases c)
    case 0
    then have e: "concat xs = []" using concat_rest Cons.prems(2) by blast
    show ?thesis by (simp add: 0 e)
  next
    case (Suc d)
    have "concat (xs[d := xs ! d @ [n]]) = concat xs @ [n]" using Cons.prems Suc by (intro Cons.IH) auto
    then show ?thesis using Suc by simp
  qed
qed simp

lemma next_chunk_inv:
  assumes "arena_inv a"
  shows "arena_inv (next_chunk a) \<and> arena_nodes (next_chunk a) = arena_nodes a \<and> ar_current (next_chunk a) < arenaChunkSize
    \<and> ar_currentLine (next_chunk a) = ar_currentLine a"
proof (cases "ar_current a \<ge> arenaChunkSize")
  case True
  then have "(ar_chunks a @ [[]]) ! Suc (ar_chunkIdx a) = []" using assms by (auto simp: arena_inv_def nth_append)
  then show ?thesis using assms True by (auto simp: arena_inv_def next_chunk_def nth_append less_Suc_eq arenaChunkSize_def)
qed (use assms in \<open>simp add: next_chunk_def\<close>)

lemma Alloc_ok:
  assumes "arena_inv a"
  shows "\<exists>a'. Alloc n a = Some (of_nat (length (arena_nodes a)), a') \<and> arena_inv a' \<and>
    arena_nodes a' = arena_nodes a @ [setNodeLine n (ar_currentLine a)] \<and> ar_currentLine a' = ar_currentLine a"
proof -
  let ?b = "next_chunk a"
  have b: "arena_inv ?b" "arena_nodes ?b = arena_nodes a" "ar_current ?b < arenaChunkSize" "ar_currentLine ?b = ar_currentLine a"
    using next_chunk_inv [OF assms] by auto
  then have i: "ar_chunkIdx ?b < length (ar_chunks ?b)" "\<forall>i < length (ar_chunks ?b). ar_chunkIdx ?b < i \<longrightarrow> ar_chunks ?b ! i = []"
    "ar_total ?b = of_nat (length (arena_nodes ?b))" by (simp_all add: arena_inv_def)
  note c = concat_put [OF i(1,2), of "setNodeLine n (ar_currentLine a)"]
  show ?thesis using b i c by (auto simp: Alloc_def Let_def arena_inv_def nth_list_update)
qed

lemma Arena_Get_ok:
  assumes "arena_inv a" "unat i < length (arena_nodes a)"
  shows "Arena_Get i a = Some (arena_nodes a ! unat i)"
proof -
  let ?c = "unat i div arenaChunkSize" and ?o = "unat i mod arenaChunkSize"
  have inv: "ar_chunkIdx a < length (ar_chunks a)" "\<forall>j < ar_chunkIdx a. length (ar_chunks a ! j) = arenaChunkSize"
    "length (ar_chunks a ! ar_chunkIdx a) = ar_current a" "ar_current a \<le> arenaChunkSize"
    "\<forall>j < length (ar_chunks a). ar_chunkIdx a < j \<longrightarrow> ar_chunks a ! j = []" using assms(1) by (auto simp: arena_inv_def)
  have n: "?c * arenaChunkSize + ?o = unat i" by simp
  have lt: "unat i < ar_chunkIdx a * arenaChunkSize + ar_current a"
    using assms(2) concat_length [OF inv(1,2,5)] inv(3) by simp
  have o: "?c \<le> ar_chunkIdx a \<and> ?o < length (ar_chunks a ! ?c)"
  proof (cases "unat i < ar_chunkIdx a * arenaChunkSize")
    case True
    then have "?c < ar_chunkIdx a" by (simp add: less_mult_imp_div_less)
    then show ?thesis using inv(2) by (simp add: arenaChunkSize_def)
  next
    case False
    then obtain d where d: "unat i = ar_chunkIdx a * arenaChunkSize + d" by (metis le_add_diff_inverse not_less)
    then have "d < ar_current a" "d < arenaChunkSize" using lt inv(4) by simp_all
    then show ?thesis using d inv(3) by (simp add: arenaChunkSize_def)
  qed
  then have "arena_nodes a ! (?c * arenaChunkSize + ?o) = ar_chunks a ! ?c ! ?o"
    using inv(1,2) by (intro concat_nth) auto
  then show ?thesis using o inv(1) n by (simp add: Arena_Get_def Let_def)
qed

interpretation arena: growing_store arena_inv arena_nodes "2 ^ 32" Alloc Arena_Get unat "\<lambda>n a. setNodeLine n (ar_currentLine a)"
proof (unfold_locales, goal_cases)
  case (1 a n)
  then have "unat (of_nat (length (arena_nodes a)) :: 32 word) = length (arena_nodes a)" by (simp add: unat_of_nat)
  then show ?case using Alloc_ok [OF 1(1), of n] by blast
next
  case (2 a i)
  then show ?case by (simp add: Arena_Get_ok)
qed

text \<open>C14. The arena is a list of nodes: on an arena of less than 2^32 nodes AllocX returns the node it was
  given, with the current line, and adds it behind the others, Get of the number of an earlier node
  still returns that node, and Reset leaves an arena that starts again from the empty list.\<close>

theorem arena_store:
  assumes "arena_inv a" "length (arena_nodes a) < 2 ^ 32"
  shows "\<exists>a'. AllocNode n a = Some (setNodeLine n (ar_currentLine a), a') \<and> arena_inv a' \<and>
      arena_nodes a' = arena_nodes a @ [setNodeLine n (ar_currentLine a)] \<and>
      (\<forall>i. unat i < length (arena_nodes a) \<longrightarrow> Arena_Get i a' = Some (arena_nodes a ! unat i)) \<and>
      arena_inv (Arena_Reset a') \<and> arena_nodes (Arena_Reset a') = []"
proof -
  obtain a' where a': "Alloc n a = Some (of_nat (length (arena_nodes a)), a')" "arena_inv a'"
    "arena_nodes a' = arena_nodes a @ [setNodeLine n (ar_currentLine a)]" using Alloc_ok [OF assms(1)] by blast
  have "Arena_Get (of_nat (length (arena_nodes a))) a' = Some (setNodeLine n (ar_currentLine a))"
    by (rule arena.put_get [OF assms a'(1)])
  moreover have "Arena_Get i a' = Some (arena_nodes a ! unat i)" if "unat i < length (arena_nodes a)" for i
    using arena.get_stays [OF assms a'(1) that] arena.get_ok [OF assms(1) _ that] assms(2) by simp
  moreover have "arena_inv (Arena_Reset a')" "arena_nodes (Arena_Reset a') = []"
    by (auto simp: arena_inv_def Arena_Reset_def Let_def arenaChunkSize_def)
  ultimately show ?thesis using a' by (auto simp: AllocNode_def)
qed

theorem arena_store_witness:
  "\<exists>a'. AllocNode (BreakStmt 0) NewArena = Some (setNodeLine (BreakStmt 0) (ar_currentLine NewArena), a') \<and> arena_inv a' \<and>
      arena_nodes a' = arena_nodes NewArena @ [setNodeLine (BreakStmt 0) (ar_currentLine NewArena)] \<and>
      (\<forall>i. unat i < length (arena_nodes NewArena) \<longrightarrow> Arena_Get i a' = Some (arena_nodes NewArena ! unat i)) \<and>
      arena_inv (Arena_Reset a') \<and> arena_nodes (Arena_Reset a') = []"
  by (rule arena_store) (simp_all add: arena_inv_def NewArena_def arenaChunkSize_def)

end
