(* ===== verification/Captures.thy ===== *)
theory Captures
  imports Ast
begin

text \<open>
  The two analyses the parser runs on the bodies it has read: the names a lambda captures
  (pkg/parser/captures.go) and the local variables that escape (pkg/parser/escape.go).  The maps from
  names to booleans that the walks fill are sets of names.
\<close>

section \<open>Captures\<close>

record captureSet =
  cs_seen :: "string set"
  cs_order :: "string list"

definition cs_add :: "string \<Rightarrow> captureSet \<Rightarrow> captureSet" where
  "cs_add name c =
     (if name \<in> cs_seen c then c
      else c\<lparr>cs_seen := insert name (cs_seen c), cs_order := cs_order c @ [name]\<rparr>)"

definition cs_remove :: "string \<Rightarrow> captureSet \<Rightarrow> captureSet" where
  "cs_remove name c = c\<lparr>cs_seen := cs_seen c - {name}\<rparr>"

text \<open>The nodes of a list are smaller than a node that has the list as a field.\<close>

lemma child_size: "x \<in> set xs \<Longrightarrow> size_list size xs \<le> n \<Longrightarrow> size x < Suc n" for x :: node
  by (meson le_imp_less_Suc order.trans size_list_estimation' order_refl)

lemma arm_size: "MatchArm t v b body \<in> set xs \<Longrightarrow> size_list size xs \<le> n \<Longrightarrow> size body < Suc n"
  using child_size [of "MatchArm t v b body" xs n] by simp

function (sequential) markLocals :: "node \<Rightarrow> captureSet \<Rightarrow> captureSet" where
  "markLocals n cs =
     (case n of
        VarDeclStmt name _ _ _ _ _ _ _ _ _ _ \<Rightarrow> cs_remove name cs
      | IfStmt _ consequence alternative _ \<Rightarrow> fold markLocals alternative (fold markLocals consequence cs)
      | WhileStmt _ body _ \<Rightarrow> fold markLocals body cs
      | _ \<Rightarrow> cs)"
  by pat_completeness auto
termination
  by (relation "measure (\<lambda>(n, cs). size n)") (auto simp: child_size)

declare markLocals.simps [simp del]


text \<open>What \<open>ComputeCaptures\<close> does after the walk over the body.\<close>

definition captures_result :: "string list \<Rightarrow> node list \<Rightarrow> captureSet \<Rightarrow> string list" where
  "captures_result params body cs =
     (let cs = fold markLocals body (fold cs_remove params cs)
      in filter (\<lambda>name. name \<in> cs_seen cs) (cs_order cs))"

definition no_captures :: captureSet where "no_captures = \<lparr>cs_seen = {}, cs_order = []\<rparr>"

function (sequential) walkCaptures :: "node \<Rightarrow> captureSet \<Rightarrow> captureSet" where
  "walkCaptures n cs =
     (case n of
        Identifier name _ _ _ \<Rightarrow> cs_add name cs
      | ExprStmt e _ \<Rightarrow> walkCaptures e cs
      | ReturnStmt e _ \<Rightarrow> walkCaptures e cs
      | IfStmt condition consequence alternative _ \<Rightarrow>
          fold walkCaptures alternative (fold walkCaptures consequence (walkCaptures condition cs))
      | WhileStmt condition body _ \<Rightarrow> fold walkCaptures body (walkCaptures condition cs)
      | BinaryExpr l _ r _ \<Rightarrow> walkCaptures r (walkCaptures l cs)
      | UnaryExpr _ e _ \<Rightarrow> walkCaptures e cs
      | CallExpr f _ args _ _ _ _ _ \<Rightarrow> fold walkCaptures args (if f \<noteq> [] then cs_add f cs else cs)
      | IndirectCallExpr target args _ _ _ \<Rightarrow> fold walkCaptures args (walkCaptures target cs)
      | IndexExpr l i _ \<Rightarrow> walkCaptures i (walkCaptures l cs)
      | LambdaExpr params _ body _ _ \<Rightarrow>
          fold cs_add (captures_result params body (fold walkCaptures body no_captures)) cs
      | VarDeclStmt name v _ _ _ _ _ _ _ _ _ \<Rightarrow>
          cs_remove name
            (case v of
               NoNode \<Rightarrow> cs
             | FuncDecl _ _ _ _ _ captures _ _ _ _ _ \<Rightarrow> fold cs_add captures cs
             | _ \<Rightarrow> walkCaptures v cs)
      | _ \<Rightarrow> cs)"
  by pat_completeness auto
termination
  by (relation "measure (\<lambda>(n, cs). size n)") (auto simp: child_size)

definition ComputeCaptures :: "string list \<Rightarrow> node list \<Rightarrow> string list" where
  "ComputeCaptures params body = captures_result params body (fold walkCaptures body no_captures)"

text \<open>The variant with the mutability of the captured variables.\<close>

record CaptureInfo =
  ci_Name :: string
  ci_ByRef :: bool

definition ComputeCapturesWithMutability :: "string list \<Rightarrow> node list \<Rightarrow> (string \<rightharpoonup> bool) \<Rightarrow> CaptureInfo list" where
  "ComputeCapturesWithMutability params body scope =
     map (\<lambda>name. \<lparr>ci_Name = name, ci_ByRef = (case scope name of Some mut \<Rightarrow> mut | None \<Rightarrow> False)\<rparr>)
       (captures_result params body (fold walkCaptures body no_captures))"

section \<open>Escaping variables\<close>

text \<open>\<open>collectIdentifiers\<close> and \<open>collectIdentsInStmt\<close> call each other; the flag says which of them it is.\<close>

function (sequential) collect :: "bool \<Rightarrow> node \<Rightarrow> string set \<Rightarrow> string set" where
  "collect stmt n ids =
     (if stmt then
        (case n of
           VarDeclStmt _ v _ _ _ _ _ _ _ _ _ \<Rightarrow> collect False v ids
         | ExprStmt e _ \<Rightarrow> collect False e ids
         | ReturnStmt e _ \<Rightarrow> collect False e ids
         | IfStmt condition consequence alternative _ \<Rightarrow>
             fold (collect True) alternative (fold (collect True) consequence (collect False condition ids))
         | WhileStmt condition body _ \<Rightarrow> fold (collect True) body (collect False condition ids)
         | PrintStmt e _ \<Rightarrow> collect False e ids
         | _ \<Rightarrow> ids)
      else
        (case n of
           Identifier name _ _ _ \<Rightarrow> insert name ids
         | BinaryExpr l _ r _ \<Rightarrow> collect False r (collect False l ids)
         | UnaryExpr _ e _ \<Rightarrow> collect False e ids
         | CallExpr _ _ args _ _ _ _ _ \<Rightarrow> fold (collect False) args ids
         | IndirectCallExpr target args _ _ _ \<Rightarrow> fold (collect False) args (collect False target ids)
         | IndexExpr l i _ \<Rightarrow> collect False i (collect False l ids)
         | DotExpr l _ _ \<Rightarrow> collect False l ids
         | LambdaExpr _ _ body _ _ \<Rightarrow> fold (collect True) body ids
         | _ \<Rightarrow> ids))"
  by pat_completeness auto
termination
  by (relation "measure (\<lambda>(b, n, ids). size n)") (auto simp: child_size)

abbreviation collectIdentifiers :: "node \<Rightarrow> string set \<Rightarrow> string set" where
  "collectIdentifiers \<equiv> collect False"
abbreviation collectIdentsInStmt :: "node \<Rightarrow> string set \<Rightarrow> string set" where
  "collectIdentsInStmt \<equiv> collect True"

text \<open>\<open>scanStmtForEscapes\<close> and \<open>scanExprForEscapes\<close>, in the same way.\<close>

function (sequential) scan :: "bool \<Rightarrow> node \<Rightarrow> string set \<Rightarrow> string set" where
  "scan stmt n ids =
     (if stmt then
        (case n of
           VarDeclStmt _ v _ _ _ _ _ _ _ _ _ \<Rightarrow> scan False v ids
         | ExprStmt e _ \<Rightarrow> scan False e ids
         | ReturnStmt e _ \<Rightarrow> collectIdentifiers e ids
         | IfStmt condition consequence alternative _ \<Rightarrow>
             fold (scan True) alternative (fold (scan True) consequence (scan False condition ids))
         | WhileStmt condition body _ \<Rightarrow> fold (scan True) body (scan False condition ids)
         | ForStmt init condition post body _ \<Rightarrow>
             fold (scan True) body (scan False post (scan False condition (scan False init ids)))
         | ForInStmt _ _ iter body _ \<Rightarrow> fold (scan True) body (scan False iter ids)
         | MatchExpr v arms _ \<Rightarrow>
             fold (\<lambda>arm. case arm of MatchArm _ _ _ body \<Rightarrow> scan True body | _ \<Rightarrow> id) arms (scan False v ids)
         | PrintStmt e _ \<Rightarrow> collectIdentifiers e ids
         | SendExpr channel message _ \<Rightarrow> collectIdentifiers channel (collectIdentifiers message ids)
         | _ \<Rightarrow> ids)
      else
        (case n of
           CallExpr _ _ args _ _ _ _ _ \<Rightarrow> fold collectIdentifiers args ids
         | IndirectCallExpr target args _ _ _ \<Rightarrow> fold collectIdentifiers args (collectIdentifiers target ids)
         | LambdaExpr _ _ body _ _ \<Rightarrow> fold (scan True) body ids
         | BinaryExpr l _ r _ \<Rightarrow> scan False r (scan False l ids)
         | UnaryExpr _ e _ \<Rightarrow> scan False e ids
         | IndexExpr l i _ \<Rightarrow> scan False i (collectIdentifiers l ids)
         | DotExpr l _ _ \<Rightarrow> collectIdentifiers l ids
         | ArrayLiteral elements _ \<Rightarrow> fold collectIdentifiers elements ids
         | MapLiteral keys values _ \<Rightarrow> fold collectIdentifiers values (fold collectIdentifiers keys ids)
         | _ \<Rightarrow> ids))"
  by pat_completeness auto
termination
  by (relation "measure (\<lambda>(b, n, ids). size n)") (auto simp: child_size arm_size)

abbreviation scanStmtForEscapes :: "node \<Rightarrow> string set \<Rightarrow> string set" where
  "scanStmtForEscapes \<equiv> scan True"
abbreviation scanExprForEscapes :: "node \<Rightarrow> string set \<Rightarrow> string set" where
  "scanExprForEscapes \<equiv> scan False"

definition mark_escape :: "string set \<Rightarrow> node \<Rightarrow> node" where
  "mark_escape escaping s =
     (case s of
        VarDeclStmt name v t c m si al esc line col ecol \<Rightarrow>
          VarDeclStmt name v t c m si al (if name \<in> escaping then True else esc) line col ecol
      | _ \<Rightarrow> s)"

definition MarkVarEscaping :: "node list \<Rightarrow> node list" where
  "MarkVarEscaping body = map (mark_escape (fold scanStmtForEscapes body {})) body"

declare walkCaptures.simps [simp del] collect.simps [simp del] scan.simps [simp del]

end
