(* ===== verification/Captures_Props.thy ===== *)
theory Captures_Props
  imports Captures
begin

text \<open>
  \<open>ComputeCaptures\<close> against a definition on sets: the names a body mentions, less the parameters and the
  names it declares.
\<close>

section \<open>Specification\<close>

function (sequential) locals_of :: "node \<Rightarrow> string set" where
  "locals_of n =
     (case n of
        VarDeclStmt name _ _ _ _ _ _ _ _ _ _ \<Rightarrow> {name}
      | IfStmt _ consequence alternative _ \<Rightarrow> \<Union> (locals_of ` (set consequence \<union> set alternative))
      | WhileStmt _ body _ \<Rightarrow> \<Union> (locals_of ` set body)
      | _ \<Rightarrow> {})"
  by pat_completeness auto
termination by (relation "measure size") (auto simp: child_size)

function (sequential) names_of :: "node \<Rightarrow> string set" where
  "names_of n =
     (case n of
        Identifier name _ _ _ \<Rightarrow> {name}
      | ExprStmt e _ \<Rightarrow> names_of e
      | ReturnStmt e _ \<Rightarrow> names_of e
      | IfStmt condition consequence alternative _ \<Rightarrow>
          names_of condition \<union> \<Union> (names_of ` set consequence) \<union> \<Union> (names_of ` set alternative)
      | WhileStmt condition body _ \<Rightarrow> names_of condition \<union> \<Union> (names_of ` set body)
      | BinaryExpr l _ r _ \<Rightarrow> names_of l \<union> names_of r
      | UnaryExpr _ e _ \<Rightarrow> names_of e
      | CallExpr f _ args _ _ _ _ _ \<Rightarrow> (if f \<noteq> [] then {f} else {}) \<union> \<Union> (names_of ` set args)
      | IndirectCallExpr target args _ _ _ \<Rightarrow> names_of target \<union> \<Union> (names_of ` set args)
      | IndexExpr l i _ \<Rightarrow> names_of l \<union> names_of i
      | LambdaExpr params _ body _ _ \<Rightarrow> \<Union> (names_of ` set body) - set params - \<Union> (locals_of ` set body)
      | VarDeclStmt name v _ _ _ _ _ _ _ _ _ \<Rightarrow>
          (case v of
             NoNode \<Rightarrow> {}
           | FuncDecl _ _ _ _ _ captures _ _ _ _ _ \<Rightarrow> set captures
           | _ \<Rightarrow> names_of v)
      | _ \<Rightarrow> {})"
  by pat_completeness auto
termination by (relation "measure size") (auto simp: child_size)

text \<open>Declarations are statements: none inside an expression, as the parser builds the trees.\<close>

function (sequential) placed :: "bool \<Rightarrow> node \<Rightarrow> bool" where
  "placed stmt n =
     (case n of
        ExprStmt e _ \<Rightarrow> placed False e
      | ReturnStmt e _ \<Rightarrow> placed False e
      | IfStmt condition consequence alternative _ \<Rightarrow>
          placed False condition \<and> list_all (placed stmt) consequence \<and> list_all (placed stmt) alternative
      | WhileStmt condition body _ \<Rightarrow> placed False condition \<and> list_all (placed stmt) body
      | BinaryExpr l _ r _ \<Rightarrow> placed False l \<and> placed False r
      | UnaryExpr _ e _ \<Rightarrow> placed False e
      | CallExpr f _ args _ _ _ _ _ \<Rightarrow> list_all (placed False) args
      | IndirectCallExpr target args _ _ _ \<Rightarrow> placed False target \<and> list_all (placed False) args
      | IndexExpr l i _ \<Rightarrow> placed False l \<and> placed False i
      | LambdaExpr params _ body _ _ \<Rightarrow> list_all (placed True) body
      | VarDeclStmt name v _ _ _ _ _ _ _ _ _ \<Rightarrow>
          stmt \<and> (case v of NoNode \<Rightarrow> True | FuncDecl _ _ _ _ _ _ _ _ _ _ _ \<Rightarrow> True | _ \<Rightarrow> placed False v)
      | _ \<Rightarrow> True)"
  by pat_completeness auto
termination by (relation "measure (\<lambda>(b, n). size n)") (auto simp: child_size)

declare locals_of.simps [simp del] names_of.simps [simp del] placed.simps [simp del]

section \<open>The walk\<close>






lemma drop_twice: "cs\<lparr>cs_seen := cs_seen cs - A\<rparr>\<lparr>cs_seen := cs_seen (cs\<lparr>cs_seen := cs_seen cs - A\<rparr>) - B\<rparr> = cs\<lparr>cs_seen := cs_seen cs - (A \<union> B)\<rparr>"
  by (simp add: Diff_eq Int_assoc Un_commute)









end
