(* ===== verification/Parser_State.thy ===== *)
theory Parser_State
  imports Ast Lexer
begin

text \<open>
  The parser's state and the operations on tokens (pkg/parser/parser.go).  \<open>Parser\<close> has the fields of
  the struct; of the arena it keeps the line that \<open>SetLine\<close> records, which is all the parser sees of it
  (\<open>AllocX\<close> builds a node, sets that line and returns it).

  An operation returns a value and the new state, or it panics, or it has used up the fuel of the
  model: a call that never returns has no fuel that is enough.  \<open>andThen\<close> sequences operations.

  The operations call each other in a cycle.  \<open>calls\<close> is the record of those that are called
  recursively, the loops included; every definition of the following theories takes it as its first
  argument, and the last one ties the knot with one unit of fuel for a call.
\<close>

section \<open>State\<close>

record Parser =
  ps_l :: Lexer
  ps_cur :: Token
  ps_peek :: Token
  ps_src :: string
  ps_line :: int
  ps_Errors :: "string list"
  ps_ErrorCols :: "int list"
  ps_enumNames :: "string set"
  ps_ifCond :: bool

abbreviation cur :: "Parser \<Rightarrow> TokenType" where "cur p \<equiv> tk_Type (ps_cur p)"
abbreviation peek :: "Parser \<Rightarrow> TokenType" where "peek p \<equiv> tk_Type (ps_peek p)"

definition lit :: "Parser \<Rightarrow> string" where "lit p = Literal (ps_cur p) (ps_src p)"
definition cur_line :: "Parser \<Rightarrow> int" where "cur_line p = int (unat (tk_Line (ps_cur p)))"
definition cur_col :: "Parser \<Rightarrow> int" where "cur_col p = int (unat (tk_Col (ps_cur p)))"

definition nextToken :: "Parser \<Rightarrow> Parser" where
  "nextToken p =
     (let (t, l) = NextToken (ps_l p) in p\<lparr>ps_l := l, ps_cur := ps_peek p, ps_peek := t\<rparr>)"

definition no_token :: Token where
  "no_token = \<lparr>tk_Type = [], tk_Start = 0, tk_Len = 0, tk_Line = 0, tk_Col = 0\<rparr>"

definition NewParser :: "Lexer \<Rightarrow> Parser" where
  "NewParser l =
     nextToken (nextToken
       \<lparr>ps_l = l, ps_cur = no_token, ps_peek = no_token, ps_src = GetInput l, ps_line = 0,
        ps_Errors = [], ps_ErrorCols = [], ps_enumNames = {}, ps_ifCond = False\<rparr>)"

definition sq :: string where "sq = [CHR 0x27]"
definition dq :: string where "dq = [CHR 0x22]"
definition quoted :: "string \<Rightarrow> string" where "quoted s = sq @ s @ sq"

definition error_text :: "nat \<Rightarrow> string \<Rightarrow> string" where
  "error_text line msg = ''line '' @ print_nat line @ '': '' @ msg"

definition addError :: "string \<Rightarrow> Parser \<Rightarrow> Parser" where
  "addError msg p =
     p\<lparr>ps_Errors := ps_Errors p @ [error_text (unat (tk_Line (ps_cur p))) msg],
       ps_ErrorCols := ps_ErrorCols p @ [cur_col p + 1]\<rparr>"

definition advanceIfStalled :: "u32 \<Rightarrow> string \<Rightarrow> Parser \<Rightarrow> Parser" where
  "advanceIfStalled start context p =
     (if cur p = TokenEOF \<or> tk_Start (ps_cur p) \<noteq> start then p
      else nextToken (addError (''unexpected token '' @ quoted (lit p) @ '' in '' @ context) p))"

definition SetLine :: "Parser \<Rightarrow> Parser" where "SetLine p = p\<lparr>ps_line := cur_line p\<rparr>"

text \<open>A node made by the arena.\<close>

definition alloc :: "node \<Rightarrow> Parser \<Rightarrow> node" where "alloc n p = setNodeLine n (ps_line p)"

section \<open>Progress\<close>

text \<open>
  The measure of the loops: the tokens in hand that are not the end of file, and the characters the
  lexer has not read.  (A NUL byte is an end-of-file token with more text behind it.)
\<close>

definition todo :: "Parser \<Rightarrow> nat" where
  "todo p = (if cur p = TokenEOF then 0 else 1) + (if peek p = TokenEOF then 0 else 1) + remaining (ps_l p)"

lemma NextToken_le: "remaining (snd (NextToken l)) \<le> remaining l"
proof -
  let ?l = "skipWhitespace l"
  have "remaining (snd (NextToken l)) \<le> remaining ?l"
  proof (cases "Ch ?l = NUL")
    case True
    then show ?thesis
      using remaining_advance_le [of ?l] by (simp add: NextToken_def Let_def op_token_not(1))
  next
    case ne: False
    show ?thesis
      using one_char_lt [OF ne] two_char_lt [OF ne] scanString_lt [OF ne] scanIdentifier_lt [OF ne] scanNumber_lt [OF ne] ne
      by (simp add: NextToken_def Let_def less_imp_le split: option.split prod.split)
  qed
  then show ?thesis using skipWhitespace_le [of l] by simp
qed

lemma nextToken_todo: "todo (nextToken p) + (if cur p = TokenEOF then 0 else 1) \<le> todo p"
  using NextToken_progress [of "ps_l p"] NextToken_le [of "ps_l p"]
  by (auto simp: todo_def nextToken_def Let_def split: prod.split)

lemma nextToken_lt: "cur p \<noteq> TokenEOF \<Longrightarrow> todo (nextToken p) < todo p"
  using nextToken_todo [of p] by simp

lemma nextToken_le: "todo (nextToken p) \<le> todo p"
  using nextToken_todo [of p] by simp

lemma todo_update [simp]:
  "todo (p\<lparr>ps_Errors := a\<rparr>) = todo p" "todo (p\<lparr>ps_ErrorCols := b\<rparr>) = todo p" "todo (p\<lparr>ps_line := c\<rparr>) = todo p"
  "todo (p\<lparr>ps_enumNames := d\<rparr>) = todo p" "todo (p\<lparr>ps_ifCond := f\<rparr>) = todo p" "todo (addError msg p) = todo p"
  "todo (SetLine p) = todo p"
  by (simp_all add: todo_def addError_def SetLine_def)

text \<open>\<open>if p.curToken.Type == t \{ p.nextToken() \}\<close>\<close>

definition skip_if :: "TokenType \<Rightarrow> Parser \<Rightarrow> Parser" where
  "skip_if t p = (if cur p = t then nextToken p else p)"

lemma skip_if_le: "todo (skip_if t p) \<le> todo p"
  by (simp add: skip_if_def nextToken_le)

lemma cur_update [simp]:
  "ps_cur (addError msg p) = ps_cur p" "ps_cur (SetLine p) = ps_cur p"
  by (simp_all add: addError_def SetLine_def)

section \<open>Outcomes and calls\<close>

datatype 'a outcome = Return 'a Parser | Panic | NoFuel

fun andThen :: "'a outcome \<Rightarrow> ('a \<Rightarrow> Parser \<Rightarrow> 'b outcome) \<Rightarrow> 'b outcome" where
  "andThen (Return x p) f = f x p"
| "andThen Panic f = Panic"
| "andThen NoFuel f = NoFuel"

type_synonym 'a act = "Parser \<Rightarrow> 'a outcome"

record calls =
  k_binary :: "node \<Rightarrow> int \<Rightarrow> node act"
  k_loop :: "node \<Rightarrow> int \<Rightarrow> node act"
  k_unary :: "node act"
  k_primary :: "node act"
  k_brackets :: "node \<Rightarrow> node act"
  k_calls :: "node \<Rightarrow> node act"
  k_args :: "string \<Rightarrow> node list \<Rightarrow> node list act"
  k_elems :: "string option \<Rightarrow> node list \<Rightarrow> node list act"
  k_pairs :: "node list \<Rightarrow> node list \<Rightarrow> (node list \<times> node list) act"
  k_fields :: "node list \<Rightarrow> node list act"
  k_arms :: "node list \<Rightarrow> node list act"
  k_targets :: "int \<Rightarrow> node \<Rightarrow> node act"
  k_stmts :: "node list \<Rightarrow> node list act"
  k_statement :: "node act"
  k_if :: "node act"
  k_mparams :: "string list \<Rightarrow> string list act"
  k_mstmts :: "node list \<Rightarrow> node list act"

end
