(* ===== verification/Parser_Expr.thy ===== *)
theory Parser_Expr
  imports Parser_State Captures
begin

text \<open>
  The expression half of the parser (pkg/parser/parser.go): precedence climbing with its postfix
  operators, the primary expressions, calls, literals, generic arguments with backtracking and match
  expressions.  A function of the source is the definition of its name; a loop in it is a definition
  of its own, called through the record \<open>calls\<close>.
\<close>

section \<open>Sequences every operation uses\<close>

definition parseExpr :: "calls \<Rightarrow> node act" where
  "parseExpr r p = k_binary r NoNode 0 (SetLine p)"

text \<open>\<open>p.nextToken(); p.nextToken(); e := p.parseExpr(); p.nextToken()\<close>: a keyword and an argument in
  parentheses, none of which is checked.\<close>

definition keyword_paren :: "calls \<Rightarrow> node act" where
  "keyword_paren r p = andThen (parseExpr r (nextToken (nextToken p))) (\<lambda>e p. Return e (nextToken p))"

text \<open>The loop over the arguments of a call: \<open>for p.curToken.Type != ')' && p.curToken.Type != EOF\<close>.\<close>

definition args_loop :: "calls \<Rightarrow> string \<Rightarrow> node list \<Rightarrow> node list act" where
  "args_loop r context args p =
     (if cur p = TokenRParen \<or> cur p = TokenEOF then Return args p
      else
        (let start = tk_Start (ps_cur p) in
         andThen (parseExpr r p) (\<lambda>e p.
           let p = skip_if TokenComma p;
               p = advanceIfStalled start context p
           in k_args r context (args @ [e]) p)))"

text \<open>The arguments and the closing parenthesis.\<close>

definition call_args :: "calls \<Rightarrow> string \<Rightarrow> node list act" where
  "call_args r context p = andThen (k_args r context [] p) (\<lambda>args p. Return args (nextToken p))"

text \<open>\<open>for p.curToken.Type == ','\<close>: further elements of a list; only some of these loops look for a stall.\<close>

definition elems_loop :: "calls \<Rightarrow> string option \<Rightarrow> node list \<Rightarrow> node list act" where
  "elems_loop r context elems p =
     (if cur p = TokenComma then
        (let p = nextToken p; start = tk_Start (ps_cur p) in
         andThen (parseExpr r p) (\<lambda>e p.
           let p = (case context of Some c \<Rightarrow> advanceIfStalled start c p | None \<Rightarrow> p)
           in k_elems r context (elems @ [e]) p))
      else Return elems p)"

text \<open>A list up to a closing token: the first element unless the list is empty, then \<open>elems_loop\<close>.\<close>

definition elem_list :: "calls \<Rightarrow> TokenType \<Rightarrow> string option \<Rightarrow> node list act" where
  "elem_list r closing context p =
     (if cur p \<noteq> closing then andThen (parseExpr r p) (\<lambda>e p. k_elems r context [e] p) else Return [] p)"

section \<open>Operators\<close>

definition precedence :: "string \<Rightarrow> int" where
  "precedence op =
     (if op = ''||'' then 0 else if op = ''&&'' then 1 else if op = ''|'' then 2 else if op = ''^'' then 3
      else if op = ''&'' then 4
      else if op \<in> {''=='', ''!='', ''<'', ''>'', ''<='', ''>=''} then 5
      else if op \<in> {''<<'', ''>>''} then 6
      else if op \<in> {''+'', ''-''} then 7
      else if op \<in> {''*'', ''/'', ''%''} then 8
      else -1)"

text \<open>The switch from token types to operators, empty when the token is not an operator.\<close>

definition binary_ops :: "(TokenType \<times> string) list" where
  "binary_ops =
     [(TokenPlus, ''+''), (TokenMinus, ''-''), (TokenStar, ''*''), (TokenSlash, ''/''), (TokenPercent, ''%''),
      (TokenEqual, ''==''), (TokenNotEqual, ''!=''), (TokenLessThan, ''<''), (TokenGreaterThan, ''>''),
      (TokenLessEqual, ''<=''), (TokenGreaterEqual, ''>=''), (TokenAnd, ''&&''), (TokenOr, ''||''),
      (TokenAmp, ''&''), (TokenPipe, ''|''), (TokenCaret, ''^''), (TokenShiftLeft, ''<<''), (TokenShiftRight, ''>>'')]"

definition binary_op_of :: "TokenType \<Rightarrow> string" where
  "binary_op_of t = (case map_of binary_ops t of Some op \<Rightarrow> op | None \<Rightarrow> [])"

text \<open>The inside of brackets after an expression: an index, a matrix index or a slice.  The bracket
  that closes it is not checked.\<close>

definition bracket_start :: "calls \<Rightarrow> node act" where
  "bracket_start r p = (if cur p = TokenColon then Return (IntLiteral ''0'' 0) p else parseExpr r p)"

definition slice_end :: "calls \<Rightarrow> node act" where
  "slice_end r p = (if cur p \<noteq> TokenRBracket then parseExpr r p else Return NoNode p)"

definition brackets_loop :: "calls \<Rightarrow> node \<Rightarrow> node act" where
  "brackets_loop r left p =
     (if cur p = TokenLBracket then
        andThen (bracket_start r (nextToken p)) (\<lambda>first p.
          if cur p = TokenComma then
            andThen (parseExpr r (nextToken p)) (\<lambda>col p.
              let p = nextToken p in k_brackets r (alloc (MatrixIndexExpr left first col 0) p) p)
          else if cur p = TokenColon then
            andThen (slice_end r (nextToken p)) (\<lambda>stop p.
              k_brackets r (SliceExpr left first stop 0) (nextToken p))
          else (let p = nextToken p in k_brackets r (alloc (IndexExpr left first 0) p) p))
      else Return left p)"

definition genericCallTarget :: "node \<Rightarrow> (string \<times> int \<times> int \<times> string list) option" where
  "genericCallTarget target =
     (case target of
        IndexExpr (Identifier h _ col ecol) (Identifier a _ _ _) _ \<Rightarrow> Some (h, col, ecol, [a])
      | MatrixIndexExpr (Identifier h _ col ecol) (Identifier a _ _ _) (Identifier b _ _ _) _ \<Rightarrow> Some (h, col, ecol, [a, b])
      | _ \<Rightarrow> None)"

text \<open>A call of an expression: a generic call when the target has that shape, an indirect call otherwise.\<close>

definition postfix_call :: "node \<Rightarrow> node list \<Rightarrow> int \<Rightarrow> node" where
  "postfix_call target args line =
     (case genericCallTarget target of
        Some (h, col, ecol, targs) \<Rightarrow> CallExpr h [] args False targs line col ecol
      | None \<Rightarrow> IndirectCallExpr target args line 0 0)"

definition calls_loop :: "calls \<Rightarrow> node \<Rightarrow> node act" where
  "calls_loop r left p =
     (if cur p = TokenLParen then
        (let callLine = cur_line p in
         andThen (call_args r ''indirect call arguments'' (nextToken p)) (\<lambda>args p.
           k_calls r (postfix_call left args callLine) p))
      else Return left p)"

text \<open>The postfix operators \<open>@derive\<close>, \<open>@tag\<close> and \<open>?\<close>.\<close>

definition postfix_at :: "node \<Rightarrow> Parser \<Rightarrow> node \<times> Parser" where
  "postfix_at left p =
     (if cur p = TokenAt then
        (let p = nextToken p; ident = lit p; p = nextToken p in
         if ident = ''derive'' \<and> cur p = TokenLParen then
           (let p = nextToken p; trait = lit p; p = nextToken (nextToken p) in (DeriveExpr trait left 0, p))
         else if ident = ''tag'' \<and> cur p = TokenLParen then
           (let p = nextToken p; tagName = lit p; p = nextToken (nextToken p); tagValue = lit p;
                p = nextToken (nextToken p)
            in (TagExpr left tagName tagValue 0, p))
         else (left, addError (''unexpected '' @ quoted (CHR ''@'' # ident) @ '' after expression (expected @derive(...) or @tag(...))'') p))
      else (left, p))"

definition postfix_question :: "node \<Rightarrow> Parser \<Rightarrow> node \<times> Parser" where
  "postfix_question left p = (if cur p = TokenQuestion then (PropagateExpr left 0, nextToken p) else (left, p))"

definition require :: "node \<Rightarrow> string \<Rightarrow> Parser \<Rightarrow> Parser" where
  "require n msg p = (if is_nil n then addError msg p else p)"

text \<open>One round of the loop of \<open>parseBinaryExpr\<close>, after the brackets and calls.\<close>

definition binary_round :: "calls \<Rightarrow> node \<Rightarrow> int \<Rightarrow> node act" where
  "binary_round r left minPrec p =
     (if cur p = TokenAssign \<and> minPrec = 0 \<and> \<not> is_nil left then
        andThen (parseExpr r (nextToken p)) (\<lambda>right p.
          let p = require right (''expected expression after '' @ quoted ''='' @ '' operator'') p
          in k_loop r (alloc (BinaryExpr left ''='' right 0) p) minPrec p)
      else
        (let op = binary_op_of (cur p) in
         if op = [] \<or> precedence op < minPrec then Return left p
         else
           andThen (k_binary r NoNode (precedence op + 1) (nextToken p)) (\<lambda>right p.
             let p = require right (''expected expression after '' @ quoted op @ '' operator'') p
             in k_loop r (alloc (BinaryExpr left op right 0) p) minPrec p)))"

definition binary_loop :: "calls \<Rightarrow> node \<Rightarrow> int \<Rightarrow> node act" where
  "binary_loop r left minPrec p =
     andThen (k_brackets r left p) (\<lambda>left p.
     andThen (k_calls r left p) (\<lambda>left p.
       let (left, p) = postfix_at left p; (left, p) = postfix_question left p
       in binary_round r left minPrec p))"

definition parseBinaryExpr :: "calls \<Rightarrow> node \<Rightarrow> int \<Rightarrow> node act" where
  "parseBinaryExpr r left minPrec p =
     (if is_nil left then andThen (k_unary r p) (\<lambda>left p. k_loop r left minPrec p)
      else k_loop r left minPrec p)"

definition parseUnary :: "calls \<Rightarrow> node act" where
  "parseUnary r p =
     (if cur p = TokenMinus then
        andThen (k_unary r (nextToken p)) (\<lambda>operand p.
          let p = require operand (''expected expression after unary '' @ quoted ''-'') p
          in Return (alloc (UnaryExpr ''-'' operand 0) p) p)
      else if cur p = TokenNot then
        andThen (k_unary r (nextToken p)) (\<lambda>operand p.
          let p = require operand (''expected expression after unary '' @ quoted ''!'') p
          in Return (alloc (UnaryExpr ''!'' operand 0) p) p)
      else if cur p = TokenStar then
        andThen (k_unary r (nextToken p)) (\<lambda>operand p.
          Return (Dereference operand 0)
            (require operand (''expected expression after '' @ quoted ''*'' @ '' (dereference)'') p))
      else k_primary r p)"

section \<open>Generic arguments\<close>

text \<open>The names between the brackets; \<open>None\<close> at the first token that does not fit.\<close>

function generic_names :: "string list \<Rightarrow> Parser \<Rightarrow> (string list \<times> Parser) option" where
  "generic_names args p =
     (if cur p \<noteq> TokenIdent then None
      else
        (let args = args @ [lit p]; p' = nextToken p in
         if cur p' = TokenComma then generic_names args (nextToken p') else Some (args, p')))"
  by auto
termination
  by (relation "measure (\<lambda>(a, p). todo p)") (auto intro: le_less_trans [OF nextToken_le nextToken_lt])

declare generic_names.simps [simp del]

text \<open>\<open>mark\<close> and \<open>restore\<close> save and put back the lexer, both tokens and the lengths of the two error
  slices.  Nothing in between records an error or touches the other fields, so a failed attempt
  leaves the parser it found, which is what \<open>None\<close> stands for.\<close>

definition tryGenericArgs :: "TokenType \<Rightarrow> Parser \<Rightarrow> (string list \<times> Parser) option" where
  "tryGenericArgs follow p =
     (case generic_names [] (nextToken p) of
        None \<Rightarrow> None
      | Some (args, p) \<Rightarrow>
          if cur p \<noteq> TokenRBracket then None
          else (let p = nextToken p in if cur p \<noteq> follow then None else Some (args, nextToken p)))"


section \<open>Identifiers and literals\<close>

definition field_node :: "string \<Rightarrow> node \<Rightarrow> node" where
  "field_node name v = BinaryExpr (Identifier name 0 0 0) ''='' v 0"

text \<open>One field of a struct literal, \<open>name: value\<close>; the colon is not checked.\<close>

definition parse_field :: "calls \<Rightarrow> node act" where
  "parse_field r p =
     (let name = lit p in
      andThen (parseExpr r (nextToken (nextToken p))) (\<lambda>v p. Return (field_node name v) p))"

definition fields_loop :: "calls \<Rightarrow> node list \<Rightarrow> node list act" where
  "fields_loop r fs p =
     (if cur p = TokenComma then
        andThen (parse_field r (nextToken p)) (\<lambda>f p. k_fields r (fs @ [f]) p)
      else Return fs p)"

definition parseStructLiteralAfterBrace :: "calls \<Rightarrow> string \<Rightarrow> string list \<Rightarrow> node act" where
  "parseStructLiteralAfterBrace r typeName targs p =
     andThen
       (if cur p \<noteq> TokenRBrace then andThen (parse_field r p) (\<lambda>f p. k_fields r [f] p) else Return [] p)
       (\<lambda>fs p. Return (StructLiteral typeName fs targs 0) (nextToken p))"

definition parseStructLiteral :: "calls \<Rightarrow> string \<Rightarrow> node act" where
  "parseStructLiteral r typeName p = parseStructLiteralAfterBrace r typeName [] (nextToken p)"

text \<open>\<open>for p.curToken.Type == '.'\<close>: a chain of field accesses.\<close>

function dot_chain :: "node \<Rightarrow> Parser \<Rightarrow> node \<times> Parser" where
  "dot_chain e p =
     (if cur p = TokenDot then
        (let p' = nextToken p in dot_chain (DotExpr e (lit p') 0) (nextToken p'))
      else (e, p))"
  by auto
termination
  by (relation "measure (\<lambda>(e, p). todo p)") (auto intro: le_less_trans [OF nextToken_le nextToken_lt])

declare dot_chain.simps [simp del]

text \<open>A call \<open>left.right(args)\<close>: \<open>C.f\<close> keeps the qualifier in the name, other calls in the module field.\<close>

definition qualified_call :: "string \<Rightarrow> string \<Rightarrow> node list \<Rightarrow> int \<Rightarrow> int \<Rightarrow> node" where
  "qualified_call ident rightIdent args line col =
     (let isCFunc = (ident = ''C'');
          callName = (if isCFunc then ''C.'' @ rightIdent else rightIdent);
          module = (if isCFunc then [] else ident)
      in CallExpr callName module args isCFunc [] line col
           (col + int (length ident) + 1 + int (length rightIdent)))"

definition ident_dot :: "calls \<Rightarrow> string \<Rightarrow> int \<Rightarrow> node act" where
  "ident_dot r ident identCol p =
     (let p = nextToken p; rightIdent = lit p; p = nextToken p in
      if cur p = TokenLParen then
        andThen (call_args r ''function call arguments'' (nextToken p)) (\<lambda>args p.
          if ident \<in> ps_enumNames p then
            Return (EnumVariantExpr ident rightIdent (if length args = 1 then args ! 0 else NoNode) 0) p
          else Return (qualified_call ident rightIdent args 0 identCol) p)
      else if ident \<in> ps_enumNames p then Return (EnumVariantExpr ident rightIdent NoNode 0) p
      else
        (let (e, p) = dot_chain (DotExpr (alloc (Identifier ident 0 0 0) p) rightIdent 0) p in Return e p))"

definition ident_call :: "calls \<Rightarrow> string \<Rightarrow> int \<Rightarrow> node act" where
  "ident_call r ident identCol p =
     andThen (call_args r ''function call arguments'' (nextToken p)) (\<lambda>args p.
       Return (CallExpr ident [] args False [] (ps_line p) identCol (identCol + int (length ident))) p)"

text \<open>The identifier itself, or a struct literal when a brace follows outside of a bare condition.\<close>

definition ident_tail :: "calls \<Rightarrow> string \<Rightarrow> int \<Rightarrow> node act" where
  "ident_tail r ident identCol p =
     (if cur p = TokenLBrace \<and> \<not> ps_ifCond p then parseStructLiteral r ident p
      else Return (Identifier ident (ps_line p) identCol (identCol + int (length ident))) p)"

definition parseIdentExpr :: "calls \<Rightarrow> node act" where
  "parseIdentExpr r p =
     (let ident = lit p; identCol = cur_col p; p = nextToken p in
      if cur p = TokenDot then ident_dot r ident identCol p
      else if cur p = TokenLParen then ident_call r ident identCol p
      else if cur p = TokenLBracket \<and> \<not> ps_ifCond p then
        (case tryGenericArgs TokenLBrace p of
           Some (targs, p) \<Rightarrow> parseStructLiteralAfterBrace r ident targs p
         | None \<Rightarrow> ident_tail r ident identCol p)
      else ident_tail r ident identCol p)"

definition parseArrayLiteral :: "calls \<Rightarrow> node act" where
  "parseArrayLiteral r p =
     andThen (elem_list r TokenRBracket (Some ''array literal'') (nextToken p)) (\<lambda>elems p.
       Return (ArrayLiteral elems 0) (nextToken p))"

text \<open>\<open>key := p.parseExpr(); p.nextToken(); val := p.parseExpr()\<close>\<close>

definition parse_pair :: "calls \<Rightarrow> (node \<times> node) act" where
  "parse_pair r p =
     andThen (parseExpr r p) (\<lambda>key p. andThen (parseExpr r (nextToken p)) (\<lambda>v p. Return (key, v) p))"

definition pairs_loop :: "calls \<Rightarrow> node list \<Rightarrow> node list \<Rightarrow> (node list \<times> node list) act" where
  "pairs_loop r keys values p =
     (if cur p = TokenComma then
        (let p = nextToken p; start = tk_Start (ps_cur p) in
         andThen (parse_pair r p) (\<lambda>(key, v) p.
           k_pairs r (keys @ [key]) (values @ [v]) (advanceIfStalled start ''map literal'' p)))
      else Return (keys, values) p)"

definition parseMapLiteral :: "calls \<Rightarrow> node act" where
  "parseMapLiteral r p =
     (let p = nextToken p in
      andThen
        (if cur p \<noteq> TokenRBrace then andThen (parse_pair r p) (\<lambda>(key, v) p. k_pairs r [key] [v] p)
         else Return ([], []) p)
        (\<lambda>(keys, values) p. Return (MapLiteral keys values 0) (nextToken p)))"

section \<open>Primary expressions\<close>

definition parseGlobalIDExpr :: "Parser \<Rightarrow> node \<times> Parser" where
  "parseGlobalIDExpr p =
     (let p = nextToken (nextToken p);
          (dim, p) =
            (if cur p = TokenInt then
               (foldl (\<lambda>d ch. if isDigit ch then d * 10 + of_nat (digit_val ch) else d) (0 :: 64 word) (lit p), nextToken p)
             else (0, p));
          p = skip_if TokenRParen p
      in (GlobalIdExpr (sint dim) 0, p))"

definition parseMeasure :: "calls \<Rightarrow> node act" where
  "parseMeasure r p =
     (let p = nextToken p in
      if cur p = TokenLParen then
        andThen (parseExpr r (nextToken p)) (\<lambda>qubit p.
          Return (MeasureExpr qubit 0) (skip_if TokenRParen p))
      else andThen (parseExpr r p) (\<lambda>qubit p. Return (MeasureExpr qubit 0) p))"

definition parseAlloc :: "calls \<Rightarrow> node act" where
  "parseAlloc r p =
     (let p = nextToken (nextToken p); typeName = lit p in
      andThen (parseExpr r (nextToken (nextToken p))) (\<lambda>count p.
        Return (AllocExpr typeName count 0) (nextToken p)))"

definition parseFree :: "calls \<Rightarrow> node act" where
  "parseFree r p = andThen (keyword_paren r p) (\<lambda>e p. Return (FreeExpr e 0) p)"

definition normalizeOrdering :: "string \<Rightarrow> (string \<times> bool)" where
  "normalizeOrdering s =
     (if s \<in> {''relaxed'', ''acquire'', ''release'', ''acq_rel'', ''seq_cst''} then (s, True) else ([], False))"

text \<open>The memory order of an atomic builtin: the last argument when it is a string that names one.\<close>

definition atomic_order :: "node list \<Rightarrow> string \<times> node list" where
  "atomic_order args =
     (if length args \<ge> 2 then
        (case last args of
           StringLiteral s _ \<Rightarrow>
             (case normalizeOrdering s of
                (order, ok) \<Rightarrow> if ok then (order, butlast args) else (''seq_cst'', args))
         | _ \<Rightarrow> (''seq_cst'', args))
      else (''seq_cst'', args))"

definition at_hint :: string where "at_hint = '' in expression position (expected @raw, @simd_*, or @atomic_*)''"

definition parse_at_builtin :: "calls \<Rightarrow> node act" where
  "parse_at_builtin r p =
     (let op = lit p; p = nextToken p in
      if HasPrefix op ''simd_'' then
        andThen (elem_list r TokenRParen (Some ''simd builtin arguments'') (nextToken p)) (\<lambda>args p.
          Return (SIMDBuiltinExpr (TrimPrefix op ''simd_'') args 0) (nextToken p))
      else if HasPrefix op ''atomic_'' then
        andThen (elem_list r TokenRParen None (nextToken p)) (\<lambda>args p.
          let (order, args) = atomic_order args
          in Return (AtomicOp (TrimPrefix op ''atomic_'') args order 0) (nextToken p))
      else Return NoNode (addError (''unexpected token '' @ quoted (CHR ''@'' # op) @ at_hint) p))"

definition parse_at :: "calls \<Rightarrow> node act" where
  "parse_at r p =
     (let p = nextToken p in
      if cur p = TokenRaw then
        andThen (parseExpr r (nextToken (nextToken p))) (\<lambda>addr p.
        andThen (if cur p = TokenComma then parseExpr r (nextToken p) else Return NoNode p) (\<lambda>v p.
          Return (RawAccessExpr addr v 0) (nextToken p)))
      else if cur p = TokenIdent then parse_at_builtin r p
      else Return NoNode (addError (''unexpected token '' @ quoted ''@'' @ at_hint) p))"

definition parse_borrow :: "calls \<Rightarrow> node act" where
  "parse_borrow r p =
     (let p = nextToken p; mutable = (cur p = TokenMut); p = (if mutable then nextToken p else p) in
      andThen
        (if cur p = TokenIdent then Return (Identifier (lit p) 0 0 0) (nextToken p) else k_primary r p)
        (\<lambda>operand p.
          Return (BorrowExpr operand mutable 0)
            (require operand (''expected expression after '' @ quoted ''&'' @ '' (borrow)'') p)))"

definition parse_group :: "calls \<Rightarrow> node act" where
  "parse_group r p =
     (let saved = ps_ifCond p in
      andThen (parseExpr r (nextToken (p\<lparr>ps_ifCond := False\<rparr>))) (\<lambda>e p.
        Return e ((nextToken p)\<lparr>ps_ifCond := saved\<rparr>)))"

definition parseKeywordCall :: "calls \<Rightarrow> string \<Rightarrow> node act" where
  "parseKeywordCall r name p =
     (if cur p \<noteq> TokenLParen then Return NoNode p
      else
        andThen (call_args r (name @ '' arguments'') (nextToken p)) (\<lambda>args p.
          Return (CallExpr name [] args False [] 0 0 0) p))"

definition parseSpawn :: "calls \<Rightarrow> node act" where
  "parseSpawn r p =
     (let p = nextToken (nextToken p);
          fnName = (if cur p = TokenIdent then lit p else []);
          p = (if cur p = TokenIdent then nextToken p
               else nextToken (addError (''expected function name in spawn(...), got '' @ quoted (lit p)) p))
      in if cur p = TokenComma then
           andThen (call_args r ''spawn arguments'' (nextToken p)) (\<lambda>args p. Return (SpawnExpr fnName args 0) p)
         else Return (SpawnExpr fnName [] 0) (nextToken p))"

definition parseReceiveChannel :: "calls \<Rightarrow> node act" where
  "parseReceiveChannel r p = keyword_paren r p"

definition wrap_paren :: "calls \<Rightarrow> wrapper \<Rightarrow> node act" where
  "wrap_paren r w p = andThen (keyword_paren r p) (\<lambda>e p. Return (Wrap w e 0) p)"

definition parse_literal :: "(string \<Rightarrow> node) \<Rightarrow> node act" where
  "parse_literal mk p = Return (alloc (mk (lit p)) p) (nextToken p)"


section \<open>Lambdas and match expressions\<close>

text \<open>The optional type of a parameter.\<close>

definition param_type :: "Parser \<Rightarrow> string \<times> Parser" where
  "param_type p =
     (if cur p = TokenIdent then (lit p, nextToken p)
      else if cur p = TokenFn then (''fn'', nextToken p) else ([], p))"

lemma param_type_le: "todo (snd (param_type p)) \<le> todo p"
  by (simp add: param_type_def nextToken_le)

function lambda_params :: "string list \<Rightarrow> string list \<Rightarrow> Parser \<Rightarrow> string list \<times> string list \<times> Parser" where
  "lambda_params params types p =
     (if cur p = TokenRParen \<or> cur p = TokenEOF then (params, types, p)
      else if cur p = TokenIdent then
        (let q = param_type (nextToken p)
         in lambda_params (params @ [lit p]) (types @ [fst q]) (skip_if TokenComma (snd q)))
      else lambda_params params types (skip_if TokenComma (nextToken p)))"
  by auto
termination
proof (relation "measure (\<lambda>(a, b, p). todo p)")
  fix params types :: "string list" and p
  assume ne: "\<not> (cur p = TokenRParen \<or> cur p = TokenEOF)"
  have lt: "todo (nextToken p) < todo p" using ne by (simp add: nextToken_lt)
  show "((params, types, skip_if TokenComma (nextToken p)), params, types, p) \<in> measure (\<lambda>(a, b, p). todo p)"
    using lt skip_if_le [of TokenComma "nextToken p"] by simp
  fix q assume q: "q = param_type (nextToken p)"
  show "((params @ [lit p], types @ [fst q], skip_if TokenComma (snd q)), params, types, p) \<in> measure (\<lambda>(a, b, p). todo p)"
    using lt skip_if_le [of TokenComma "snd q"] param_type_le [of "nextToken p"] by (simp add: q)
qed simp

declare lambda_params.simps [simp del]

text \<open>\<open>p.nextToken(); b := p.parseBlock(); p.nextToken()\<close>: a block and its braces, neither of them checked.\<close>

definition parseBlock :: "calls \<Rightarrow> node list act" where
  "parseBlock r p = k_stmts r [] p"

definition braced_block :: "calls \<Rightarrow> node list act" where
  "braced_block r p = andThen (parseBlock r (nextToken p)) (\<lambda>b p. Return b (nextToken p))"

definition parseLambda :: "calls \<Rightarrow> node act" where
  "parseLambda r p =
     (let (params, types, p) = lambda_params [] [] (nextToken (nextToken p));
          p = nextToken p;
          p = (if cur p = TokenIdent \<or> cur p = TokenFn then nextToken p else p)
      in andThen (braced_block r p) (\<lambda>body p.
           Return (LambdaExpr params types body (ComputeCaptures params body) (ps_line p)) p))"

text \<open>The value of a match.\<close>

definition match_value :: "calls \<Rightarrow> node act" where
  "match_value r p =
     (if cur p = TokenIdent then Return (alloc (Identifier (lit p) 0 0 0) p) (nextToken p)
      else if cur p = TokenInt then parse_literal (\<lambda>v. IntLiteral v 0) p
      else if cur p = TokenString then parse_literal (\<lambda>v. StringLiteral v 0) p
      else if cur p = TokenFloat64 then parse_literal (\<lambda>v. Float64Literal v 0) p
      else if cur p = TokenLParen then andThen (parseExpr r (nextToken p)) (\<lambda>e p. Return e (nextToken p))
      else k_unary r p)"

text \<open>A pattern: its kind, the value of a literal and the bound name.  After a bare name the code
  takes one more token than the name.\<close>

type_synonym pattern = "string \<times> node \<times> string"

definition paren_binding :: "Parser \<Rightarrow> string \<times> Parser" where
  "paren_binding p =
     (if cur p = TokenLParen then (let p = nextToken p in (lit p, nextToken (nextToken p))) else ([], p))"

definition name_pattern :: "Parser \<Rightarrow> pattern \<times> Parser" where
  "name_pattern p =
     (let name = lit p; p = nextToken p in
      if cur p = TokenDot then
        (let p = nextToken p in ((''enum_variant'', NoNode, name @ ''.'' @ lit p), nextToken p))
      else if name = ''_'' then ((''wildcard'', NoNode, []), p)
      else ((''binding'', NoNode, name), nextToken p))"

definition match_pattern :: "calls \<Rightarrow> pattern act" where
  "match_pattern r p =
     (if cur p = TokenSome then (let (b, p) = paren_binding (nextToken p) in Return (''Some'', NoNode, b) p)
      else if cur p = TokenNone then Return (''None'', NoNode, []) (nextToken p)
      else if cur p = TokenOk then (let (b, p) = paren_binding (nextToken p) in Return (''Ok'', NoNode, b) p)
      else if cur p = TokenErr then (let (b, p) = paren_binding (nextToken p) in Return (''Err'', NoNode, b) p)
      else if cur p \<in> {TokenInt, TokenString, TokenFloat64, TokenBigInt, TokenBigFloat} then
        andThen (k_primary r p) (\<lambda>v p. Return (''literal'', v, []) p)
      else if cur p = TokenTrue then Return (''literal'', BoolLiteral True 0, []) (nextToken p)
      else if cur p = TokenFalse then Return (''literal'', BoolLiteral False 0, []) (nextToken p)
      else if cur p = TokenIdent then (let (pat, p) = name_pattern p in Return pat p)
      else Return ([], NoNode, []) p)"

definition arm_body :: "calls \<Rightarrow> node act" where
  "arm_body r p =
     (if cur p = TokenLBrace then andThen (braced_block r p) (\<lambda>b p. Return (BlockStmt b) p) else k_statement r p)"

definition arms_loop :: "calls \<Rightarrow> node list \<Rightarrow> node list act" where
  "arms_loop r arms p =
     (if cur p = TokenRBrace \<or> cur p = TokenEOF then Return arms p
      else
        andThen (match_pattern r p) (\<lambda>(kind, v, b) p.
          let p = (if cur p \<noteq> TokenFatArrow
                   then addError (''expected '' @ quoted ''=>'' @ '' in match arm, got '' @ quoted (lit p)) p else p)
          in andThen (arm_body r (nextToken p)) (\<lambda>body p.
               k_arms r (arms @ [MatchArm kind v b body]) (skip_if TokenComma p))))"

definition parseMatchExpr :: "calls \<Rightarrow> node act" where
  "parseMatchExpr r p =
     andThen (match_value r (nextToken p)) (\<lambda>v p.
     andThen (k_arms r [] (nextToken p)) (\<lambda>arms p. Return (MatchExpr v arms 0) (nextToken p)))"

definition bool_literal :: "bool \<Rightarrow> node act" where
  "bool_literal b p = (let p = nextToken p in Return (alloc (BoolLiteral b 0) p) p)"

definition parsePrimaryExpr :: "calls \<Rightarrow> node act" where
  "parsePrimaryExpr r p0 =
     (let p = SetLine p0; t = cur p in
      if t = TokenString then parse_literal (\<lambda>v. StringLiteral v 0) p
      else if t = TokenInt then parse_literal (\<lambda>v. IntLiteral v 0) p
      else if t = TokenFloat64 then parse_literal (\<lambda>v. Float64Literal v 0) p
      else if t = TokenBigInt then parse_literal (\<lambda>v. BigIntLiteral v 0) p
      else if t = TokenBigFloat then parse_literal (\<lambda>v. BigFloatLiteral v 0) p
      else if t = TokenIdent then parseIdentExpr r p
      else if t = TokenLParen then parse_group r p
      else if t = TokenLBracket then parseArrayLiteral r p
      else if t = TokenLBrace then parseMapLiteral r p
      else if t = TokenGlobalID then (let (e, p) = parseGlobalIDExpr p in Return e p)
      else if t = TokenTrue then bool_literal True p
      else if t = TokenFalse then bool_literal False p
      else if t = TokenMeasure then parseMeasure r p
      else if t = TokenQuote then wrap_paren r WrapQuoteExpr p
      else if t = TokenUnquote then wrap_paren r WrapUnquoteExpr p
      else if t = TokenAt then parse_at r p
      else if t = TokenAlloc then parseAlloc r p
      else if t = TokenFree then parseFree r p
      else if t = TokenSome then wrap_paren r WrapOptionSomeExpr p
      else if t = TokenNone then Return (OptionNoneExpr 0) (nextToken p)
      else if t = TokenOk then wrap_paren r WrapResultOkExpr p
      else if t = TokenErr then wrap_paren r WrapResultErrExpr p
      else if t = TokenAmp then parse_borrow r p
      else if t = TokenMove then wrap_paren r WrapMoveExpr p
      else if t = TokenMatch then parseMatchExpr r p
      else if t = TokenFn then parseLambda r p
      else if t = TokenSpawn then parseSpawn r p
      else if t = TokenReceive then andThen (parseReceiveChannel r p) (\<lambda>ch p. Return (ChRecvExpr ch 0) p)
      else if t = TokenChannel \<or> t = TokenActor then parseKeywordCall r (lit p) (nextToken p)
      else Return NoNode p)"

end
