(* ===== verification/Parser_Stmt.thy ===== *)
theory Parser_Stmt
  imports Parser_Expr
begin

text \<open>
  Statements (pkg/parser/parser.go and the parsing half of macro.go).  As in \<open>Parser_Expr\<close>, brackets,
  braces and separators are consumed without a look at them wherever the code does so.
\<close>

section \<open>Declarations of variables\<close>

definition simd_elems :: "string list" where
  "simd_elems = [''f32'', ''float32'', ''f64'', ''float64'', ''i32'', ''int32'', ''i64'', ''int64'']"

definition parseSIMDVectorType :: "Parser \<Rightarrow> string \<times> Parser" where
  "parseSIMDVectorType p =
     (let p = nextToken p in
      if cur p \<noteq> TokenInt then ([], p)
      else
        (let (lanes, ok) = Atoi (lit p) in
         if \<not> ok \<or> lanes \<le> 0 \<or> lanes > 64 then ([], p)
         else
           (let p = nextToken p in
            if cur p \<noteq> TokenRBracket then ([], p)
            else
              (let p = nextToken p in
               if cur p \<noteq> TokenIdent then ([], p)
               else if lit p \<notin> set simd_elems then ([], p)
               else (''['' @ print_int lanes @ '']'' @ lit p, nextToken p)))))"

definition tryParseAlignAttr :: "Parser \<Rightarrow> int \<times> Parser" where
  "tryParseAlignAttr p =
     (if cur p \<noteq> TokenAt \<or> peek p \<noteq> TokenIdent \<or> Literal (ps_peek p) (ps_src p) \<noteq> ''aligned'' then (0, p)
      else
        (let p = nextToken (nextToken p) in
         if cur p \<noteq> TokenLParen then (0, p)
         else
           (let p = nextToken p in
            if cur p \<noteq> TokenInt then (0, p)
            else
              (let (align, ok) = Atoi (lit p) in
               if \<not> ok \<or> align \<le> 0 then (0, p) else (align, skip_if TokenRParen (nextToken p))))))"

text \<open>The type after a colon; the type name and whether it is a vector type.\<close>

definition colon_type :: "Parser \<Rightarrow> string \<times> bool \<times> Parser" where
  "colon_type p =
     (if cur p = TokenAmp then (let p = nextToken p in (CHR ''&'' # lit p, False, nextToken p))
      else if cur p = TokenStar then (let p = nextToken p in (CHR ''*'' # lit p, False, nextToken p))
      else if cur p = TokenLBracket then (let (t, p) = parseSIMDVectorType p in (t, t \<noteq> [], p))
      else if cur p = TokenBigInt then (''bigint'', False, nextToken p)
      else if cur p = TokenBigFloat then (''bigfloat'', False, nextToken p)
      else (lit p, False, nextToken p))"

definition var_type :: "Parser \<Rightarrow> string \<times> bool \<times> Parser" where
  "var_type p =
     (if cur p = TokenAmp then
        (let p = nextToken p; mutable = (cur p = TokenMut); p = skip_if TokenMut p in
         if cur p = TokenIdent then ((if mutable then ''&mut '' else ''&'') @ lit p, False, nextToken p) else ([], False, p))
      else if cur p = TokenStar then
        (let p = nextToken p in
         if cur p = TokenIdent then (CHR ''*'' # lit p, False, nextToken p) else (''*'', False, p))
      else if cur p = TokenLBracket then (let (t, p) = parseSIMDVectorType p in (t, t \<noteq> [], p))
      else if cur p = TokenIdent \<or> cur p = TokenBool \<or> cur p = TokenFloat64 then (lit p, False, nextToken p)
      else if cur p = TokenFn then (''fn'', False, nextToken p)
      else if cur p = TokenBigInt then (''bigint'', False, nextToken p)
      else if cur p = TokenBigFloat then (''bigfloat'', False, nextToken p)
      else if cur p = TokenColon then colon_type (nextToken p)
      else ([], False, p))"

text \<open>\<open>matrix [rows, cols] type\<close>\<close>

definition parseMatrixDeclInternal :: "calls \<Rightarrow> node act" where
  "parseMatrixDeclInternal r p =
     andThen (parseExpr r (nextToken (nextToken p))) (\<lambda>rows p.
     andThen (parseExpr r (nextToken p)) (\<lambda>cols p.
       let p = nextToken p in Return (MatrixDecl rows cols (lit p) 0) (nextToken p)))"

text \<open>A lambda as the value of a declaration becomes a named function; \<open>const\<close> and the type are dropped.\<close>

definition named_lambda :: "string \<Rightarrow> node \<Rightarrow> Parser \<Rightarrow> node" where
  "named_lambda name lam p =
     (case lam of
        LambdaExpr params types body captures _ \<Rightarrow>
          FuncDecl name params types body [] (filter (\<lambda>c. c \<noteq> name) captures) False [] (ps_line p) 0 0
      | _ \<Rightarrow> NoNode)"

definition parseVarDecl :: "calls \<Rightarrow> node act" where
  "parseVarDecl r p =
     (let line = cur_line p; isConst = (cur p = TokenConst); kwLit = lit p; p = nextToken p;
          p = (if cur p \<noteq> TokenIdent
               then addError (''expected variable name after '' @ quoted kwLit @ '', found '' @ quoted (lit p)) p else p);
          name = lit p; nameCol = cur_col p; nameEndCol = nameCol + int (length name);
          (typeName, isSIMD, p) = var_type (nextToken p);
          (align, p) = (if cur p = TokenAt then tryParseAlignAttr p else (0, p))
      in if cur p \<noteq> TokenAssign then
           Return (VarDeclStmt name NoNode [] isConst False False align False line nameCol nameEndCol)
             (addError (''expected '' @ quoted ''='' @ '' after '' @ quoted (kwLit @ '' '' @ name)) p)
         else
           (let p = nextToken p in
            if cur p = TokenMatrix then
              andThen (parseMatrixDeclInternal r p) (\<lambda>m p.
                Return (VarDeclStmt name m [] False True False 0 False line nameCol nameEndCol) p)
            else if cur p = TokenFn then
              andThen (parseLambda r p) (\<lambda>lam p.
                Return (VarDeclStmt name (named_lambda name lam p) [] False False False 0 False line nameCol nameEndCol) p)
            else
              andThen (parseExpr r p) (\<lambda>v p.
                Return (VarDeclStmt name v typeName isConst False (isSIMD \<and> typeName \<noteq> []) align False line nameCol nameEndCol)
                  (require v (''expected expression after '' @ quoted ''='' @ '' in '' @ quoted (kwLit @ '' '' @ name)) p))))"

definition parseMatrixDecl :: "calls \<Rightarrow> node act" where
  "parseMatrixDecl r p =
     andThen (parseMatrixDeclInternal r p) (\<lambda>m p.
       Return (VarDeclStmt (lit p) m [] False True False 0 False 0 0 0) (nextToken p))"

definition parseQRegDecl :: "calls \<Rightarrow> node act" where
  "parseQRegDecl r p =
     (let p = nextToken p; name = lit p; p = nextToken p in
      if cur p = TokenLBracket then
        andThen (parseExpr r (nextToken p)) (\<lambda>qubits p. Return (QRegDeclStmt name qubits 0) (skip_if TokenRBracket p))
      else andThen (parseExpr r (nextToken p)) (\<lambda>qubits p. Return (QRegDeclStmt name qubits 0) p))"

section \<open>Simple statements\<close>

definition parsePrint :: "calls \<Rightarrow> node act" where
  "parsePrint r p =
     (let line = cur_line p; p = nextToken p; paren = (cur p = TokenLParen) in
      andThen (parseExpr r (skip_if TokenLParen p)) (\<lambda>v p.
        let p = (if paren \<and> cur p \<noteq> TokenRParen then addError (''expected '' @ quoted '')'' @ '' to close print(...)'') p
                 else skip_if TokenRParen p)
        in Return (PrintStmt v line) (require v ''print requires an expression'' p)))"

definition parseReturn :: "calls \<Rightarrow> node act" where
  "parseReturn r p = (let line = cur_line p in andThen (parseExpr r (nextToken p)) (\<lambda>v p. Return (ReturnStmt v line) p))"

definition parseReceive :: "calls \<Rightarrow> node act" where
  "parseReceive r p =
     andThen (parseReceiveChannel r p) (\<lambda>channel p.
       if cur p = TokenIdent then Return (ReceiveStmt channel (lit p) 0) (nextToken p)
       else Return (ReceiveStmt channel [] 0) p)"

definition parseBarrierStmt :: "Parser \<Rightarrow> node \<times> Parser" where
  "parseBarrierStmt p =
     (let p = nextToken p in
      (BarrierStmt 0, if cur p = TokenLParen then skip_if TokenRParen (nextToken p) else p))"

definition parseAddrOf :: "calls \<Rightarrow> node act" where
  "parseAddrOf r p = wrap_paren r WrapAddressOf p"

definition quantumGateNames :: "string list" where
  "quantumGateNames =
     [''H'', ''X'', ''Y'', ''Z'', ''S'', ''T'', ''SX'', ''RX'', ''RY'', ''RZ'', ''PHASE'', ''CNOT'', ''CZ'', ''SWAP'', ''CCX'']"

definition isQuantumGate :: "string \<Rightarrow> bool" where
  "isQuantumGate name \<longleftrightarrow> name \<in> set quantumGateNames"

definition parseBareGateApply :: "calls \<Rightarrow> string \<Rightarrow> node act" where
  "parseBareGateApply r gateName p =
     andThen (parseExpr r p) (\<lambda>target p.
       if cur p = TokenComma then
         andThen (parseExpr r (nextToken p)) (\<lambda>second p.
           if gateName \<in> {''CNOT'', ''CZ'', ''SWAP'', ''CCX''}
           then Return (GateApplyStmt gateName second target [] 0) p
           else Return (GateApplyStmt gateName target NoNode [second] 0) p)
       else Return (GateApplyStmt gateName target NoNode [] 0) p)"

text \<open>\<open>gate NAME(...)\<close>; a token is skipped after each operand before the comma is looked for.\<close>

definition parseGateApply :: "calls \<Rightarrow> node act" where
  "parseGateApply r p =
     (let p = nextToken p; gateName = lit p in
      andThen (parseExpr r (nextToken (nextToken p))) (\<lambda>target p.
        let p = nextToken p in
        andThen
          (if cur p = TokenComma then
             andThen (parseExpr r (nextToken p)) (\<lambda>second p. Return (second, target) (nextToken p))
           else Return (target, NoNode) p)
          (\<lambda>(target, control) p.
            andThen
              (if cur p = TokenComma then
                 andThen (parseExpr r (nextToken p)) (\<lambda>param p. Return [param] (nextToken p))
               else Return [] p)
              (\<lambda>params p. Return (GateApplyStmt gateName target control params 0) (nextToken p)))))"

section \<open>Control flow\<close>

text \<open>A condition is parsed with the flag that keeps a brace from starting a struct literal.\<close>

definition parse_condition :: "calls \<Rightarrow> string \<Rightarrow> node act" where
  "parse_condition r keyword p =
     andThen (parseExpr r (p\<lparr>ps_ifCond := True\<rparr>)) (\<lambda>c p.
       Return c (require c (''expected condition after '' @ quoted keyword) (p\<lparr>ps_ifCond := False\<rparr>)))"

definition parseWhile :: "calls \<Rightarrow> node act" where
  "parseWhile r p =
     (let line = cur_line p in
      andThen (parse_condition r ''while'' (nextToken p)) (\<lambda>c p.
      andThen (braced_block r p) (\<lambda>body p. Return (WhileStmt c body line) p)))"

definition parseIf :: "calls \<Rightarrow> node act" where
  "parseIf r p =
     (let line = cur_line p in
      andThen (parse_condition r ''if'' (nextToken p)) (\<lambda>c p.
      andThen (braced_block r p) (\<lambda>consequence p.
      andThen
        (if cur p = TokenElse then
           (let p = nextToken p in
            if cur p = TokenIf then andThen (k_if r p) (\<lambda>e p. Return [e] p) else braced_block r p)
         else Return [] p)
        (\<lambda>alternative p. Return (IfStmt c consequence alternative line) p))))"

text \<open>The body of a for loop: the opening brace is optional, the token behind the block is consumed.\<close>

definition for_body :: "calls \<Rightarrow> node list act" where
  "for_body r p = andThen (parseBlock r (skip_if TokenLBrace p)) (\<lambda>body p. Return body (nextToken p))"

definition for_in :: "calls \<Rightarrow> node act" where
  "for_in r p =
     (let name = lit p; p = nextToken (nextToken p) in
      andThen
        (if cur p = TokenIdent then Return (alloc (Identifier (lit p) 0 0 0) p) (nextToken p)
         else if cur p = TokenInt then parse_literal (\<lambda>v. IntLiteral v 0) p
         else if cur p = TokenLParen then andThen (parseExpr r (nextToken p)) (\<lambda>e p. Return e (nextToken p))
         else parseExpr r p)
        (\<lambda>iter p. andThen (for_body r p) (\<lambda>body p. Return (alloc (ForInStmt name [] iter body 0) p) p)))"

definition for_in_key :: "calls \<Rightarrow> node act" where
  "for_in_key r p =
     (let keyName = lit p; p = nextToken (nextToken p); valName = lit p; p = nextToken (nextToken p) in
      andThen
        (if cur p = TokenIdent then Return (alloc (Identifier (lit p) 0 0 0) p) (nextToken p) else parseExpr r p)
        (\<lambda>iter p. andThen (for_body r p) (\<lambda>body p. Return (alloc (ForInStmt valName keyName iter body 0) p) p)))"

definition for_classic :: "calls \<Rightarrow> int \<Rightarrow> node act" where
  "for_classic r line p =
     (let p = nextToken p in
      andThen (if cur p \<noteq> TokenSemicolon then k_statement r p else Return NoNode p) (\<lambda>init p.
      andThen (parseExpr r (skip_if TokenSemicolon p)) (\<lambda>condition p.
        let p = skip_if TokenSemicolon p in
        andThen (if cur p \<noteq> TokenRParen then parseExpr r p else Return NoNode p) (\<lambda>post p.
        andThen (for_body r (skip_if TokenRParen p)) (\<lambda>body p.
          Return (ForStmt init condition post body line) p)))))"

definition parseFor :: "calls \<Rightarrow> node act" where
  "parseFor r p =
     (let line = cur_line p; p = nextToken p in
      if cur p = TokenIdent \<and> peek p = TokenIn then for_in r p
      else if cur p = TokenIdent \<and> peek p = TokenComma then for_in_key r p
      else for_classic r line p)"


section \<open>Statements that begin with an identifier\<close>

text \<open>\<open>node := &ExprStmt\{Expression: e\}; setNodeLine(node, line)\<close>\<close>

definition exprStmtAt :: "node \<Rightarrow> int \<Rightarrow> node" where
  "exprStmtAt e line = ExprStmt e line"

text \<open>The brackets after the identifier; after a matrix index the loop is left.\<close>

definition targets_loop :: "calls \<Rightarrow> int \<Rightarrow> node \<Rightarrow> node act" where
  "targets_loop r line target p =
     (if cur p = TokenLBracket then
        andThen (bracket_start r (nextToken p)) (\<lambda>first p.
          if cur p = TokenComma then
            andThen (parseExpr r (nextToken p)) (\<lambda>col p. Return (MatrixIndexExpr target first col 0) (nextToken p))
          else if cur p = TokenColon then
            andThen (slice_end r (nextToken p)) (\<lambda>stop p. k_targets r line (SliceExpr target first stop 0) (nextToken p))
          else k_targets r line (IndexExpr target first line) (nextToken p))
      else Return target p)"

text \<open>\<open>= value\<close>, when the current token is the sign.\<close>

definition assignment :: "calls \<Rightarrow> bool \<Rightarrow> node act" where
  "assignment r checked p =
     andThen (parseExpr r (nextToken p)) (\<lambda>v p.
       Return v (if checked then require v (''expected expression after '' @ quoted ''='' @ '' operator'') p else p))"

definition index_statement :: "calls \<Rightarrow> string \<Rightarrow> int \<Rightarrow> node act" where
  "index_statement r ident line p =
     andThen (k_targets r line (Identifier ident 0 0 0) p) (\<lambda>target p.
     andThen (k_calls r target p) (\<lambda>target p.
       if cur p = TokenAssign then
         andThen (assignment r True p) (\<lambda>v p. Return (exprStmtAt (BinaryExpr target ''='' v line) line) p)
       else Return (exprStmtAt target line) p))"

definition dot_statement :: "calls \<Rightarrow> string \<Rightarrow> int \<Rightarrow> int \<Rightarrow> node \<Rightarrow> node act" where
  "dot_statement r ident identCol line left p =
     (let p = nextToken p; rightIdent = lit p; p = nextToken p in
      if cur p = TokenLParen then
        andThen (call_args r ''function call arguments'' (nextToken p)) (\<lambda>args p.
          Return (exprStmtAt (qualified_call ident rightIdent args line identCol) line) p)
      else
        (let (e, p) = dot_chain (DotExpr left rightIdent 0) p in
         if cur p = TokenAssign then
           andThen (assignment r False p) (\<lambda>v p. Return (exprStmtAt (BinaryExpr e ''='' v 0) line) p)
         else Return (exprStmtAt e line) p))"

text \<open>The operators after which a statement goes on as an expression; the bitwise ones are not among them.\<close>

definition stmt_ops :: "TokenType list" where
  "stmt_ops =
     [TokenPlus, TokenMinus, TokenStar, TokenSlash, TokenPercent, TokenEqual, TokenNotEqual, TokenLessThan,
      TokenGreaterThan, TokenLessEqual, TokenGreaterEqual, TokenAnd, TokenOr]"

definition parseIdentStatement :: "calls \<Rightarrow> node act" where
  "parseIdentStatement r p =
     (let line = cur_line p; ident = lit p; identCol = cur_col p; ecol = identCol + int (length ident);
          p = nextToken p; left = Identifier ident 0 identCol ecol
      in if isQuantumGate ident \<and> (cur p = TokenIdent \<or> cur p = TokenInt) then parseBareGateApply r ident p
         else if cur p = TokenLBracket then index_statement r ident line p
         else if cur p = TokenAssign then
           andThen (assignment r True p) (\<lambda>v p.
             Return (exprStmtAt (BinaryExpr (Identifier ident line identCol ecol) ''='' v 0) line) p)
         else if cur p = TokenLParen then
           andThen (call_args r ''function call arguments'' (nextToken p)) (\<lambda>args p.
             Return (exprStmtAt (CallExpr ident [] args False [] line identCol ecol) line) p)
         else if cur p = TokenDot then dot_statement r ident identCol line left p
         else if cur p \<in> set stmt_ops then
           andThen (k_binary r left 0 p) (\<lambda>e p. Return (exprStmtAt e line) p)
         else if cur p = TokenSend then
           andThen (parseExpr r (nextToken p)) (\<lambda>m p. Return (exprStmtAt (SendExpr left m 0) line) p)
         else Return (exprStmtAt left line) p)"

section \<open>C imports\<close>

text \<open>The number of characters before the brace that closes the block.\<close>

fun brace_len :: "nat \<Rightarrow> string \<Rightarrow> nat" where
  "brace_len d [] = 0"
| "brace_len d (c # cs) =
     (if c = CHR ''{'' then Suc (brace_len (Suc d) cs)
      else if c = CHR ''}'' then (if d \<le> 1 then 0 else Suc (brace_len (d - 1) cs))
      else Suc (brace_len d cs))"

function skip_to_brace :: "Parser \<Rightarrow> Parser" where
  "skip_to_brace p = (if cur p = TokenRBrace \<or> cur p = TokenEOF then p else skip_to_brace (nextToken p))"
  by auto
termination by (relation "measure todo") (auto intro: nextToken_lt)

declare skip_to_brace.simps [simp del]

text \<open>
  The content is cut out of the text: from the first opening brace behind the position of the lexer,
  which is already two tokens further than the current one.  A position behind the end of the text
  is a slice out of range.
\<close>

definition parseCImport :: "string option act" where
  "parseCImport p =
     (let p = nextToken p in
      if cur p \<noteq> TokenString \<or> lit p \<noteq> ''C'' then Return None p
      else
        (let p = nextToken p in
         if cur p \<noteq> TokenLBrace then Return None p
         else
           (let p = nextToken p; input = GetInput (ps_l p); pos = lx_Position (ps_l p) in
            if pos > length input then Panic
            else
              (case dropWhile (\<lambda>c. c \<noteq> CHR ''{'') (drop pos input) of
                 [] \<Rightarrow> Return None p
               | _ # cs \<Rightarrow>
                   Return (Some (TrimSpace (take (brace_len 1 cs) cs))) (nextToken (skip_to_brace p))))))"

section \<open>Macros\<close>

text \<open>The parameters of a macro: a token that is neither a name nor a comma is not consumed.\<close>

definition mparams_loop :: "calls \<Rightarrow> string list \<Rightarrow> string list act" where
  "mparams_loop r params p =
     (if cur p = TokenRParen \<or> cur p = TokenEOF then Return params p
      else if cur p = TokenIdent then k_mparams r (params @ [lit p]) (skip_if TokenComma (nextToken p))
      else k_mparams r params (skip_if TokenComma p))"

text \<open>\<open>for p.curToken.Type != '\}' && p.curToken.Type != EOF \{ body = append(body, p.parseStmt()) \}\<close> and the
  closing brace.\<close>

definition mbody :: "calls \<Rightarrow> node list act" where
  "mbody r p = andThen (k_mstmts r [] p) (\<lambda>body p. Return body (nextToken p))"

definition parseMacro :: "calls \<Rightarrow> node act" where
  "parseMacro r p =
     (let p = nextToken p; name = lit p; p = nextToken p in
      andThen
        (if cur p = TokenLParen then
           andThen (k_mparams r [] (nextToken p)) (\<lambda>params p. Return params (nextToken p))
         else Return [] p)
        (\<lambda>params p. andThen (mbody r (nextToken p)) (\<lambda>body p. Return (MacroDeclStmt name params body True 0) p)))"

definition parseComptimeStmt :: "calls \<Rightarrow> node act" where
  "parseComptimeStmt r p = andThen (mbody r (nextToken (nextToken p))) (\<lambda>body p. Return (ComptimeStmt body 0) p)"

definition parseIfStmt :: "calls \<Rightarrow> node act" where
  "parseIfStmt r p =
     andThen (keyword_paren r p) (\<lambda>c p.
     andThen (mbody r (nextToken p)) (\<lambda>consequence p.
     andThen (if cur p = TokenElse then mbody r (nextToken (nextToken p)) else Return [] p) (\<lambda>alternative p.
       Return (IfStmt c consequence alternative 0) p)))"

definition parseStmt :: "calls \<Rightarrow> node act" where
  "parseStmt r p =
     (if cur p = TokenMacro then parseMacro r p
      else if cur p = TokenComptime then parseComptimeStmt r p
      else if cur p = TokenLet \<or> cur p = TokenVar then parseVarDecl r p
      else if cur p = TokenPrint then parsePrint r p
      else if cur p = TokenReturn then andThen (parseExpr r (nextToken p)) (\<lambda>v p. Return (ReturnStmt v 0) p)
      else if cur p = TokenIf then parseIfStmt r p
      else andThen (parseExpr r p) (\<lambda>e p. Return (ExprStmt e 0) p))"

definition mstmts_loop :: "calls \<Rightarrow> node list \<Rightarrow> node list act" where
  "mstmts_loop r body p =
     (if cur p = TokenRBrace \<or> cur p = TokenEOF then Return body p
      else andThen (parseStmt r p) (\<lambda>s p. k_mstmts r (body @ [s]) p))"

section \<open>Statements\<close>

text \<open>An expression as a statement.\<close>

definition as_stmt :: "int \<Rightarrow> node outcome \<Rightarrow> node outcome" where
  "as_stmt line m = andThen m (\<lambda>e p. Return (exprStmtAt e line) p)"

text \<open>The same, for an expression that may be missing.\<close>

definition as_stmt_opt :: "int \<Rightarrow> node outcome \<Rightarrow> node outcome" where
  "as_stmt_opt line m = andThen m (\<lambda>e p. Return (if is_nil e then NoNode else ExprStmt e line) p)"

definition literal_starts :: "TokenType list" where
  "literal_starts =
     [TokenInt, TokenFloat64, TokenString, TokenBigInt, TokenBigFloat, TokenSome, TokenNone, TokenOk, TokenErr,
      TokenLParen, TokenLBracket, TokenTrue, TokenFalse]"

definition parseStatement :: "calls \<Rightarrow> node act" where
  "parseStatement r p0 =
     (let p = SetLine p0; line = cur_line p; t = cur p in
      if t = TokenLet \<or> t = TokenVar \<or> t = TokenConst then parseVarDecl r p
      else if t = TokenPrint then parsePrint r p
      else if t = TokenReturn then parseReturn r p
      else if t = TokenIf then parseIf r p
      else if t = TokenWhile then parseWhile r p
      else if t = TokenFor then parseFor r p
      else if t = TokenMatrix then parseMatrixDecl r p
      else if t = TokenAlloc then as_stmt line (parseAlloc r p)
      else if t = TokenFree then as_stmt line (parseFree r p)
      else if t = TokenAddr then as_stmt line (parseAddrOf r p)
      else if t = TokenQReg then parseQRegDecl r p
      else if t = TokenGate then parseGateApply r p
      else if t = TokenMeasure then as_stmt line (parseMeasure r p)
      else if t = TokenMacro then parseMacro r p
      else if t = TokenComptime then parseComptimeStmt r p
      else if t = TokenSpawn then as_stmt line (parseSpawn r p)
      else if t = TokenReceive then parseReceive r p
      else if t = TokenBarrier then (let (s, p) = parseBarrierStmt p in Return s p)
      else if t = TokenBreak then (let p = nextToken p in Return (alloc (BreakStmt 0) p) p)
      else if t = TokenContinue then (let p = nextToken p in Return (alloc (ContinueStmt 0) p) p)
      else if t = TokenFn then as_stmt line (parseLambda r p)
      else if t = TokenIdent then parseIdentStatement r p
      else if t = TokenImport then
        andThen (parseCImport p) (\<lambda>c p.
          Return (case c of Some content \<Rightarrow> ExprStmt (StringLiteral content 0) line | None \<Rightarrow> NoNode) p)
      else if t = TokenAt \<or> t = TokenAmp \<or> t = TokenMove then as_stmt_opt line (parsePrimaryExpr r p)
      else if t = TokenMatch then as_stmt line (parseMatchExpr r p)
      else if t = TokenSemicolon then Return NoNode (nextToken p)
      else if t = TokenLBrace then andThen (braced_block r p) (\<lambda>b p. Return (BlockStmt b) p)
      else if t \<in> set literal_starts then as_stmt_opt line (parseExpr r p)
      else Return NoNode (nextToken (addError (''unexpected token '' @ quoted (lit p) @ '' ('' @ t @ '')'') p)))"

definition stmts_loop :: "calls \<Rightarrow> node list \<Rightarrow> node list act" where
  "stmts_loop r stmts p =
     (if cur p = TokenRBrace \<or> cur p = TokenEOF then Return stmts p
      else
        (let start = tk_Start (ps_cur p) in
         andThen (k_statement r p) (\<lambda>s p.
           let p = skip_if TokenSemicolon p;
               p = (if tk_Start (ps_cur p) = start then nextToken p else p)
           in k_stmts r (if is_nil s then stmts else stmts @ [s]) p)))"

section \<open>Operations without a caller\<close>

definition parseDeref :: "calls \<Rightarrow> node act" where
  "parseDeref r p = andThen (parsePrimaryExpr r (nextToken p)) (\<lambda>operand p. Return (Dereference operand 0) p)"

definition parseSend :: "calls \<Rightarrow> node act" where
  "parseSend r p =
     andThen (parseExpr r p) (\<lambda>channel p.
     andThen (parseExpr r (nextToken (nextToken p))) (\<lambda>message p. Return (SendExpr channel message 0) p))"

definition parseMatrixIndex :: "calls \<Rightarrow> node act" where
  "parseMatrixIndex r p =
     andThen (parsePrimaryExpr r p) (\<lambda>matrix p.
     andThen (parseExpr r (nextToken p)) (\<lambda>row p.
     andThen (parseExpr r (nextToken p)) (\<lambda>col p. Return (MatrixIndexExpr matrix row col 0) (nextToken p))))"

text \<open>The derivations and tags of \<open>parseExprExtended\<close>; after another name the tokens are gone.\<close>

definition extended_at :: "node \<Rightarrow> Parser \<Rightarrow> node option \<times> Parser" where
  "extended_at left p =
     (if cur p = TokenAt then
        (let p = nextToken p; ident = lit p; p = nextToken p in
         if ident = ''derive'' then
           (let p = nextToken p; trait = lit p in (Some (DeriveExpr trait left 0), nextToken (nextToken p)))
         else if ident = ''tag'' then
           (let p = nextToken p; tagName = lit p; p = nextToken (nextToken p); tagValue = lit p
            in (Some (TagExpr left tagName tagValue 0), nextToken (nextToken p)))
         else (None, p))
      else (None, p))"

definition reflect_typeof :: "calls \<Rightarrow> node \<Rightarrow> node act" where
  "reflect_typeof r left p =
     (if (case left of Identifier name _ _ _ \<Rightarrow> name = ''reflect'' | _ \<Rightarrow> False) \<and> cur p = TokenDot then
        (let p = nextToken p; method = lit p; p = nextToken p in
         if method = ''typeof'' then
           andThen (parseExpr r (nextToken p)) (\<lambda>typeExpr p. Return (ReflectTypeExpr typeExpr 0) (nextToken p))
         else Return left p)
      else Return left p)"

definition parseExprExtended :: "calls \<Rightarrow> node act" where
  "parseExprExtended r p =
     andThen (parsePrimaryExpr r p) (\<lambda>left p.
       let (special, p) = extended_at left p in
       case special of
         Some e \<Rightarrow> Return e p
       | None \<Rightarrow>
           if cur p = TokenQuote then wrap_paren r WrapQuoteExpr p
           else if cur p = TokenUnquote then wrap_paren r WrapUnquoteExpr p
           else reflect_typeof r left p)"

section \<open>The recursion\<close>

definition no_calls :: calls where
  "no_calls =
     \<lparr>k_binary = \<lambda>_ _ _. NoFuel, k_loop = \<lambda>_ _ _. NoFuel, k_unary = \<lambda>_. NoFuel, k_primary = \<lambda>_. NoFuel,
      k_brackets = \<lambda>_ _. NoFuel, k_calls = \<lambda>_ _. NoFuel, k_args = \<lambda>_ _ _. NoFuel, k_elems = \<lambda>_ _ _. NoFuel,
      k_pairs = \<lambda>_ _ _. NoFuel, k_fields = \<lambda>_ _. NoFuel, k_arms = \<lambda>_ _. NoFuel, k_targets = \<lambda>_ _ _. NoFuel,
      k_stmts = \<lambda>_ _. NoFuel, k_statement = \<lambda>_. NoFuel, k_if = \<lambda>_. NoFuel, k_mparams = \<lambda>_ _. NoFuel,
      k_mstmts = \<lambda>_ _. NoFuel\<rparr>"

definition tie :: "calls \<Rightarrow> calls" where
  "tie r =
     \<lparr>k_binary = parseBinaryExpr r, k_loop = binary_loop r, k_unary = parseUnary r, k_primary = parsePrimaryExpr r,
      k_brackets = brackets_loop r, k_calls = calls_loop r, k_args = args_loop r, k_elems = elems_loop r,
      k_pairs = pairs_loop r, k_fields = fields_loop r, k_arms = arms_loop r, k_targets = targets_loop r,
      k_stmts = stmts_loop r, k_statement = parseStatement r, k_if = parseIf r, k_mparams = mparams_loop r,
      k_mstmts = mstmts_loop r\<rparr>"

primrec calls_at :: "nat \<Rightarrow> calls" where
  "calls_at 0 = no_calls"
| "calls_at (Suc n) = tie (calls_at n)"

lemma tie_simps [simp]:
  "k_binary (tie r) = parseBinaryExpr r" "k_loop (tie r) = binary_loop r" "k_unary (tie r) = parseUnary r"
  "k_primary (tie r) = parsePrimaryExpr r" "k_brackets (tie r) = brackets_loop r" "k_calls (tie r) = calls_loop r"
  "k_args (tie r) = args_loop r" "k_elems (tie r) = elems_loop r" "k_pairs (tie r) = pairs_loop r"
  "k_fields (tie r) = fields_loop r" "k_arms (tie r) = arms_loop r" "k_targets (tie r) = targets_loop r"
  "k_stmts (tie r) = stmts_loop r" "k_statement (tie r) = parseStatement r" "k_if (tie r) = parseIf r"
  "k_mparams (tie r) = mparams_loop r" "k_mstmts (tie r) = mstmts_loop r"
  by (simp_all add: tie_def)

lemma no_calls_simps [simp]:
  "k_binary no_calls e m p = NoFuel" "k_loop no_calls e m p = NoFuel" "k_unary no_calls p = NoFuel"
  "k_primary no_calls p = NoFuel" "k_brackets no_calls e p = NoFuel" "k_calls no_calls e p = NoFuel"
  "k_args no_calls d es p = NoFuel" "k_elems no_calls c es p = NoFuel" "k_pairs no_calls ks vs p = NoFuel"
  "k_fields no_calls es p = NoFuel" "k_arms no_calls es p = NoFuel" "k_targets no_calls i e p = NoFuel"
  "k_stmts no_calls es p = NoFuel" "k_statement no_calls p = NoFuel" "k_if no_calls p = NoFuel"
  "k_mparams no_calls ps p = NoFuel" "k_mstmts no_calls es p = NoFuel"
  by (simp_all add: no_calls_def)

end
