(* ===== verification/Parser.thy ===== *)
theory Parser
  imports Parser_Stmt
begin

text \<open>
  Declarations and programs: the rest of pkg/parser/parser.go.  \<open>ParseProgram\<close> runs with a given amount
  of fuel; \<open>parse_text\<close> is the whole front end on a source text.
\<close>

section \<open>Parameters and fields\<close>

text \<open>\<open>[T, U: Constraint]\<close>\<close>

definition gp_constraint :: "Parser \<Rightarrow> string list \<times> Parser" where
  "gp_constraint p =
     (if cur p = TokenColon then
        (let p = nextToken p in
         if cur p \<noteq> TokenIdent
         then ([], addError (''expected constraint name after '' @ quoted '':'' @ '', found '' @ quoted (lit p)) p)
         else ([lit p], nextToken p))
      else ([], p))"

lemma gp_constraint_le: "todo (snd (gp_constraint p)) \<le> todo p"
  using nextToken_le [of p] nextToken_le [of "nextToken p"] by (simp add: gp_constraint_def Let_def)

function gparams_loop :: "GenericTypeParam list \<Rightarrow> Parser \<Rightarrow> GenericTypeParam list \<times> Parser" where
  "gparams_loop out p =
     (if cur p = TokenRBracket \<or> cur p = TokenEOF then (out, p)
      else if cur p \<noteq> TokenIdent then
        gparams_loop out (nextToken (addError (''expected type parameter name, found '' @ quoted (lit p)) p))
      else
        (let q = gp_constraint (nextToken p)
         in gparams_loop (out @ [\<lparr>gp_Name = lit p, gp_Constraints = fst q\<rparr>]) (skip_if TokenComma (snd q))))"
  by auto
termination
proof (relation "measure (\<lambda>(a, p). todo p)")
  fix out :: "GenericTypeParam list" and p
  assume ne: "\<not> (cur p = TokenRBracket \<or> cur p = TokenEOF)"
  let ?p = "addError (''expected type parameter name, found '' @ quoted (lit p)) p"
  show "((out, nextToken ?p), out, p) \<in> measure (\<lambda>(a, p). todo p)"
    using ne nextToken_lt [of ?p] by simp
  fix q assume q: "q = gp_constraint (nextToken p)"
  show "((out @ [\<lparr>gp_Name = lit p, gp_Constraints = fst q\<rparr>], skip_if TokenComma (snd q)), out, p) \<in> measure (\<lambda>(a, p). todo p)"
    using ne nextToken_lt [of p] skip_if_le [of TokenComma "snd q"] gp_constraint_le [of "nextToken p"] by (simp add: q)
qed simp

declare gparams_loop.simps [simp del]

definition parseGenericParams :: "Parser \<Rightarrow> GenericTypeParam list \<times> Parser" where
  "parseGenericParams p =
     (if cur p \<noteq> TokenLBracket then ([], p)
      else
        (let (out, p) = gparams_loop [] (nextToken p)
         in (out, if cur p = TokenRBracket then nextToken p
                  else addError (''expected '' @ quoted '']'' @ '' to close generic parameter list'') p)))"

text \<open>The parameters of a function: names with optional types, any other token is skipped.\<close>

function func_params :: "string list \<Rightarrow> string list \<Rightarrow> Parser \<Rightarrow> string list \<times> string list \<times> Parser" where
  "func_params params types p =
     (if cur p = TokenRParen \<or> cur p = TokenEOF then (params, types, p)
      else if cur p = TokenIdent then
        (let q = param_type (nextToken p)
         in func_params (params @ [lit p]) (types @ [fst q]) (skip_if TokenComma (snd q)))
      else func_params params types (nextToken p))"
  by auto
termination
proof (relation "measure (\<lambda>(a, b, p). todo p)")
  fix params types :: "string list" and p
  assume ne: "\<not> (cur p = TokenRParen \<or> cur p = TokenEOF)"
  have lt: "todo (nextToken p) < todo p" using ne by (simp add: nextToken_lt)
  then show "((params, types, nextToken p), params, types, p) \<in> measure (\<lambda>(a, b, p). todo p)" by simp
  fix q assume q: "q = param_type (nextToken p)"
  show "((params @ [lit p], types @ [fst q], skip_if TokenComma (snd q)), params, types, p) \<in> measure (\<lambda>(a, b, p). todo p)"
    using lt skip_if_le [of TokenComma "snd q"] param_type_le [of "nextToken p"] by (simp add: q)
qed simp

declare func_params.simps [simp del]

text \<open>The parameters of a kernel, \<open>name: type\<close>.\<close>

function kernel_params :: "Parameter list \<Rightarrow> Parser \<Rightarrow> Parameter list \<times> Parser" where
  "kernel_params params p =
     (if cur p = TokenRParen \<or> cur p = TokenEOF then (params, p)
      else if cur p = TokenIdent then
        (let p' = skip_if TokenColon (nextToken p)
         in kernel_params (params @ [\<lparr>pa_Name = lit p, pa_Type = lit p'\<rparr>]) (skip_if TokenComma (nextToken p')))
      else kernel_params params (nextToken p))"
  by auto
termination
proof (relation "measure (\<lambda>(a, p). todo p)")
  fix params :: "Parameter list" and p
  assume ne: "\<not> (cur p = TokenRParen \<or> cur p = TokenEOF)"
  have lt: "todo (nextToken p) < todo p" using ne by (simp add: nextToken_lt)
  then show "((params, nextToken p), params, p) \<in> measure (\<lambda>(a, p). todo p)" by simp
  fix p' assume p': "p' = skip_if TokenColon (nextToken p)"
  show "((params @ [\<lparr>pa_Name = lit p, pa_Type = lit p'\<rparr>], skip_if TokenComma (nextToken p')), params, p) \<in> measure (\<lambda>(a, p). todo p)"
    using lt skip_if_le [of TokenComma "nextToken p'"] nextToken_le [of p'] skip_if_le [of TokenColon "nextToken p"]
    by (simp add: p')
qed simp

declare kernel_params.simps [simp del]

text \<open>The fields of a struct, \<open>name type\<close>, up to a brace; a semicolon separates them only in a \<open>type\<close>.\<close>

function struct_fields :: "bool \<Rightarrow> StructField list \<Rightarrow> Parser \<Rightarrow> StructField list \<times> Parser" where
  "struct_fields semi fs p =
     (if cur p = TokenRBrace \<or> cur p = TokenEOF then (fs, p)
      else
        (let p' = nextToken p; f = \<lparr>sf_Name = lit p, sf_Type = lit p'\<rparr>; p'' = nextToken p'
         in struct_fields semi (fs @ [f])
              (if cur p'' = TokenComma \<or> semi \<and> cur p'' = TokenSemicolon then nextToken p'' else p'')))"
  by auto
termination
proof (relation "measure (\<lambda>(s, a, p). todo p)")
  fix semi and fs :: "StructField list" and p p' f p''
  assume "\<not> (cur p = TokenRBrace \<or> cur p = TokenEOF)" "p' = nextToken p" "p'' = nextToken p'"
  then show "((semi, fs @ [f], if cur p'' = TokenComma \<or> semi \<and> cur p'' = TokenSemicolon then nextToken p'' else p''), semi, fs, p)
      \<in> measure (\<lambda>(s, a, p). todo p)"
    using nextToken_lt [of p] nextToken_le [of p'] nextToken_le [of p''] by auto
qed simp

declare struct_fields.simps [simp del]

text \<open>The variants of an enum.\<close>

definition variant_payload :: "Parser \<Rightarrow> string \<times> Parser" where
  "variant_payload p =
     (if cur p = TokenLParen then (let p = nextToken p in (lit p, nextToken (nextToken p))) else ([], p))"

lemma variant_payload_le: "todo (snd (variant_payload p)) \<le> todo p"
  using nextToken_le [of p] nextToken_le [of "nextToken p"] nextToken_le [of "nextToken (nextToken p)"]
  by (simp add: variant_payload_def Let_def)

function enum_variants :: "EnumVariant list \<Rightarrow> Parser \<Rightarrow> EnumVariant list \<times> Parser" where
  "enum_variants vs p =
     (if cur p = TokenRBrace \<or> cur p = TokenEOF then (vs, p)
      else
        (let q = variant_payload (nextToken p)
         in enum_variants (vs @ [\<lparr>ev_Name = lit p, ev_Payload = fst q\<rparr>]) (skip_if TokenComma (snd q))))"
  by auto
termination
proof (relation "measure (\<lambda>(a, p). todo p)")
  fix vs :: "EnumVariant list" and p q
  assume "\<not> (cur p = TokenRBrace \<or> cur p = TokenEOF)" "q = variant_payload (nextToken p)"
  then show "((vs @ [\<lparr>ev_Name = lit p, ev_Payload = fst q\<rparr>], skip_if TokenComma (snd q)), vs, p) \<in> measure (\<lambda>(a, p). todo p)"
    using nextToken_lt [of p] skip_if_le [of TokenComma "snd q"] variant_payload_le [of "nextToken p"] by auto
qed simp

declare enum_variants.simps [simp del]

section \<open>Declarations\<close>

definition return_types :: "TokenType list" where
  "return_types =
     [TokenIdent, TokenFn, TokenBool, TokenInt, TokenFloat64, TokenString, TokenBigInt, TokenBigFloat]"

definition parseFunc :: "calls \<Rightarrow> node act" where
  "parseFunc r p =
     (let p = nextToken p; name = lit p; line = cur_line p; col = cur_col p; ecol = col + int (length name);
          (gparams, p) = parseGenericParams (nextToken p);
          (params, types, p) = func_params [] [] (nextToken p);
          p = nextToken p;
          p = (if cur p \<in> set return_types then nextToken p else p)
      in andThen (parseBlock r (nextToken p)) (\<lambda>body p.
           let p = (if cur p \<noteq> TokenRBrace then addError (''expected '' @ quoted ''}'' @ '' to close function body'') p else p)
           in Return (FuncDecl name params types (MarkVarEscaping body) gparams [] False [] line col ecol) (nextToken p)))"

definition parseStructDecl :: "Parser \<Rightarrow> node \<times> Parser" where
  "parseStructDecl p =
     (let p = nextToken p; name = lit p; line = cur_line p;
          (gparams, p) = parseGenericParams (nextToken p);
          (fs, p) = struct_fields True [] (nextToken (nextToken p))
      in (StructDeclStmt name fs gparams False line, nextToken p))"

definition parseEnumDecl :: "Parser \<Rightarrow> node \<times> Parser" where
  "parseEnumDecl p =
     (let p = nextToken p; name = lit p; line = cur_line p;
          p = p\<lparr>ps_enumNames := insert name (ps_enumNames p)\<rparr>;
          (variants, p) = enum_variants [] (nextToken (nextToken p))
      in (EnumDecl name variants False line, nextToken p))"

definition parseLinearTypeDecl :: "Parser \<Rightarrow> node \<times> Parser" where
  "parseLinearTypeDecl p =
     (let p = nextToken (nextToken p); name = lit p;
          (fs, p) = struct_fields False [] (nextToken (nextToken p))
      in (LinearTypeDecl name fs 0, nextToken p))"

definition parsePackedStructDecl :: "Parser \<Rightarrow> node \<times> Parser" where
  "parsePackedStructDecl p =
     (let p = nextToken (nextToken p); name = lit p;
          (fs, p) = struct_fields False [] (nextToken (nextToken p))
      in (PackedStructDecl name fs 0, nextToken p))"

definition parseActor :: "calls \<Rightarrow> node act" where
  "parseActor r p =
     (let p = nextToken p; name = lit p in
      andThen (braced_block r (nextToken (nextToken (nextToken p)))) (\<lambda>body p. Return (ActorDeclStmt name body 0) p))"

definition parseKernel :: "calls \<Rightarrow> node act" where
  "parseKernel r p =
     (let p = nextToken p; name = lit p;
          (params, p) = kernel_params [] (nextToken (nextToken p))
      in andThen (braced_block r (nextToken p)) (\<lambda>body p. Return (KernelDeclStmt name params body 0) p))"

definition set_target :: "string \<Rightarrow> node \<Rightarrow> node" where
  "set_target target fn =
     (case fn of
        FuncDecl name params types body gps caps pub _ line col ecol \<Rightarrow>
          FuncDecl name params types body gps caps pub target line col ecol
      | _ \<Rightarrow> fn)"

definition target_error :: "string \<Rightarrow> node act" where
  "target_error msg p = Return NoNode (nextToken (addError msg p))"

definition parseTargetAttr :: "calls \<Rightarrow> node act" where
  "parseTargetAttr r p =
     (let p = nextToken p in
      if cur p \<noteq> TokenIdent \<or> lit p \<noteq> ''target'' then
        target_error (''expected '' @ quoted ''@target(...)'' @ '' attribute, got '' @ quoted (CHR ''@'' # lit p)) p
      else
        (let p = nextToken p in
         if cur p \<noteq> TokenLParen then target_error (''expected '' @ quoted ''('' @ '' after '' @ quoted ''@target'') p
         else
           (let p = nextToken p in
            if cur p \<noteq> TokenIdent then target_error (''expected target name in '' @ quoted ''@target(...)'') p
            else
              (let targetName = lit p; p = nextToken p in
               if cur p \<noteq> TokenRParen then target_error (''expected '' @ quoted '')'' @ '' after '' @ quoted ''@target(...)'') p
               else
                 (let p = nextToken p in
                  if cur p \<noteq> TokenFunc then
                    target_error (quoted (''@target('' @ targetName @ '')'') @ '' must be followed by '' @ quoted ''func'') p
                  else andThen (parseFunc r p) (\<lambda>fn p. Return (set_target targetName fn) p))))))"

record ModuleImport =
  mi_Name :: string
  mi_Line :: int

text \<open>The rest of a dotted path; the stall check compares with the start of the whole import and never fires
  within it, but it is there.\<close>

function import_path :: "u32 \<Rightarrow> string \<Rightarrow> Parser \<Rightarrow> string \<times> Parser" where
  "import_path start name p =
     (if cur p = TokenDot then
        (let p' = nextToken p
         in import_path start (name @ ''.'' @ lit p') (nextToken (advanceIfStalled start ''module import path'' p')))
      else (name, p))"
  by auto
termination
proof (relation "measure (\<lambda>(s, n, p). todo p)")
  fix start and name :: string and p p'
  assume "cur p = TokenDot" "p' = nextToken p"
  moreover have "todo (advanceIfStalled start c q) \<le> todo q" for c q
    using nextToken_le [of "addError (''unexpected token '' @ quoted (lit q) @ '' in '' @ c) q"]
    by (simp add: advanceIfStalled_def)
  ultimately show "((start, name @ ''.'' @ lit p', nextToken (advanceIfStalled start ''module import path'' p')), start, name, p)
      \<in> measure (\<lambda>(s, n, p). todo p)"
    using nextToken_lt [of p] nextToken_le [of "advanceIfStalled start ''module import path'' p'"]
    by (auto intro: le_less_trans order_trans)
qed simp

declare import_path.simps [simp del]

definition parseModuleImport :: "Parser \<Rightarrow> ModuleImport \<times> Parser" where
  "parseModuleImport p =
     (let start = tk_Start (ps_cur p); p = nextToken p; line = cur_line p;
          (name, p) = import_path start (lit p) (nextToken p)
      in (\<lparr>mi_Name = name, mi_Line = line\<rparr>, p))"

section \<open>Programs\<close>

record Program =
  pg_Statements :: "node list"
  pg_CImports :: "string list"
  pg_Imports :: "ModuleImport list"

definition add_stmt :: "node \<Rightarrow> Program \<Rightarrow> Program" where
  "add_stmt s prog = (if is_nil s then prog else prog\<lparr>pg_Statements := pg_Statements prog @ [s]\<rparr>)"

definition set_public :: "node \<Rightarrow> node" where
  "set_public s =
     (case s of
        FuncDecl name params types body gps caps _ target line col ecol \<Rightarrow>
          FuncDecl name params types body gps caps True target line col ecol
      | StructDeclStmt name fs gps _ line \<Rightarrow> StructDeclStmt name fs gps True line
      | EnumDecl name vs _ line \<Rightarrow> EnumDecl name vs True line
      | _ \<Rightarrow> s)"

definition public_decl :: "calls \<Rightarrow> Program \<Rightarrow> Program act" where
  "public_decl r prog p =
     (let p = nextToken p in
      if cur p = TokenFunc then andThen (parseFunc r p) (\<lambda>s p. Return (add_stmt (set_public s) prog) p)
      else if cur p = TokenTypeDef then (let (s, p) = parseStructDecl p in Return (add_stmt (set_public s) prog) p)
      else if cur p = TokenEnum then (let (s, p) = parseEnumDecl p in Return (add_stmt (set_public s) prog) p)
      else
        Return prog (nextToken (addError (''unexpected token '' @ quoted (lit p) @ '' after '' @ quoted ''public'' @
          '' modifier (expected func/type/enum)'') p)))"

definition import_decl :: "Program \<Rightarrow> Program act" where
  "import_decl prog p =
     (if peek p = TokenString then
        andThen (parseCImport p) (\<lambda>c p.
          Return (case c of Some content \<Rightarrow> prog\<lparr>pg_CImports := pg_CImports prog @ [content]\<rparr> | None \<Rightarrow> prog) p)
      else if peek p = TokenIdent then
        (let (m, p) = parseModuleImport p in Return (prog\<lparr>pg_Imports := pg_Imports prog @ [m]\<rparr>) p)
      else
        Return prog (nextToken (addError (''expected module name or '' @ dq @ ''C'' @ dq @ '' after '' @ quoted ''import'' @
          '', got '' @ quoted (Literal (ps_peek p) (ps_src p))) p)))"

text \<open>One declaration; a token that starts none is skipped together with the token behind it.\<close>

definition parse_decl :: "calls \<Rightarrow> Program \<Rightarrow> Program act" where
  "parse_decl r prog p =
     (let keep = (\<lambda>m. andThen m (\<lambda>s p. Return (add_stmt s prog) p)); now = (\<lambda>(s, p). Return (add_stmt s prog) p); t = cur p in
      if t = TokenPub then public_decl r prog p
      else if t = TokenFunc then keep (parseFunc r p)
      else if t = TokenAt then keep (parseTargetAttr r p)
      else if t = TokenActor then keep (parseActor r p)
      else if t = TokenMacro then keep (parseMacro r p)
      else if t = TokenKernel then keep (parseKernel r p)
      else if t = TokenTypeDef then now (parseStructDecl p)
      else if t = TokenLinear then now (parseLinearTypeDecl p)
      else if t = TokenPacked then now (parsePackedStructDecl p)
      else if t = TokenEnum then now (parseEnumDecl p)
      else if t = TokenImport then import_decl prog p
      else Return prog (nextToken (nextToken (addError (''unexpected token '' @ quoted (lit p) @ '' at top level'') p))))"

primrec program_loop :: "nat \<Rightarrow> Program \<Rightarrow> Program act" where
  "program_loop 0 prog p = NoFuel"
| "program_loop (Suc n) prog p =
     (if cur p = TokenEOF then Return prog p
      else andThen (parse_decl (calls_at n) prog p) (\<lambda>prog p. program_loop n prog p))"

text \<open>The errors of the lexer are appended at the end.\<close>

definition drain_errors :: "Parser \<Rightarrow> Parser" where
  "drain_errors p =
     p\<lparr>ps_Errors := ps_Errors p @ map (\<lambda>le. error_text (le_Line le) (le_Msg le)) (lx_Errors (ps_l p)),
       ps_ErrorCols := ps_ErrorCols p @ map (\<lambda>le. int (le_Col le)) (lx_Errors (ps_l p))\<rparr>"

definition ParseProgram :: "nat \<Rightarrow> Program act" where
  "ParseProgram n p =
     andThen (program_loop n \<lparr>pg_Statements = [], pg_CImports = [], pg_Imports = []\<rparr> p) (\<lambda>prog p.
       Return prog (drain_errors p))"

definition parse_text :: "nat \<Rightarrow> string \<Rightarrow> Program outcome" where
  "parse_text n src = ParseProgram n (NewParser (New src))"

text \<open>\<open>parseExpr\<close> on a text that is an expression.\<close>

definition parse_expr_text :: "nat \<Rightarrow> string \<Rightarrow> node outcome" where
  "parse_expr_text n src = parseExpr (calls_at n) (NewParser (New src))"

end
