(* ===== verification/Parser_Progress.thy ===== *)
theory Parser_Progress
  imports Parser
begin

text \<open>
  What every step of the parser does to its state: it goes forward in the text (\<open>leads\<close>), it only adds
  errors, each with its column (\<open>grows\<close>), and on a text without the words \<open>macro\<close> and \<open>comptime\<close> it never
  meets these tokens (\<open>calm\<close>).  Shown here for the operations that call no other.
\<close>

section \<open>Words of the text\<close>

lemma Contains_iff: "Contains s sub \<longleftrightarrow> (\<exists>a b. s = a @ sub @ b)"
proof (induction s sub rule: Contains.induct)
  case (1 sub)
  then show ?case by simp
next
  case (2 c cs sub)
  have pre: "HasPrefix (c # cs) sub \<longleftrightarrow> (\<exists>b. c # cs = sub @ b)"
    unfolding HasPrefix_def by (metis append_eq_conv_conj append_take_drop_id)
  show ?case
  proof
    assume "Contains (c # cs) sub"
    then show "\<exists>a b. c # cs = a @ sub @ b" using 2 pre by (metis Contains.simps(2) append_Cons append_Nil)
  next
    assume "\<exists>a b. c # cs = a @ sub @ b"
    then obtain a b where ab: "c # cs = a @ sub @ b" by blast
    show "Contains (c # cs) sub"
    proof (cases a)
      case Nil
      then show ?thesis using ab pre by (metis Contains.simps(2) append_Nil)
    next
      case (Cons x a')
      then show ?thesis using ab 2 by auto
    qed
  qed
qed

lemma slice_contained: "Contains s (slice s i j)"
  unfolding Contains_iff slice_def by (metis append_take_drop_id)

lemma lx_Input_readChar [simp]: "lx_Input (readChar l) = lx_Input l" "lx_Input (advance l) = lx_Input l"
  by (simp_all add: readChar_def advance_def)

lemma lx_Input_adv_while [simp]: "lx_Input (adv_while P l) = lx_Input l"
proof (induction P l rule: adv_while.induct)
  case (1 P l)
  then show ?case by (subst adv_while.simps) simp
qed

lemma lx_Input_skip_space [simp]: "lx_Input (skip_space l) = lx_Input l"
proof (induction l rule: skip_space.induct)
  case (1 l)
  then show ?case by (subst skip_space.simps) auto
qed

lemma lx_Input_block_comment [simp]: "lx_Input (block_comment d l) = lx_Input l"
proof (induction d l rule: block_comment.induct)
  case (1 d l)
  then show ?case by (subst block_comment.simps) auto
qed

lemma lx_Input_skipWhitespace [simp]: "lx_Input (skipWhitespace l) = lx_Input l"
proof (induction l rule: skipWhitespace.induct)
  case (1 l)
  then show ?case by (subst skipWhitespace.simps) (auto simp: Let_def)
qed

lemma lx_Input_string_loop: "lx_Input (fst (string_loop l)) = lx_Input l"
proof (induction l rule: string_loop.induct)
  case (1 l)
  then show ?case by (subst string_loop.simps) (auto simp: Let_def)
qed

lemma lx_Input_scanString [simp]: "lx_Input (snd (scanString l)) = lx_Input l"
  using lx_Input_string_loop [of "advance l"]
  by (cases "string_loop (advance l)") (simp add: scanString_def Let_def)

lemma lx_Input_scanners [simp]:
  "lx_Input (snd (one_char t l)) = lx_Input l" "lx_Input (snd (two_char t l)) = lx_Input l"
  "lx_Input (snd (scanIdentifier l)) = lx_Input l" "lx_Input (snd (scanNumber l)) = lx_Input l"
  by (simp_all add: one_char_def two_char_def scanIdentifier_def scanNumber_def Let_def)

lemma lx_Input_NextToken [simp]: "lx_Input (snd (NextToken l)) = lx_Input l"
  by (simp add: NextToken_def Let_def split: option.split prod.split)

text \<open>Only the identifier of that name is a keyword token.\<close>

lemma lookupIdent_keyword:
  "lookupIdent s = TokenMacro \<Longrightarrow> s = ''macro''" "lookupIdent s = TokenComptime \<Longrightarrow> s = ''comptime''"
  by (auto simp: lookupIdent_def split: option.splits dest!: map_of_SomeD) (auto simp: ident_types_def)

lemma op_token_keyword: "op_token c q = Some (t, two) \<Longrightarrow> t \<noteq> TokenMacro \<and> t \<noteq> TokenComptime"
  by (auto simp: op_token_def single_types_def split: if_splits)

lemma scanIdentifier_type: "tk_Type (fst (scanIdentifier l)) = lookupIdent (slice (lx_Input l) (lx_Position l) (lx_Position (adv_while (\<lambda>c. isLetter c \<or> isDigit c) l)))"
  by (simp add: scanIdentifier_def mk_token_def Let_def)

lemma other_types:
  "tk_Type (fst (one_char t l)) = t" "tk_Type (fst (two_char t l)) = t" "tk_Type (fst (scanString l)) = TokenString"
  "tk_Type (fst (scanNumber l)) \<in> {TokenInt, TokenFloat64, TokenBigInt, TokenBigFloat}"
  by (simp_all add: one_char_def two_char_def scanString_def scanNumber_def mk_token_def Let_def split: prod.split)

definition hangs :: "TokenType \<Rightarrow> bool" where "hangs t \<longleftrightarrow> t = TokenMacro \<or> t = TokenComptime"

definition plain_text :: "string \<Rightarrow> bool" where
  "plain_text s \<longleftrightarrow> \<not> Contains s ''macro'' \<and> \<not> Contains s ''comptime''"

lemma NextToken_plain:
  assumes "plain_text (lx_Input l)"
  shows "\<not> hangs (tk_Type (fst (NextToken l)))"
proof -
  have "\<not> hangs (tk_Type (fst (scanIdentifier m)))" if "lx_Input m = lx_Input l" for m
  proof -
    let ?w = "slice (lx_Input m) (lx_Position m) (lx_Position (adv_while (\<lambda>c. isLetter c \<or> isDigit c) m))"
    have "?w \<noteq> ''macro''" "?w \<noteq> ''comptime''"
      using assms slice_contained [of "lx_Input m" "lx_Position m" "lx_Position (adv_while (\<lambda>c. isLetter c \<or> isDigit c) m)"]
      unfolding plain_text_def that by auto
    then show ?thesis using lookupIdent_keyword [of ?w] by (auto simp: hangs_def scanIdentifier_type)
  qed
  moreover have "\<not> hangs (tk_Type (fst (scanNumber m)))" for m
    using other_types(4) [of m] by (auto simp: hangs_def)
  ultimately show ?thesis
    using op_token_keyword
    by (auto simp: NextToken_def Let_def other_types hangs_def mk_token_def split: option.split prod.split)
qed


section \<open>Going forward\<close>

definition calm :: "Parser \<Rightarrow> bool" where
  "calm p \<longleftrightarrow> \<not> hangs (cur p) \<and> \<not> hangs (peek p) \<and> plain_text (lx_Input (ps_l p))"

text \<open>Errors are only added, and every error has a column.\<close>

definition grows :: "Parser \<Rightarrow> Parser \<Rightarrow> bool" where
  "grows p q \<longleftrightarrow>
     (\<exists>es cs. ps_Errors q = ps_Errors p @ es \<and> ps_ErrorCols q = ps_ErrorCols p @ cs \<and> length cs = length es)"

text \<open>What every operation does to the state: no token comes back, and unless the current token is still
  the same (or was the end of the file) something was read.\<close>

definition leads :: "Parser \<Rightarrow> Parser \<Rightarrow> bool" where
  "leads p q \<longleftrightarrow>
     todo q \<le> todo p \<and> (todo q < todo p \<or> cur p = TokenEOF \<or> ps_cur q = ps_cur p) \<and> (calm p \<longrightarrow> calm q) \<and> grows p q"

lemma grows_refl: "grows p p"
  by (simp add: grows_def)

lemma grows_trans: "grows p q \<Longrightarrow> grows q s \<Longrightarrow> grows p s"
  unfolding grows_def by (metis append_assoc length_append)

lemma leads_refl [simp]: "leads p p"
  by (simp add: leads_def grows_refl)

lemma leads_trans: "leads p q \<Longrightarrow> leads q s \<Longrightarrow> leads p s"
  using grows_trans [of p q s] by (auto simp: leads_def)

lemma leads_next: "leads p (nextToken p)"
proof -
  have "calm p \<Longrightarrow> calm (nextToken p)"
    using NextToken_plain [of "ps_l p"] lx_Input_NextToken [of "ps_l p"]
    by (cases "NextToken (ps_l p)") (simp add: calm_def nextToken_def)
  moreover have "grows p (nextToken p)"
    by (cases "NextToken (ps_l p)") (simp add: grows_def nextToken_def)
  ultimately show ?thesis using nextToken_lt [of p] nextToken_le [of p] by (auto simp: leads_def)
qed

lemma leads_same:
  "leads p (addError msg p)" "leads p (SetLine p)" "leads p (p\<lparr>ps_ifCond := b\<rparr>)" "leads p (p\<lparr>ps_enumNames := e\<rparr>)"
  by (simp_all add: leads_def calm_def grows_def addError_def SetLine_def)

lemma leads_next' [simp]: "leads p q \<Longrightarrow> leads p (nextToken q)"
  using leads_trans leads_next by blast

lemma leads_same' [simp]:
  "leads p q \<Longrightarrow> leads p (addError msg q)" "leads p q \<Longrightarrow> leads p (SetLine q)"
  "leads p q \<Longrightarrow> leads p (q\<lparr>ps_ifCond := b\<rparr>)" "leads p q \<Longrightarrow> leads p (q\<lparr>ps_enumNames := e\<rparr>)"
  by (blast intro: leads_trans leads_same)+

lemma leads_skip [simp]: "leads p q \<Longrightarrow> leads p (skip_if t q)" "leads p q \<Longrightarrow> leads p (advanceIfStalled a c q)"
  "leads p q \<Longrightarrow> leads p (require e m q)"
  by (simp_all add: skip_if_def advanceIfStalled_def require_def)

text \<open>The operations that call no other.\<close>

lemma leads_postfix [simp]:
  "leads p q \<Longrightarrow> leads p (snd (postfix_at e q))" "leads p q \<Longrightarrow> leads p (snd (postfix_question e q))"
  by (simp_all add: postfix_at_def postfix_question_def Let_def)

lemma leads_dot_chain: "leads q (snd (dot_chain e q))"
proof (induction e q rule: dot_chain.induct)
  case (1 e p)
  have two_on: "leads p (nextToken (nextToken p))" by simp
  from 1 show ?case
    by (subst dot_chain.simps) (auto simp: Let_def intro: leads_trans [OF two_on])
qed

lemma leads_generic_names: "generic_names a q = Some (b, q') \<Longrightarrow> leads q q'"
proof (induction a q rule: generic_names.induct)
  case (1 a p)
  show ?case
  proof (cases "cur (nextToken p) = TokenComma")
    case True
    then have "generic_names (a @ [lit p]) (nextToken (nextToken p)) = Some (b, q')" "cur p = TokenIdent"
      using 1(2) by (subst (asm) generic_names.simps, simp add: Let_def split: if_splits)+
    then have "leads (nextToken (nextToken p)) q'" using 1(1) True by simp
    then show ?thesis by (rule leads_trans [rotated]) simp
  next
    case False
    then have "q' = nextToken p" using 1(2) by (subst (asm) generic_names.simps) (simp add: Let_def split: if_splits)
    then show ?thesis by simp
  qed
qed

lemma leads_tryGenericArgs: "tryGenericArgs t q = Some (b, q') \<Longrightarrow> leads q q'"
  by (auto simp: tryGenericArgs_def Let_def dest!: leads_generic_names leads_trans [OF leads_next] split: option.splits if_splits)

lemma leads_param_type: "leads p q \<Longrightarrow> leads p (snd (param_type q))"
  by (simp add: param_type_def)

lemma leads_lambda_params: "leads q (snd (snd (lambda_params a b q)))"
proof (induction a b q rule: lambda_params.induct)
  case (1 a b p)
  let ?q = "skip_if TokenComma (snd (param_type (nextToken p)))" and ?q' = "skip_if TokenComma (nextToken p)"
  have q: "leads p ?q" "leads p ?q'" by (simp_all add: leads_param_type)
  from 1(1) [OF _ _ refl] 1(2) show ?case by (subst lambda_params.simps) (auto simp: Let_def intro: q [THEN leads_trans])
qed

lemma leads_func_params: "leads q (snd (snd (func_params a b q)))"
proof (induction a b q rule: func_params.induct)
  case (1 a b p)
  let ?q = "skip_if TokenComma (snd (param_type (nextToken p)))" and ?q' = "nextToken p"
  have q: "leads p ?q" "leads p ?q'" by (simp_all add: leads_param_type)
  from 1(1) [OF _ _ refl] 1(2) show ?case by (subst func_params.simps) (auto simp: Let_def intro: q [THEN leads_trans])
qed

lemma leads_kernel_params: "leads q (snd (kernel_params a q))"
proof (induction a q rule: kernel_params.induct)
  case (1 a p)
  let ?q = "skip_if TokenComma (nextToken (skip_if TokenColon (nextToken p)))"
  have q: "leads p ?q" "leads p (nextToken p)" by simp_all
  from 1(1) [OF _ _ refl] 1(2) show ?case by (subst kernel_params.simps) (auto simp: Let_def intro: q [THEN leads_trans])
qed

lemma leads_gparams_loop: "leads q (snd (gparams_loop a q))"
proof (induction a q rule: gparams_loop.induct)
  case (1 a p)
  let ?q = "skip_if TokenComma (snd (gp_constraint (nextToken p)))"
  let ?q' = "nextToken (addError (''expected type parameter name, found '' @ quoted (lit p)) p)"
  have q: "leads p ?q" "leads p ?q'" by (simp_all add: gp_constraint_def Let_def)
  from 1(1) 1(2) [OF _ _ refl] show ?case by (subst gparams_loop.simps) (auto simp: Let_def intro: q [THEN leads_trans])
qed

lemma leads_struct_fields: "leads q (snd (struct_fields s a q))"
proof (induction s a q rule: struct_fields.induct)
  case (1 s a p)
  let ?p = "nextToken (nextToken p)"
  let ?q = "if cur ?p = TokenComma \<or> s \<and> cur ?p = TokenSemicolon then nextToken ?p else ?p"
  have q: "leads p ?q" by simp
  show ?case
  proof (cases "cur p = TokenRBrace \<or> cur p = TokenEOF")
    case False
    show ?thesis using False leads_trans [OF q 1 [OF False refl refl refl]]
      by (subst struct_fields.simps) (simp only: Let_def if_False)
  qed (subst struct_fields.simps, simp)
qed

lemma leads_enum_variants: "leads q (snd (enum_variants a q))"
proof (induction a q rule: enum_variants.induct)
  case (1 a p)
  let ?q = "skip_if TokenComma (snd (variant_payload (nextToken p)))"
  have q: "leads p ?q" by (simp add: variant_payload_def Let_def)
  from 1 [OF _ refl] show ?case by (subst enum_variants.simps) (auto simp: Let_def intro: leads_trans [OF q])
qed

lemma leads_skip_to_brace: "leads q (skip_to_brace q)"
proof (induction q rule: skip_to_brace.induct)
  case (1 p)
  then show ?case by (subst skip_to_brace.simps) (auto intro: leads_trans [OF leads_next])
qed

lemma leads_import_path: "leads q (snd (import_path a b q))"
proof (induction a b q rule: import_path.induct)
  case (1 a b p)
  let ?q = "nextToken (advanceIfStalled a ''module import path'' (nextToken p))"
  have q: "leads p ?q" by simp
  from 1 show ?case by (subst import_path.simps) (auto simp: Let_def intro: leads_trans [OF q])
qed

end
