(* ===== verification/Parser_Total.thy ===== *)
theory Parser_Total
  imports Parser_Progress
begin

text \<open>
  The parser returns.  On every text without the words \<open>macro\<close> and \<open>comptime\<close> the parser ends, with fuel
  linear in the length of the text; the only other outcome is the panic of \<open>parseCImport\<close>.  The contract
  of the recursive calls is the locale \<open>fuelled\<close>: with fuel for five calls per token a call returns and
  goes forward.  \<open>descent\<close> adds the state in which an operation was entered; every operation is proved
  there, and the knot \<open>calls_at\<close> is the interpretation.
\<close>

section \<open>Total correctness\<close>

named_theorems vcg \<open>the operations, as rules on their outcome\<close>

text \<open>The operation returns, in a state with the property, or panics.\<close>

fun wp :: "'a outcome \<Rightarrow> ('a \<Rightarrow> Parser \<Rightarrow> bool) \<Rightarrow> bool" where
  "wp (Return x p) Q = Q x p"
| "wp Panic Q = True"
| "wp NoFuel Q = False"

lemma wp_andThen [simp]: "wp (andThen m f) Q = wp m (\<lambda>x p. wp (f x p) Q)"
  by (cases m) simp_all

lemma wp_if [simp]: "wp (if b then m else m') Q = (if b then wp m Q else wp m' Q)"
  by simp

lemma wp_mono: "wp m Q \<Longrightarrow> (\<And>x p. Q x p \<Longrightarrow> Q' x p) \<Longrightarrow> wp m Q'"
  by (cases m) simp_all

abbreviation settles :: "Parser \<Rightarrow> 'a outcome \<Rightarrow> bool" where
  "settles p m \<equiv> wp m (\<lambda>_ q. leads p q)"

locale fuelled =
  fixes r :: calls and n :: nat
  assumes primary: "calm p \<Longrightarrow> 5 * todo p < n \<Longrightarrow> settles p (k_primary r p)"
    and brackets: "calm p \<Longrightarrow> 5 * todo p < n \<Longrightarrow> settles p (k_brackets r e p)"
    and calls: "calm p \<Longrightarrow> 5 * todo p < n \<Longrightarrow> settles p (k_calls r e p)"
    and elems: "calm p \<Longrightarrow> 5 * todo p < n \<Longrightarrow> settles p (k_elems r c es p)"
    and pairs: "calm p \<Longrightarrow> 5 * todo p < n \<Longrightarrow> settles p (k_pairs r ks vs p)"
    and fields: "calm p \<Longrightarrow> 5 * todo p < n \<Longrightarrow> settles p (k_fields r es p)"
    and targets: "calm p \<Longrightarrow> 5 * todo p < n \<Longrightarrow> settles p (k_targets r i e p)"
    and ifs: "calm p \<Longrightarrow> 5 * todo p < n \<Longrightarrow> cur p = TokenIf \<Longrightarrow> settles p (k_if r p)"
    and unary: "calm p \<Longrightarrow> 5 * todo p + 1 < n \<Longrightarrow> settles p (k_unary r p)"
    and loop: "calm p \<Longrightarrow> 5 * todo p + 1 < n \<Longrightarrow> settles p (k_loop r e m p)"
    and arms: "calm p \<Longrightarrow> 5 * todo p + 1 < n \<Longrightarrow> settles p (k_arms r es p)"
    and binary: "calm p \<Longrightarrow> 5 * todo p + 2 < n \<Longrightarrow> settles p (k_binary r e m p)"
    and args: "calm p \<Longrightarrow> 5 * todo p + 3 < n \<Longrightarrow> settles p (k_args r d es p)"
    and statement: "calm p \<Longrightarrow> 5 * todo p + 3 < n \<Longrightarrow> settles p (k_statement r p)"
    and stmts: "calm p \<Longrightarrow> 5 * todo p + 4 < n \<Longrightarrow> settles p (k_stmts r es p)"

locale descent = fuelled +
  fixes p0 :: Parser
  assumes calm0: "calm p0" and fuel0: "5 * todo p0 \<le> n"
begin

text \<open>A state behind the first token of the operation.\<close>

definition deeper :: "Parser \<Rightarrow> bool" where
  "deeper q \<longleftrightarrow> leads p0 q \<and> todo q < todo p0"

lemma deeper_leads: "deeper q \<Longrightarrow> leads p0 q"
  by (simp add: deeper_def)

lemma deeper_trans: "deeper q \<Longrightarrow> leads q q' \<Longrightarrow> deeper q'"
  using leads_trans [of p0 q q'] by (simp add: deeper_def leads_def)

lemma deeper_first [simp]: "leads p0 q \<Longrightarrow> cur q \<noteq> TokenEOF \<Longrightarrow> deeper (nextToken q)"
  using nextToken_lt [of q] leads_next' [of p0 q] by (simp add: deeper_def leads_def)

lemma deeper_next [simp]: "deeper q \<Longrightarrow> deeper (nextToken q)"
  by (erule deeper_trans) simp

lemma deeper_same [simp]:
  "deeper q \<Longrightarrow> deeper (addError msg q)" "deeper q \<Longrightarrow> deeper (SetLine q)" "deeper q \<Longrightarrow> deeper (q\<lparr>ps_ifCond := b\<rparr>)"
  "deeper q \<Longrightarrow> deeper (q\<lparr>ps_enumNames := e\<rparr>)" "deeper q \<Longrightarrow> deeper (skip_if t q)"
  "deeper q \<Longrightarrow> deeper (advanceIfStalled a c q)" "deeper q \<Longrightarrow> deeper (require x m q)"
  "deeper q \<Longrightarrow> deeper (snd (postfix_at x q))" "deeper q \<Longrightarrow> deeper (snd (postfix_question x q))"
  "deeper q \<Longrightarrow> deeper (snd (dot_chain x q))" "deeper q \<Longrightarrow> deeper (snd (snd (lambda_params xs ys q)))"
  "deeper q \<Longrightarrow> deeper (snd (snd (func_params xs ys q)))" "deeper q \<Longrightarrow> deeper (snd (kernel_params zs q))"
  "deeper q \<Longrightarrow> deeper (skip_to_brace q)"
  by (erule deeper_trans; simp add: leads_dot_chain leads_lambda_params leads_func_params leads_kernel_params leads_skip_to_brace)+

text \<open>A recursive call behind the first token.\<close>

lemma deeper_call:
  assumes "\<And>p. calm p \<Longrightarrow> 5 * todo p + 4 < n \<Longrightarrow> settles p (m p)" "deeper q" "\<And>x q'. deeper q' \<Longrightarrow> Q x q'"
  shows "wp (m q) Q"
proof -
  have "calm q" using calm0 assms(2) by (simp add: deeper_def leads_def)
  moreover have "5 * todo q + 4 < n" using fuel0 assms(2) by (simp add: deeper_def)
  ultimately show ?thesis using assms by (blast intro: wp_mono deeper_trans)
qed

text \<open>A recursive call before anything was read; the operation needs that much more fuel.\<close>

lemma entry_call:
  assumes "\<And>p. calm p \<Longrightarrow> 5 * todo p + k < n \<Longrightarrow> settles p (m p)" "leads p0 q" "5 * todo p0 + k < n"
    "\<And>x q'. leads p0 q' \<Longrightarrow> Q x q'"
  shows "wp (m q) Q"
proof -
  have "calm q" "5 * todo q + k < n" using calm0 assms(2,3) by (simp_all add: leads_def)
  then show ?thesis using assms(1,2,4) by (blast intro: wp_mono leads_trans)
qed

lemma primary_ok [vcg]: "deeper q \<Longrightarrow> (\<And>x q'. deeper q' \<Longrightarrow> Q x q') \<Longrightarrow> wp (k_primary r q) Q"
  by (rule deeper_call) (simp_all add: primary)

lemma brackets_ok [vcg]: "deeper q \<Longrightarrow> (\<And>x q'. deeper q' \<Longrightarrow> Q x q') \<Longrightarrow> wp (k_brackets r e q) Q"
  by (rule deeper_call) (simp_all add: brackets)

lemma calls_ok [vcg]: "deeper q \<Longrightarrow> (\<And>x q'. deeper q' \<Longrightarrow> Q x q') \<Longrightarrow> wp (k_calls r e q) Q"
  by (rule deeper_call) (simp_all add: calls)

lemma elems_ok [vcg]: "deeper q \<Longrightarrow> (\<And>x q'. deeper q' \<Longrightarrow> Q x q') \<Longrightarrow> wp (k_elems r c es q) Q"
  by (rule deeper_call) (simp_all add: elems)

lemma pairs_ok [vcg]: "deeper q \<Longrightarrow> (\<And>x q'. deeper q' \<Longrightarrow> Q x q') \<Longrightarrow> wp (k_pairs r ks vs q) Q"
  by (rule deeper_call) (simp_all add: pairs)

lemma fields_ok [vcg]: "deeper q \<Longrightarrow> (\<And>x q'. deeper q' \<Longrightarrow> Q x q') \<Longrightarrow> wp (k_fields r es q) Q"
  by (rule deeper_call) (simp_all add: fields)

lemma targets_ok [vcg]: "deeper q \<Longrightarrow> (\<And>x q'. deeper q' \<Longrightarrow> Q x q') \<Longrightarrow> wp (k_targets r i e q) Q"
  by (rule deeper_call) (simp_all add: targets)

lemma unary_ok [vcg]: "deeper q \<Longrightarrow> (\<And>x q'. deeper q' \<Longrightarrow> Q x q') \<Longrightarrow> wp (k_unary r q) Q"
  by (rule deeper_call) (simp_all add: unary)

lemma loop_ok [vcg]: "deeper q \<Longrightarrow> (\<And>x q'. deeper q' \<Longrightarrow> Q x q') \<Longrightarrow> wp (k_loop r e m q) Q"
  by (rule deeper_call) (simp_all add: loop)

lemma arms_ok [vcg]: "deeper q \<Longrightarrow> (\<And>x q'. deeper q' \<Longrightarrow> Q x q') \<Longrightarrow> wp (k_arms r es q) Q"
  by (rule deeper_call) (simp_all add: arms)

lemma binary_ok [vcg]: "deeper q \<Longrightarrow> (\<And>x q'. deeper q' \<Longrightarrow> Q x q') \<Longrightarrow> wp (k_binary r e m q) Q"
  by (rule deeper_call) (simp_all add: binary)

lemma args_ok [vcg]: "deeper q \<Longrightarrow> (\<And>x q'. deeper q' \<Longrightarrow> Q x q') \<Longrightarrow> wp (k_args r d es q) Q"
  by (rule deeper_call) (simp_all add: args)

lemma statement_ok [vcg]: "deeper q \<Longrightarrow> (\<And>x q'. deeper q' \<Longrightarrow> Q x q') \<Longrightarrow> wp (k_statement r q) Q"
  by (rule deeper_call) (simp_all add: statement)

lemma stmts_ok [vcg]: "deeper q \<Longrightarrow> (\<And>x q'. deeper q' \<Longrightarrow> Q x q') \<Longrightarrow> wp (k_stmts r es q) Q"
  by (rule deeper_call) (simp_all add: stmts)

lemma if_ok: "deeper q \<Longrightarrow> cur q = TokenIf \<Longrightarrow> (\<And>x q'. deeper q' \<Longrightarrow> Q x q') \<Longrightarrow> wp (k_if r q) Q"
  using ifs deeper_call [of "\<lambda>q. if cur q = TokenIf then k_if r q else Return NoNode q" q Q] by auto

lemma parseExpr_ok [vcg]: "deeper q \<Longrightarrow> (\<And>x q'. deeper q' \<Longrightarrow> Q x q') \<Longrightarrow> wp (parseExpr r q) Q"
  unfolding parseExpr_def by (rule binary_ok) simp_all

subsection \<open>Expressions\<close>

lemma keyword_paren_ok [vcg]:
  assumes "deeper (nextToken q)" "\<And>x q'. deeper q' \<Longrightarrow> Q x q'"
  shows "wp (keyword_paren r q) Q"
  using assms by (auto simp: keyword_paren_def Let_def case_prod_beta intro!: vcg)

lemma call_args_ok [vcg]:
  assumes "deeper q" "\<And>x q'. deeper q' \<Longrightarrow> Q x q'"
  shows "wp (call_args r c q) Q"
  using assms by (auto simp: call_args_def Let_def case_prod_beta intro!: vcg)

lemma elem_list_ok [vcg]:
  assumes "deeper q" "\<And>x q'. deeper q' \<Longrightarrow> Q x q'"
  shows "wp (elem_list r t c q) Q"
  using assms by (auto simp: elem_list_def Let_def case_prod_beta intro!: vcg)

lemma bracket_start_ok [vcg]:
  assumes "deeper q" "\<And>x q'. deeper q' \<Longrightarrow> Q x q'"
  shows "wp (bracket_start r q) Q"
  using assms by (auto simp: bracket_start_def Let_def case_prod_beta intro!: vcg)

lemma slice_end_ok [vcg]:
  assumes "deeper q" "\<And>x q'. deeper q' \<Longrightarrow> Q x q'"
  shows "wp (slice_end r q) Q"
  using assms by (auto simp: slice_end_def Let_def case_prod_beta intro!: vcg)

lemma parse_field_ok [vcg]:
  assumes "deeper q" "\<And>x q'. deeper q' \<Longrightarrow> Q x q'"
  shows "wp (parse_field r q) Q"
  using assms by (auto simp: parse_field_def Let_def case_prod_beta intro!: vcg)

lemma parseStructLiteralAfterBrace_ok [vcg]:
  assumes "deeper q" "\<And>x q'. deeper q' \<Longrightarrow> Q x q'"
  shows "wp (parseStructLiteralAfterBrace r t ts q) Q"
  using assms by (auto simp: parseStructLiteralAfterBrace_def Let_def case_prod_beta intro!: vcg)

lemma parseStructLiteral_ok [vcg]:
  assumes "deeper (nextToken q)" "\<And>x q'. deeper q' \<Longrightarrow> Q x q'"
  shows "wp (parseStructLiteral r t q) Q"
  using assms by (auto simp: parseStructLiteral_def Let_def case_prod_beta intro!: vcg)

lemma ident_dot_ok [vcg]:
  assumes "deeper (nextToken q)" "\<And>x q'. deeper q' \<Longrightarrow> Q x q'"
  shows "wp (ident_dot r i c q) Q"
  using assms by (auto simp: ident_dot_def Let_def case_prod_beta intro!: vcg)

lemma ident_call_ok [vcg]:
  assumes "deeper (nextToken q)" "\<And>x q'. deeper q' \<Longrightarrow> Q x q'"
  shows "wp (ident_call r i c q) Q"
  using assms by (auto simp: ident_call_def Let_def case_prod_beta intro!: vcg)

lemma ident_tail_ok [vcg]:
  assumes "deeper q" "\<And>x q'. deeper q' \<Longrightarrow> Q x q'"
  shows "wp (ident_tail r i c q) Q"
  using assms by (auto simp: ident_tail_def Let_def case_prod_beta intro!: vcg)

lemma parseArrayLiteral_ok [vcg]:
  assumes "deeper (nextToken q)" "\<And>x q'. deeper q' \<Longrightarrow> Q x q'"
  shows "wp (parseArrayLiteral r q) Q"
  using assms by (auto simp: parseArrayLiteral_def Let_def case_prod_beta intro!: vcg)

lemma parse_pair_ok [vcg]:
  assumes "deeper q" "\<And>x q'. deeper q' \<Longrightarrow> Q x q'"
  shows "wp (parse_pair r q) Q"
  using assms by (auto simp: parse_pair_def Let_def case_prod_beta intro!: vcg)

lemma parseMapLiteral_ok [vcg]:
  assumes "deeper (nextToken q)" "\<And>x q'. deeper q' \<Longrightarrow> Q x q'"
  shows "wp (parseMapLiteral r q) Q"
  using assms by (auto simp: parseMapLiteral_def Let_def case_prod_beta intro!: vcg)

lemma parseMeasure_ok [vcg]:
  assumes "deeper (nextToken q)" "\<And>x q'. deeper q' \<Longrightarrow> Q x q'"
  shows "wp (parseMeasure r q) Q"
  using assms by (auto simp: parseMeasure_def Let_def case_prod_beta intro!: vcg)

lemma parseAlloc_ok [vcg]:
  assumes "deeper (nextToken q)" "\<And>x q'. deeper q' \<Longrightarrow> Q x q'"
  shows "wp (parseAlloc r q) Q"
  using assms by (auto simp: parseAlloc_def Let_def case_prod_beta intro!: vcg)

lemma parseFree_ok [vcg]:
  assumes "deeper (nextToken q)" "\<And>x q'. deeper q' \<Longrightarrow> Q x q'"
  shows "wp (parseFree r q) Q"
  using assms by (auto simp: parseFree_def Let_def case_prod_beta intro!: vcg)

lemma parse_at_builtin_ok [vcg]:
  assumes "deeper (nextToken q)" "\<And>x q'. deeper q' \<Longrightarrow> Q x q'"
  shows "wp (parse_at_builtin r q) Q"
  using assms by (auto simp: parse_at_builtin_def Let_def case_prod_beta intro!: vcg)

lemma parse_at_ok [vcg]:
  assumes "deeper (nextToken q)" "\<And>x q'. deeper q' \<Longrightarrow> Q x q'"
  shows "wp (parse_at r q) Q"
  using assms by (auto simp: parse_at_def Let_def case_prod_beta intro!: vcg)

lemma parse_borrow_ok [vcg]:
  assumes "deeper (nextToken q)" "\<And>x q'. deeper q' \<Longrightarrow> Q x q'"
  shows "wp (parse_borrow r q) Q"
  using assms by (auto simp: parse_borrow_def Let_def case_prod_beta intro!: vcg)

lemma parseKeywordCall_ok [vcg]:
  assumes "deeper q" "\<And>x q'. deeper q' \<Longrightarrow> Q x q'"
  shows "wp (parseKeywordCall r m q) Q"
  using assms by (auto simp: parseKeywordCall_def Let_def case_prod_beta intro!: vcg)

lemma parseSpawn_ok [vcg]:
  assumes "deeper (nextToken q)" "\<And>x q'. deeper q' \<Longrightarrow> Q x q'"
  shows "wp (parseSpawn r q) Q"
  using assms by (auto simp: parseSpawn_def Let_def case_prod_beta intro!: vcg)

lemma parseReceiveChannel_ok [vcg]:
  assumes "deeper (nextToken q)" "\<And>x q'. deeper q' \<Longrightarrow> Q x q'"
  shows "wp (parseReceiveChannel r q) Q"
  using assms by (auto simp: parseReceiveChannel_def Let_def case_prod_beta intro!: vcg)

lemma wrap_paren_ok [vcg]:
  assumes "deeper (nextToken q)" "\<And>x q'. deeper q' \<Longrightarrow> Q x q'"
  shows "wp (wrap_paren r w q) Q"
  using assms by (auto simp: wrap_paren_def Let_def case_prod_beta intro!: vcg)

lemma parse_literal_ok [vcg]:
  assumes "deeper (nextToken q)" "\<And>x q'. deeper q' \<Longrightarrow> Q x q'"
  shows "wp (parse_literal mk q) Q"
  using assms by (auto simp: parse_literal_def Let_def case_prod_beta intro!: vcg)

lemma bool_literal_ok [vcg]:
  assumes "deeper (nextToken q)" "\<And>x q'. deeper q' \<Longrightarrow> Q x q'"
  shows "wp (bool_literal b q) Q"
  using assms by (auto simp: bool_literal_def Let_def case_prod_beta intro!: vcg)

lemma deeper_generic: "tryGenericArgs t q = Some (a, q') \<Longrightarrow> deeper q \<Longrightarrow> deeper q'"
  using deeper_trans leads_tryGenericArgs by blast

lemma parseIdentExpr_ok [vcg]:
  assumes "deeper (nextToken q)" "\<And>x q'. deeper q' \<Longrightarrow> Q x q'"
  shows "wp (parseIdentExpr r q) Q"
  using assms
  by (auto simp: parseIdentExpr_def Let_def intro!: vcg split: option.split elim: deeper_generic)

lemma deeper_group: "deeper (nextToken q) \<Longrightarrow> deeper (nextToken (q\<lparr>ps_ifCond := b\<rparr>))"
  by (cases "NextToken (ps_l q)") (simp add: nextToken_def deeper_def leads_def calm_def grows_def todo_def)

lemma parse_group_ok [vcg]:
  assumes "deeper (nextToken q)" "\<And>x q'. deeper q' \<Longrightarrow> Q x q'"
  shows "wp (parse_group r q) Q"
  using assms by (auto simp: parse_group_def Let_def intro!: vcg deeper_group)

lemma deeper_pure [simp]:
  "deeper (nextToken q) \<Longrightarrow> deeper (snd (parseGlobalIDExpr q))" "deeper q \<Longrightarrow> deeper (snd (paren_binding q))"
  "deeper (nextToken q) \<Longrightarrow> deeper (snd (name_pattern q))" "deeper (nextToken q) \<Longrightarrow> deeper (snd (parseBarrierStmt q))"
  "deeper q \<Longrightarrow> deeper (snd (param_type q))" "deeper (nextToken q) \<Longrightarrow> deeper (snd (parseSIMDVectorType q))"
  "deeper q \<Longrightarrow> deeper (snd (tryParseAlignAttr q))"
  by (simp_all add: parseGlobalIDExpr_def paren_binding_def name_pattern_def parseBarrierStmt_def param_type_def
      parseSIMDVectorType_def tryParseAlignAttr_def Let_def case_prod_beta)

lemma parseBlock_ok [vcg]:
  assumes "deeper q" "\<And>x q'. deeper q' \<Longrightarrow> Q x q'"
  shows "wp (parseBlock r q) Q"
  using assms by (auto simp: parseBlock_def Let_def case_prod_beta intro!: vcg)

lemma braced_block_ok [vcg]:
  assumes "deeper (nextToken q)" "\<And>x q'. deeper q' \<Longrightarrow> Q x q'"
  shows "wp (braced_block r q) Q"
  using assms by (auto simp: braced_block_def Let_def case_prod_beta intro!: vcg)

lemma parseLambda_ok [vcg]:
  assumes "deeper (nextToken q)" "\<And>x q'. deeper q' \<Longrightarrow> Q x q'"
  shows "wp (parseLambda r q) Q"
  using assms by (auto simp: parseLambda_def Let_def case_prod_beta intro!: vcg)

lemma match_value_ok [vcg]:
  assumes "deeper q" "\<And>x q'. deeper q' \<Longrightarrow> Q x q'"
  shows "wp (match_value r q) Q"
  using assms by (auto simp: match_value_def Let_def case_prod_beta intro!: vcg)

lemma match_pattern_ok [vcg]:
  assumes "deeper q" "\<And>x q'. deeper q' \<Longrightarrow> Q x q'"
  shows "wp (match_pattern r q) Q"
  using assms by (auto simp: match_pattern_def Let_def case_prod_beta intro!: vcg)

lemma arm_body_ok [vcg]:
  assumes "deeper q" "\<And>x q'. deeper q' \<Longrightarrow> Q x q'"
  shows "wp (arm_body r q) Q"
  using assms by (auto simp: arm_body_def Let_def case_prod_beta intro!: vcg)

lemma parseMatchExpr_ok [vcg]:
  assumes "deeper (nextToken q)" "\<And>x q'. deeper q' \<Longrightarrow> Q x q'"
  shows "wp (parseMatchExpr r q) Q"
  using assms by (auto simp: parseMatchExpr_def Let_def case_prod_beta intro!: vcg)

lemma parsePrimaryExpr_ok:
  assumes "leads p0 q"
  shows "wp (parsePrimaryExpr r q) (\<lambda>_. leads p0)"
  using assms by (auto simp: parsePrimaryExpr_def Let_def case_prod_beta intro!: vcg deeper_leads)

subsection \<open>Statements\<close>

lemma deeper_types [simp]:
  "deeper q \<Longrightarrow> deeper (snd (snd (colon_type q)))" "deeper q \<Longrightarrow> deeper (snd (snd (var_type q)))"
  by (simp_all add: colon_type_def var_type_def Let_def case_prod_beta)

lemma parseMatrixDeclInternal_ok [vcg]:
  assumes "deeper (nextToken q)" "\<And>x q'. deeper q' \<Longrightarrow> Q x q'"
  shows "wp (parseMatrixDeclInternal r q) Q"
  using assms by (auto simp: parseMatrixDeclInternal_def Let_def case_prod_beta intro!: vcg)

lemma parseVarDecl_ok [vcg]:
  assumes "deeper (nextToken q)" "\<And>x q'. deeper q' \<Longrightarrow> Q x q'"
  shows "wp (parseVarDecl r q) Q"
  using assms by (auto simp: parseVarDecl_def Let_def case_prod_beta intro!: vcg)

lemma parseMatrixDecl_ok [vcg]:
  assumes "deeper (nextToken q)" "\<And>x q'. deeper q' \<Longrightarrow> Q x q'"
  shows "wp (parseMatrixDecl r q) Q"
  using assms by (auto simp: parseMatrixDecl_def Let_def case_prod_beta intro!: vcg)

lemma parseQRegDecl_ok [vcg]:
  assumes "deeper (nextToken q)" "\<And>x q'. deeper q' \<Longrightarrow> Q x q'"
  shows "wp (parseQRegDecl r q) Q"
  using assms by (auto simp: parseQRegDecl_def Let_def case_prod_beta intro!: vcg)

lemma parsePrint_ok [vcg]:
  assumes "deeper (nextToken q)" "\<And>x q'. deeper q' \<Longrightarrow> Q x q'"
  shows "wp (parsePrint r q) Q"
  using assms by (auto simp: parsePrint_def Let_def case_prod_beta intro!: vcg)

lemma parseReturn_ok [vcg]:
  assumes "deeper (nextToken q)" "\<And>x q'. deeper q' \<Longrightarrow> Q x q'"
  shows "wp (parseReturn r q) Q"
  using assms by (auto simp: parseReturn_def Let_def case_prod_beta intro!: vcg)

lemma parseReceive_ok [vcg]:
  assumes "deeper (nextToken q)" "\<And>x q'. deeper q' \<Longrightarrow> Q x q'"
  shows "wp (parseReceive r q) Q"
  using assms by (auto simp: parseReceive_def Let_def case_prod_beta intro!: vcg)

lemma parseAddrOf_ok [vcg]:
  assumes "deeper (nextToken q)" "\<And>x q'. deeper q' \<Longrightarrow> Q x q'"
  shows "wp (parseAddrOf r q) Q"
  using assms by (auto simp: parseAddrOf_def Let_def case_prod_beta intro!: vcg)

lemma parseBareGateApply_ok [vcg]:
  assumes "deeper q" "\<And>x q'. deeper q' \<Longrightarrow> Q x q'"
  shows "wp (parseBareGateApply r g q) Q"
  using assms by (auto simp: parseBareGateApply_def Let_def case_prod_beta intro!: vcg)

lemma parseGateApply_ok [vcg]:
  assumes "deeper (nextToken q)" "\<And>x q'. deeper q' \<Longrightarrow> Q x q'"
  shows "wp (parseGateApply r q) Q"
  using assms by (auto simp: parseGateApply_def Let_def case_prod_beta intro!: vcg)

lemma parse_condition_ok [vcg]:
  assumes "deeper q" "\<And>x q'. deeper q' \<Longrightarrow> Q x q'"
  shows "wp (parse_condition r k q) Q"
  using assms by (auto simp: parse_condition_def Let_def case_prod_beta intro!: vcg)

lemma parseWhile_ok [vcg]:
  assumes "deeper (nextToken q)" "\<And>x q'. deeper q' \<Longrightarrow> Q x q'"
  shows "wp (parseWhile r q) Q"
  using assms by (auto simp: parseWhile_def Let_def case_prod_beta intro!: vcg)

lemma parseIf_ok [vcg]:
  assumes "deeper (nextToken q)" "\<And>x q'. deeper q' \<Longrightarrow> Q x q'"
  shows "wp (parseIf r q) Q"
  using assms by (auto simp: parseIf_def Let_def case_prod_beta intro!: vcg if_ok)

lemma for_body_ok [vcg]:
  assumes "deeper q" "\<And>x q'. deeper q' \<Longrightarrow> Q x q'"
  shows "wp (for_body r q) Q"
  using assms by (auto simp: for_body_def Let_def case_prod_beta intro!: vcg)

lemma for_in_ok [vcg]:
  assumes "deeper q" "\<And>x q'. deeper q' \<Longrightarrow> Q x q'"
  shows "wp (for_in r q) Q"
  using assms by (auto simp: for_in_def Let_def case_prod_beta intro!: vcg)

lemma for_in_key_ok [vcg]:
  assumes "deeper q" "\<And>x q'. deeper q' \<Longrightarrow> Q x q'"
  shows "wp (for_in_key r q) Q"
  using assms by (auto simp: for_in_key_def Let_def case_prod_beta intro!: vcg)

lemma for_classic_ok [vcg]:
  assumes "deeper q" "\<And>x q'. deeper q' \<Longrightarrow> Q x q'"
  shows "wp (for_classic r l q) Q"
  using assms by (auto simp: for_classic_def Let_def case_prod_beta intro!: vcg)

lemma parseFor_ok [vcg]:
  assumes "deeper (nextToken q)" "\<And>x q'. deeper q' \<Longrightarrow> Q x q'"
  shows "wp (parseFor r q) Q"
  using assms by (auto simp: parseFor_def Let_def case_prod_beta intro!: vcg)

lemma assignment_ok [vcg]:
  assumes "deeper (nextToken q)" "\<And>x q'. deeper q' \<Longrightarrow> Q x q'"
  shows "wp (assignment r b q) Q"
  using assms by (auto simp: assignment_def Let_def case_prod_beta intro!: vcg)

lemma index_statement_ok [vcg]:
  assumes "deeper q" "\<And>x q'. deeper q' \<Longrightarrow> Q x q'"
  shows "wp (index_statement r i l q) Q"
  using assms by (auto simp: index_statement_def Let_def case_prod_beta intro!: vcg)

lemma dot_statement_ok [vcg]:
  assumes "deeper (nextToken q)" "\<And>x q'. deeper q' \<Longrightarrow> Q x q'"
  shows "wp (dot_statement r i c l e q) Q"
  using assms by (auto simp: dot_statement_def Let_def case_prod_beta intro!: vcg)

lemma parseIdentStatement_ok [vcg]:
  assumes "deeper (nextToken q)" "\<And>x q'. deeper q' \<Longrightarrow> Q x q'"
  shows "wp (parseIdentStatement r q) Q"
  using assms by (auto simp: parseIdentStatement_def Let_def case_prod_beta intro!: vcg)

lemma parseCImport_ok [vcg]:
  assumes "deeper (nextToken q)" "\<And>x q'. deeper q' \<Longrightarrow> Q x q'"
  shows "wp (parseCImport q) Q"
  using assms by (auto simp: parseCImport_def Let_def split: list.split)

lemma as_stmt_ok: "wp m (\<lambda>_. leads p0) \<Longrightarrow> wp (as_stmt_opt i m) (\<lambda>_. leads p0)"
  by (simp add: as_stmt_opt_def)

lemma parseStatement_ok:
  assumes "leads p0 q" "\<not> hangs (cur q)" "5 * todo p0 + 2 < n"
  shows "wp (parseStatement r q) (\<lambda>_. leads p0)"
proof -
  have expr: "wp (parseExpr r (SetLine q)) (\<lambda>_. leads p0)"
    unfolding parseExpr_def by (rule entry_call [where k = 2]) (use assms in \<open>simp_all add: binary\<close>)
  show ?thesis using assms expr
    by (auto simp: parseStatement_def Let_def case_prod_beta hangs_def as_stmt_def deeper_leads
        intro!: vcg as_stmt_ok parsePrimaryExpr_ok)
qed

subsection \<open>Loops\<close>

text \<open>A round of a loop over expressions reads something, by the check for stalls if by nothing else.\<close>

lemma deeper_stalled:
  assumes "leads p0 q" "cur p0 \<noteq> TokenEOF"
  shows "deeper (advanceIfStalled (tk_Start (ps_cur p0)) c q)"
proof (cases "todo q < todo p0")
  case True
  then have "deeper q" using assms by (simp add: deeper_def)
  then show ?thesis by simp
next
  case False
  then have "ps_cur q = ps_cur p0" using assms by (auto simp: leads_def)
  then show ?thesis using assms by (simp add: advanceIfStalled_def)
qed

lemma args_loop_ok:
  assumes "5 * todo p0 + 2 < n"
  shows "settles p0 (args_loop r c es p0)"
proof -
  have "wp (parseExpr r p0) (\<lambda>e p. wp (k_args r c (es @ [e]) (advanceIfStalled (tk_Start (ps_cur p0)) c (skip_if TokenComma p))) (\<lambda>_. leads p0))"
    if "cur p0 \<noteq> TokenEOF"
    unfolding parseExpr_def
    by (rule entry_call [where k = 2]) (use assms that in \<open>auto simp: binary deeper_stalled intro!: vcg deeper_leads\<close>)
  then show ?thesis by (simp add: args_loop_def Let_def)
qed

lemma stmts_loop_ok:
  assumes "5 * todo p0 + 3 < n"
  shows "settles p0 (stmts_loop r es p0)"
proof -
  let ?next = "\<lambda>p. if tk_Start (ps_cur p) = tk_Start (ps_cur p0) then nextToken p else p"
  have onward: "deeper (?next q)" if "leads p0 q" "cur p0 \<noteq> TokenEOF" for q
  proof (cases "todo q < todo p0")
    case True
    then have "deeper q" using that by (simp add: deeper_def)
    then show ?thesis by simp
  next
    case False
    then have "ps_cur q = ps_cur p0" using that by (auto simp: leads_def)
    then show ?thesis using that by simp
  qed
  have "wp (k_statement r p0) (\<lambda>s p. wp (k_stmts r (if is_nil s then es else es @ [s]) (?next (skip_if TokenSemicolon p))) (\<lambda>_. leads p0))"
    if ne: "cur p0 \<noteq> TokenEOF"
  proof (rule entry_call [where k = 3])
    show "wp (k_stmts r (if is_nil s then es else es @ [s]) (?next (skip_if TokenSemicolon q))) (\<lambda>_. leads p0)"
      if "leads p0 q" for s q
      by (rule stmts_ok [OF onward [OF leads_skip(1) [OF that] ne] deeper_leads])
  qed (use assms in \<open>simp_all add: statement\<close>)
  then show ?thesis by (simp add: stmts_loop_def Let_def)
qed

lemma elems_loop_ok: "settles p0 (elems_loop r c es p0)"
  by (auto simp: elems_loop_def Let_def intro!: vcg deeper_leads split: option.split)

lemma pairs_loop_ok: "settles p0 (pairs_loop r ks vs p0)"
  by (auto simp: pairs_loop_def Let_def case_prod_beta intro!: vcg deeper_leads)

lemma fields_loop_ok: "settles p0 (fields_loop r es p0)"
  by (auto simp: fields_loop_def intro!: vcg deeper_leads)

lemma targets_loop_ok: "settles p0 (targets_loop r i e p0)"
  by (auto simp: targets_loop_def intro!: vcg deeper_leads)

lemma brackets_loop_ok: "settles p0 (brackets_loop r e p0)"
  by (auto simp: brackets_loop_def Let_def intro!: vcg deeper_leads)

lemma calls_loop_ok: "settles p0 (calls_loop r e p0)"
  by (auto simp: calls_loop_def Let_def intro!: vcg deeper_leads)

lemma arms_loop_ok:
  assumes "5 * todo p0 < n"
  shows "settles p0 (arms_loop r es p0)"
proof -
  have pat: "wp (match_pattern r p0) (\<lambda>_ q. leads p0 q \<and> (cur p0 \<noteq> TokenEOF \<longrightarrow> deeper (nextToken q)))"
  proof -
    have "leads p0 q \<Longrightarrow> cur p0 \<noteq> TokenEOF \<Longrightarrow> deeper (nextToken q)" for q
      using nextToken_lt [of q] nextToken_le [of q] leads_next' [of p0 q] by (auto simp: deeper_def leads_def)
    moreover have "wp (match_pattern r p0) (\<lambda>_. leads p0)"
      using entry_call [where k = 0 and m = "k_primary r" and q = p0] assms primary
      by (auto simp: match_pattern_def Let_def case_prod_beta deeper_leads)
    ultimately show ?thesis by (auto elim: wp_mono)
  qed
  have next_error: "deeper (nextToken q) \<Longrightarrow> deeper (nextToken (addError msg q))" for q msg
    by (cases "NextToken (ps_l q)") (auto simp: nextToken_def deeper_def leads_def calm_def grows_def todo_def addError_def)
  show ?thesis
    by (auto simp: arms_loop_def Let_def intro!: wp_mono [OF pat] vcg deeper_leads next_error)
qed

lemma parseUnary_ok:
  assumes "5 * todo p0 < n"
  shows "settles p0 (parseUnary r p0)"
  using assms primary [OF calm0] by (auto simp: parseUnary_def Let_def intro!: vcg deeper_leads)

lemma parseBinaryExpr_ok:
  assumes "5 * todo p0 + 1 < n"
  shows "settles p0 (parseBinaryExpr r e m p0)"
proof -
  have "wp (k_loop r x m q) (\<lambda>_. leads p0)" if "leads p0 q" for x q
    by (rule entry_call [where k = 1]) (use assms that in \<open>simp_all add: loop\<close>)
  then have "wp (k_unary r p0) (\<lambda>x p. wp (k_loop r x m p) (\<lambda>_. leads p0))"
    by (rule entry_call [where k = 1, rotated 3]) (use assms in \<open>simp_all add: unary\<close>)
  then show ?thesis using assms loop [OF calm0] by (simp add: parseBinaryExpr_def)
qed

lemma binary_op_not_end: "binary_op_of t \<noteq> [] \<Longrightarrow> t \<noteq> TokenEOF"
  by (auto simp: binary_op_of_def binary_ops_def)

lemma binary_round_ok: "leads p0 q \<Longrightarrow> wp (binary_round r e m q) (\<lambda>_. leads p0)"
  by (auto simp: binary_round_def Let_def binary_op_not_end intro!: vcg deeper_leads)

lemma binary_loop_ok:
  assumes "5 * todo p0 < n"
  shows "settles p0 (binary_loop r e m p0)"
proof -
  let ?round = "\<lambda>x p. binary_round r (fst (postfix_question (fst (postfix_at x p)) (snd (postfix_at x p)))) m
    (snd (postfix_question (fst (postfix_at x p)) (snd (postfix_at x p))))"
  have "wp (k_calls r x q) (\<lambda>x p. wp (?round x p) (\<lambda>_. leads p0))" if "leads p0 q" for x q
    by (rule entry_call [where k = 0]) (use assms that in \<open>simp_all add: calls binary_round_ok\<close>)
  then have "wp (k_brackets r e p0) (\<lambda>x p. wp (k_calls r x p) (\<lambda>x p. wp (?round x p) (\<lambda>_. leads p0)))"
    by (rule entry_call [where k = 0, rotated 3]) (use assms in \<open>simp_all add: brackets\<close>)
  then show ?thesis by (simp add: binary_loop_def Let_def case_prod_beta)
qed

lemma parseIf_entry: "cur p0 = TokenIf \<Longrightarrow> settles p0 (parseIf r p0)"
  by (rule parseIf_ok) (simp_all add: deeper_leads)

subsection \<open>Declarations\<close>

lemma deeper_generic_params [simp]: "deeper q \<Longrightarrow> deeper (snd (parseGenericParams q))"
  using deeper_trans [of "nextToken q" "snd (gparams_loop [] (nextToken q))"] leads_gparams_loop
  by (simp add: parseGenericParams_def Let_def case_prod_beta)

lemma deeper_decls [simp]:
  "deeper q \<Longrightarrow> deeper (snd (struct_fields b fs q))" "deeper q \<Longrightarrow> deeper (snd (enum_variants vs q))"
  "deeper q \<Longrightarrow> deeper (snd (import_path a i q))"
  by (erule deeper_trans; simp add: leads_struct_fields leads_enum_variants leads_import_path)+

lemma deeper_pure_decls [simp]:
  "deeper (nextToken q) \<Longrightarrow> deeper (snd (parseStructDecl q))" "deeper (nextToken q) \<Longrightarrow> deeper (snd (parseEnumDecl q))"
  "deeper (nextToken q) \<Longrightarrow> deeper (snd (parseLinearTypeDecl q))" "deeper (nextToken q) \<Longrightarrow> deeper (snd (parsePackedStructDecl q))"
  "deeper (nextToken q) \<Longrightarrow> deeper (snd (parseModuleImport q))"
  by (simp_all add: parseStructDecl_def parseEnumDecl_def parseLinearTypeDecl_def parsePackedStructDecl_def
      parseModuleImport_def Let_def case_prod_beta)

lemma parseFunc_ok [vcg]:
  assumes "deeper (nextToken q)" "\<And>x q'. deeper q' \<Longrightarrow> Q x q'"
  shows "wp (parseFunc r q) Q"
  using assms by (auto simp: parseFunc_def Let_def case_prod_beta intro!: vcg)

lemma parseActor_ok [vcg]:
  assumes "deeper (nextToken q)" "\<And>x q'. deeper q' \<Longrightarrow> Q x q'"
  shows "wp (parseActor r q) Q"
  using assms by (auto simp: parseActor_def Let_def case_prod_beta intro!: vcg)

lemma parseKernel_ok [vcg]:
  assumes "deeper (nextToken q)" "\<And>x q'. deeper q' \<Longrightarrow> Q x q'"
  shows "wp (parseKernel r q) Q"
  using assms by (auto simp: parseKernel_def Let_def case_prod_beta intro!: vcg)

lemma target_error_ok [vcg]:
  assumes "deeper q" "\<And>x q'. deeper q' \<Longrightarrow> Q x q'"
  shows "wp (target_error m q) Q"
  using assms by (auto simp: target_error_def Let_def case_prod_beta intro!: vcg)

lemma parseTargetAttr_ok [vcg]:
  assumes "deeper (nextToken q)" "\<And>x q'. deeper q' \<Longrightarrow> Q x q'"
  shows "wp (parseTargetAttr r q) Q"
  using assms by (auto simp: parseTargetAttr_def Let_def case_prod_beta intro!: vcg)

lemma public_decl_ok [vcg]:
  assumes "deeper (nextToken q)" "\<And>x q'. deeper q' \<Longrightarrow> Q x q'"
  shows "wp (public_decl r g q) Q"
  using assms by (auto simp: public_decl_def Let_def case_prod_beta intro!: vcg)

lemma parse_decl_ok:
  assumes "cur p0 \<noteq> TokenEOF"
  shows "wp (parse_decl r prog p0) (\<lambda>_. deeper)"
proof -
  have "\<not> hangs (cur p0)" using calm0 by (simp add: calm_def)
  then show ?thesis using assms
    by (auto simp: parse_decl_def import_decl_def Let_def case_prod_beta hangs_def intro!: vcg)
qed

end

section \<open>The recursion ends\<close>

lemma descent_at: "fuelled r n \<Longrightarrow> calm p \<Longrightarrow> 5 * todo p \<le> n \<Longrightarrow> descent r n p"
  by (simp add: descent_def descent_axioms_def)

lemma fuelled_calls_at: "fuelled (calls_at n) n"
proof (induction n)
  case 0
  show ?case by unfold_locales simp_all
next
  case (Suc n)
  note d = descent_at [OF Suc.IH]
  show ?case
  proof (unfold_locales, goal_cases)
    case (1 p)
    then show ?case using descent.parsePrimaryExpr_ok [OF d, of p p] by (simp add: Let_def)
  next
    case (2 p e)
    then show ?case using descent.brackets_loop_ok [OF d, of p] by (simp add: Let_def)
  next
    case (3 p e)
    then show ?case using descent.calls_loop_ok [OF d, of p] by (simp add: Let_def)
  next
    case (4 p c es)
    then show ?case using descent.elems_loop_ok [OF d, of p] by (simp add: Let_def)
  next
    case (5 p ks vs)
    then show ?case using descent.pairs_loop_ok [OF d, of p] by (simp add: Let_def)
  next
    case (6 p es)
    then show ?case using descent.fields_loop_ok [OF d, of p] by (simp add: Let_def)
  next
    case (7 p i e)
    then show ?case using descent.targets_loop_ok [OF d, of p] by (simp add: Let_def)
  next
    case (8 p)
    then show ?case using descent.parseIf_entry [OF d, of p] by (simp add: Let_def)
  next
    case (9 p)
    then show ?case using descent.parseUnary_ok [OF d, of p] by (simp add: Let_def)
  next
    case (10 p e m)
    then show ?case using descent.binary_loop_ok [OF d, of p] by (simp add: Let_def)
  next
    case (11 p es)
    then show ?case using descent.arms_loop_ok [OF d, of p] by (simp add: Let_def)
  next
    case (12 p e m)
    then show ?case using descent.parseBinaryExpr_ok [OF d, of p] by (simp add: Let_def)
  next
    case (13 p c es)
    then show ?case using descent.args_loop_ok [OF d, of p] by (simp add: Let_def)
  next
    case (14 p)
    then show ?case using descent.parseStatement_ok [OF d, of p p] by (simp add: Let_def calm_def)
  next
    case (15 p es)
    then show ?case using descent.stmts_loop_ok [OF d, of p] by (simp add: Let_def)
  qed
qed

interpretation knot: fuelled "calls_at n" n for n
  by (rule fuelled_calls_at)

text \<open>The states in which the operations are entered on a text without macros; the contract of the
  descent holds in each of them, with any fuel that is enough for the tokens ahead.\<close>

typedef calm_state = "{p. calm p}"
  morphisms state Calm
proof -
  have "calm \<lparr>ps_l = New [], ps_cur = no_token, ps_peek = no_token, ps_src = [], ps_line = 0, ps_Errors = [],
      ps_ErrorCols = [], ps_enumNames = {}, ps_ifCond = False\<rparr>"
    by (simp add: calm_def no_token_def hangs_def plain_text_def New_def Let_def Contains_iff)
  then show ?thesis by blast
qed

interpretation entry: descent "calls_at (k + 5 * todo (state s))" "k + 5 * todo (state s)" "state s" for k s
  using state [of s] by (intro descent_at knot.fuelled_axioms) simp_all

lemma program_loop_total: "calm p \<Longrightarrow> 5 * todo p < n \<Longrightarrow> settles p (program_loop n prog p)"
proof (induction n arbitrary: prog p)
  case (Suc n)
  show ?case
  proof (cases "cur p = TokenEOF")
    case False
    obtain s where s: "p = state s" using Suc.prems(1) by (metis Calm_inverse mem_Collect_eq)
    define k where "k = n - 5 * todo p"
    then have n: "n = k + 5 * todo (state s)" using Suc.prems by (simp add: s)
    have "settles p (program_loop n prog' q)" if "entry.deeper s q" for prog' q
    proof -
      have "leads p q" "todo q < todo p" using that by (simp_all add: entry.deeper_def s)
      then have "settles q (program_loop n prog' q)" using Suc.prems by (intro Suc.IH) (simp_all add: leads_def)
      then show ?thesis using \<open>leads p q\<close> by (blast intro: wp_mono leads_trans)
    qed
    moreover have "wp (parse_decl (calls_at n) prog p) (\<lambda>_. entry.deeper s)"
      unfolding n using False by (simp add: s entry.parse_decl_ok)
    ultimately show ?thesis using False by (auto elim: wp_mono)
  qed simp
qed simp

end
