(* ===== verification/Parser_Fuel.thy ===== *)
theory Parser_Fuel
  imports Parser
begin

text \<open>
  Fuel is only a bound: an operation that returns or panics does the same with more fuel.  The locale
  \<open>more_fuel\<close> is the relation between the calls of two amounts of fuel; every operation keeps it.
\<close>

section \<open>Approximation\<close>

named_theorems fuel_mono \<open>operations with more fuel\<close>

definition approx :: "'a outcome \<Rightarrow> 'a outcome \<Rightarrow> bool" where
  "approx m m' \<longleftrightarrow> m = NoFuel \<or> m' = m"

lemma approx_refl [simp]: "approx m m"
  by (simp add: approx_def)

lemma approx_NoFuel [simp]: "approx NoFuel m"
  by (simp add: approx_def)

lemma approx_trans: "approx a b \<Longrightarrow> approx b c \<Longrightarrow> approx a c"
  by (auto simp: approx_def)

lemma approx_andThen [fuel_mono]: "approx m m' \<Longrightarrow> (\<And>x p. approx (f x p) (f' x p)) \<Longrightarrow> approx (andThen m f) (andThen m' f')"
  by (cases m) (auto simp: approx_def)

lemma approx_if [fuel_mono]: "(b \<Longrightarrow> approx m m') \<Longrightarrow> (\<not> b \<Longrightarrow> approx k k') \<Longrightarrow> approx (if b then m else k) (if b then m' else k')"
  by simp

lemma approx_option [fuel_mono]: "(\<And>x. approx (f x) (f' x)) \<Longrightarrow> approx m m' \<Longrightarrow> approx (case z of None \<Rightarrow> m | Some x \<Rightarrow> f x) (case z of None \<Rightarrow> m' | Some x \<Rightarrow> f' x)"
  by (cases z) simp_all

lemma approx_prod [fuel_mono]: "(\<And>x y. approx (f x y) (f' x y)) \<Longrightarrow> approx (case z of (x, y) \<Rightarrow> f x y) (case z of (x, y) \<Rightarrow> f' x y)"
  by (cases z) simp

lemma approx_prod_fun [fuel_mono]:
  "(\<And>x y. approx (f x y p) (f' x y p)) \<Longrightarrow> approx ((case z of (x, y) \<Rightarrow> f x y) p) ((case z of (x, y) \<Rightarrow> f' x y) p)"
  by (cases z) simp

lemma approx_let [fuel_mono]: "(\<And>x. approx (f x) (f' x)) \<Longrightarrow> approx (let x = z in f x) (let x = z in f' x)"
  by simp

locale more_fuel =
  fixes r r' :: calls
  assumes binary_more: "approx (k_binary r e m p) (k_binary r' e m p)"
    and loop_more: "approx (k_loop r e m p) (k_loop r' e m p)"
    and unary_more: "approx (k_unary r p) (k_unary r' p)"
    and primary_more: "approx (k_primary r p) (k_primary r' p)"
    and brackets_more: "approx (k_brackets r e p) (k_brackets r' e p)"
    and calls_more: "approx (k_calls r e p) (k_calls r' e p)"
    and args_more: "approx (k_args r d es p) (k_args r' d es p)"
    and elems_more: "approx (k_elems r c es p) (k_elems r' c es p)"
    and pairs_more: "approx (k_pairs r ks vs p) (k_pairs r' ks vs p)"
    and fields_more: "approx (k_fields r es p) (k_fields r' es p)"
    and arms_more: "approx (k_arms r es p) (k_arms r' es p)"
    and targets_more: "approx (k_targets r i e p) (k_targets r' i e p)"
    and stmts_more: "approx (k_stmts r es p) (k_stmts r' es p)"
    and statement_more: "approx (k_statement r p) (k_statement r' p)"
    and if_more: "approx (k_if r p) (k_if r' p)"
    and mparams_more: "approx (k_mparams r ps p) (k_mparams r' ps p)"
    and mstmts_more: "approx (k_mstmts r es p) (k_mstmts r' es p)"
begin

lemmas laws [fuel_mono] =
  binary_more loop_more unary_more primary_more brackets_more calls_more args_more elems_more pairs_more fields_more arms_more targets_more stmts_more statement_more if_more mparams_more mstmts_more

lemma parseExpr_more [fuel_mono]: "approx (parseExpr r p) (parseExpr r' p)"
  unfolding parseExpr_def by (intro fuel_mono approx_refl)

lemma keyword_paren_more [fuel_mono]: "approx (keyword_paren r p) (keyword_paren r' p)"
  unfolding keyword_paren_def by (intro fuel_mono approx_refl)

lemma args_loop_more [fuel_mono]: "approx (args_loop r d es p) (args_loop r' d es p)"
  unfolding args_loop_def by (intro fuel_mono approx_refl)

lemma call_args_more [fuel_mono]: "approx (call_args r d p) (call_args r' d p)"
  unfolding call_args_def by (intro fuel_mono approx_refl)

lemma elems_loop_more [fuel_mono]: "approx (elems_loop r c es p) (elems_loop r' c es p)"
  unfolding elems_loop_def by (intro fuel_mono approx_refl)

lemma elem_list_more [fuel_mono]: "approx (elem_list r t c p) (elem_list r' t c p)"
  unfolding elem_list_def by (intro fuel_mono approx_refl)

lemma bracket_start_more [fuel_mono]: "approx (bracket_start r p) (bracket_start r' p)"
  unfolding bracket_start_def by (intro fuel_mono approx_refl)

lemma slice_end_more [fuel_mono]: "approx (slice_end r p) (slice_end r' p)"
  unfolding slice_end_def by (intro fuel_mono approx_refl)

lemma brackets_loop_more [fuel_mono]: "approx (brackets_loop r e p) (brackets_loop r' e p)"
  unfolding brackets_loop_def by (intro fuel_mono approx_refl)

lemma calls_loop_more [fuel_mono]: "approx (calls_loop r e p) (calls_loop r' e p)"
  unfolding calls_loop_def by (intro fuel_mono approx_refl)

lemma binary_round_more [fuel_mono]: "approx (binary_round r e m p) (binary_round r' e m p)"
  unfolding binary_round_def by (intro fuel_mono approx_refl)

lemma binary_loop_more [fuel_mono]: "approx (binary_loop r e m p) (binary_loop r' e m p)"
  unfolding binary_loop_def by (intro fuel_mono approx_refl)

lemma parseBinaryExpr_more [fuel_mono]: "approx (parseBinaryExpr r e m p) (parseBinaryExpr r' e m p)"
  unfolding parseBinaryExpr_def by (intro fuel_mono approx_refl)

lemma parseUnary_more [fuel_mono]: "approx (parseUnary r p) (parseUnary r' p)"
  unfolding parseUnary_def by (intro fuel_mono approx_refl)

lemma parse_field_more [fuel_mono]: "approx (parse_field r p) (parse_field r' p)"
  unfolding parse_field_def by (intro fuel_mono approx_refl)

lemma fields_loop_more [fuel_mono]: "approx (fields_loop r es p) (fields_loop r' es p)"
  unfolding fields_loop_def by (intro fuel_mono approx_refl)

lemma parseStructLiteralAfterBrace_more [fuel_mono]: "approx (parseStructLiteralAfterBrace r t ts p) (parseStructLiteralAfterBrace r' t ts p)"
  unfolding parseStructLiteralAfterBrace_def by (intro fuel_mono approx_refl)

lemma parseStructLiteral_more [fuel_mono]: "approx (parseStructLiteral r t p) (parseStructLiteral r' t p)"
  unfolding parseStructLiteral_def by (intro fuel_mono approx_refl)

lemma ident_dot_more [fuel_mono]: "approx (ident_dot r i c p) (ident_dot r' i c p)"
  unfolding ident_dot_def by (intro fuel_mono approx_refl)

lemma ident_call_more [fuel_mono]: "approx (ident_call r i c p) (ident_call r' i c p)"
  unfolding ident_call_def by (intro fuel_mono approx_refl)

lemma ident_tail_more [fuel_mono]: "approx (ident_tail r i c p) (ident_tail r' i c p)"
  unfolding ident_tail_def by (intro fuel_mono approx_refl)

lemma parseIdentExpr_more [fuel_mono]: "approx (parseIdentExpr r p) (parseIdentExpr r' p)"
  unfolding parseIdentExpr_def by (intro fuel_mono approx_refl)

lemma parseArrayLiteral_more [fuel_mono]: "approx (parseArrayLiteral r p) (parseArrayLiteral r' p)"
  unfolding parseArrayLiteral_def by (intro fuel_mono approx_refl)

lemma parse_pair_more [fuel_mono]: "approx (parse_pair r p) (parse_pair r' p)"
  unfolding parse_pair_def by (intro fuel_mono approx_refl)

lemma pairs_loop_more [fuel_mono]: "approx (pairs_loop r ks vs p) (pairs_loop r' ks vs p)"
  unfolding pairs_loop_def by (intro fuel_mono approx_refl)

lemma parseMapLiteral_more [fuel_mono]: "approx (parseMapLiteral r p) (parseMapLiteral r' p)"
  unfolding parseMapLiteral_def by (intro fuel_mono approx_refl)

lemma parseMeasure_more [fuel_mono]: "approx (parseMeasure r p) (parseMeasure r' p)"
  unfolding parseMeasure_def by (intro fuel_mono approx_refl)

lemma parseAlloc_more [fuel_mono]: "approx (parseAlloc r p) (parseAlloc r' p)"
  unfolding parseAlloc_def by (intro fuel_mono approx_refl)

lemma parseFree_more [fuel_mono]: "approx (parseFree r p) (parseFree r' p)"
  unfolding parseFree_def by (intro fuel_mono approx_refl)

lemma parse_at_builtin_more [fuel_mono]: "approx (parse_at_builtin r p) (parse_at_builtin r' p)"
  unfolding parse_at_builtin_def by (intro fuel_mono approx_refl)

lemma parse_at_more [fuel_mono]: "approx (parse_at r p) (parse_at r' p)"
  unfolding parse_at_def by (intro fuel_mono approx_refl)

lemma parse_borrow_more [fuel_mono]: "approx (parse_borrow r p) (parse_borrow r' p)"
  unfolding parse_borrow_def by (intro fuel_mono approx_refl)

lemma parse_group_more [fuel_mono]: "approx (parse_group r p) (parse_group r' p)"
  unfolding parse_group_def by (intro fuel_mono approx_refl)

lemma parseKeywordCall_more [fuel_mono]: "approx (parseKeywordCall r i p) (parseKeywordCall r' i p)"
  unfolding parseKeywordCall_def by (intro fuel_mono approx_refl)

lemma parseSpawn_more [fuel_mono]: "approx (parseSpawn r p) (parseSpawn r' p)"
  unfolding parseSpawn_def by (intro fuel_mono approx_refl)

lemma parseReceiveChannel_more [fuel_mono]: "approx (parseReceiveChannel r p) (parseReceiveChannel r' p)"
  unfolding parseReceiveChannel_def by (intro fuel_mono approx_refl)

lemma wrap_paren_more [fuel_mono]: "approx (wrap_paren r w p) (wrap_paren r' w p)"
  unfolding wrap_paren_def by (intro fuel_mono approx_refl)

lemma parseBlock_more [fuel_mono]: "approx (parseBlock r p) (parseBlock r' p)"
  unfolding parseBlock_def by (intro fuel_mono approx_refl)

lemma braced_block_more [fuel_mono]: "approx (braced_block r p) (braced_block r' p)"
  unfolding braced_block_def by (intro fuel_mono approx_refl)

lemma parseLambda_more [fuel_mono]: "approx (parseLambda r p) (parseLambda r' p)"
  unfolding parseLambda_def by (intro fuel_mono approx_refl)

lemma match_value_more [fuel_mono]: "approx (match_value r p) (match_value r' p)"
  unfolding match_value_def by (intro fuel_mono approx_refl)

lemma match_pattern_more [fuel_mono]: "approx (match_pattern r p) (match_pattern r' p)"
  unfolding match_pattern_def by (intro fuel_mono approx_refl)

lemma arm_body_more [fuel_mono]: "approx (arm_body r p) (arm_body r' p)"
  unfolding arm_body_def by (intro fuel_mono approx_refl)

lemma arms_loop_more [fuel_mono]: "approx (arms_loop r es p) (arms_loop r' es p)"
  unfolding arms_loop_def by (intro fuel_mono approx_refl)

lemma parseMatchExpr_more [fuel_mono]: "approx (parseMatchExpr r p) (parseMatchExpr r' p)"
  unfolding parseMatchExpr_def by (intro fuel_mono approx_refl)

lemma parsePrimaryExpr_more [fuel_mono]: "approx (parsePrimaryExpr r p) (parsePrimaryExpr r' p)"
  unfolding parsePrimaryExpr_def by (intro fuel_mono approx_refl)

lemma parseMatrixDeclInternal_more [fuel_mono]: "approx (parseMatrixDeclInternal r p) (parseMatrixDeclInternal r' p)"
  unfolding parseMatrixDeclInternal_def by (intro fuel_mono approx_refl)

lemma parseVarDecl_more [fuel_mono]: "approx (parseVarDecl r p) (parseVarDecl r' p)"
  unfolding parseVarDecl_def by (intro fuel_mono approx_refl)

lemma parseMatrixDecl_more [fuel_mono]: "approx (parseMatrixDecl r p) (parseMatrixDecl r' p)"
  unfolding parseMatrixDecl_def by (intro fuel_mono approx_refl)

lemma parseQRegDecl_more [fuel_mono]: "approx (parseQRegDecl r p) (parseQRegDecl r' p)"
  unfolding parseQRegDecl_def by (intro fuel_mono approx_refl)

lemma parsePrint_more [fuel_mono]: "approx (parsePrint r p) (parsePrint r' p)"
  unfolding parsePrint_def by (intro fuel_mono approx_refl)

lemma parseReturn_more [fuel_mono]: "approx (parseReturn r p) (parseReturn r' p)"
  unfolding parseReturn_def by (intro fuel_mono approx_refl)

lemma parseReceive_more [fuel_mono]: "approx (parseReceive r p) (parseReceive r' p)"
  unfolding parseReceive_def by (intro fuel_mono approx_refl)

lemma parseAddrOf_more [fuel_mono]: "approx (parseAddrOf r p) (parseAddrOf r' p)"
  unfolding parseAddrOf_def by (intro fuel_mono approx_refl)

lemma parseBareGateApply_more [fuel_mono]: "approx (parseBareGateApply r i p) (parseBareGateApply r' i p)"
  unfolding parseBareGateApply_def by (intro fuel_mono approx_refl)

lemma parseGateApply_more [fuel_mono]: "approx (parseGateApply r p) (parseGateApply r' p)"
  unfolding parseGateApply_def by (intro fuel_mono approx_refl)

lemma parse_condition_more [fuel_mono]: "approx (parse_condition r i p) (parse_condition r' i p)"
  unfolding parse_condition_def by (intro fuel_mono approx_refl)

lemma parseWhile_more [fuel_mono]: "approx (parseWhile r p) (parseWhile r' p)"
  unfolding parseWhile_def by (intro fuel_mono approx_refl)

lemma parseIf_more [fuel_mono]: "approx (parseIf r p) (parseIf r' p)"
  unfolding parseIf_def by (intro fuel_mono approx_refl)

lemma for_body_more [fuel_mono]: "approx (for_body r p) (for_body r' p)"
  unfolding for_body_def by (intro fuel_mono approx_refl)

lemma for_in_more [fuel_mono]: "approx (for_in r p) (for_in r' p)"
  unfolding for_in_def by (intro fuel_mono approx_refl)

lemma for_in_key_more [fuel_mono]: "approx (for_in_key r p) (for_in_key r' p)"
  unfolding for_in_key_def by (intro fuel_mono approx_refl)

lemma for_classic_more [fuel_mono]: "approx (for_classic r i p) (for_classic r' i p)"
  unfolding for_classic_def by (intro fuel_mono approx_refl)

lemma parseFor_more [fuel_mono]: "approx (parseFor r p) (parseFor r' p)"
  unfolding parseFor_def by (intro fuel_mono approx_refl)

lemma targets_loop_more [fuel_mono]: "approx (targets_loop r i e p) (targets_loop r' i e p)"
  unfolding targets_loop_def by (intro fuel_mono approx_refl)

lemma assignment_more [fuel_mono]: "approx (assignment r b p) (assignment r' b p)"
  unfolding assignment_def by (intro fuel_mono approx_refl)

lemma index_statement_more [fuel_mono]: "approx (index_statement r i l p) (index_statement r' i l p)"
  unfolding index_statement_def by (intro fuel_mono approx_refl)

lemma dot_statement_more [fuel_mono]: "approx (dot_statement r i c l e p) (dot_statement r' i c l e p)"
  unfolding dot_statement_def by (intro fuel_mono approx_refl)

lemma parseIdentStatement_more [fuel_mono]: "approx (parseIdentStatement r p) (parseIdentStatement r' p)"
  unfolding parseIdentStatement_def by (intro fuel_mono approx_refl)

lemma mparams_loop_more [fuel_mono]: "approx (mparams_loop r ps p) (mparams_loop r' ps p)"
  unfolding mparams_loop_def by (intro fuel_mono approx_refl)

lemma mbody_more [fuel_mono]: "approx (mbody r p) (mbody r' p)"
  unfolding mbody_def by (intro fuel_mono approx_refl)

lemma parseMacro_more [fuel_mono]: "approx (parseMacro r p) (parseMacro r' p)"
  unfolding parseMacro_def by (intro fuel_mono approx_refl)

lemma parseComptimeStmt_more [fuel_mono]: "approx (parseComptimeStmt r p) (parseComptimeStmt r' p)"
  unfolding parseComptimeStmt_def by (intro fuel_mono approx_refl)

lemma parseIfStmt_more [fuel_mono]: "approx (parseIfStmt r p) (parseIfStmt r' p)"
  unfolding parseIfStmt_def by (intro fuel_mono approx_refl)

lemma parseStmt_more [fuel_mono]: "approx (parseStmt r p) (parseStmt r' p)"
  unfolding parseStmt_def by (intro fuel_mono approx_refl)

lemma mstmts_loop_more [fuel_mono]: "approx (mstmts_loop r es p) (mstmts_loop r' es p)"
  unfolding mstmts_loop_def by (intro fuel_mono approx_refl)

lemma parseStatement_more [fuel_mono]: "approx (parseStatement r p) (parseStatement r' p)"
  unfolding parseStatement_def as_stmt_def as_stmt_opt_def by (intro fuel_mono approx_refl)

lemma stmts_loop_more [fuel_mono]: "approx (stmts_loop r es p) (stmts_loop r' es p)"
  unfolding stmts_loop_def by (intro fuel_mono approx_refl)

lemma parseFunc_more [fuel_mono]: "approx (parseFunc r p) (parseFunc r' p)"
  unfolding parseFunc_def by (intro fuel_mono approx_refl)

lemma parseActor_more [fuel_mono]: "approx (parseActor r p) (parseActor r' p)"
  unfolding parseActor_def by (intro fuel_mono approx_refl)

lemma parseKernel_more [fuel_mono]: "approx (parseKernel r p) (parseKernel r' p)"
  unfolding parseKernel_def by (intro fuel_mono approx_refl)

lemma parseTargetAttr_more [fuel_mono]: "approx (parseTargetAttr r p) (parseTargetAttr r' p)"
  unfolding parseTargetAttr_def by (intro fuel_mono approx_refl)

lemma public_decl_more [fuel_mono]: "approx (public_decl r prog p) (public_decl r' prog p)"
  unfolding public_decl_def by (intro fuel_mono approx_refl)

lemma parse_decl_more [fuel_mono]: "approx (parse_decl r prog p) (parse_decl r' prog p)"
  unfolding parse_decl_def Let_def by (intro fuel_mono approx_refl)

lemma tie_more: "more_fuel (tie r) (tie r')"
  by (rule more_fuel.intro) (simp_all only: tie_simps fuel_mono)

end

section \<open>More fuel changes no result\<close>

lemma more_fuel_Suc: "more_fuel (calls_at n) (calls_at (Suc n))"
proof (induction n)
  case 0
  show ?case by unfold_locales simp_all
next
  case (Suc n)
  then have "more_fuel (tie (calls_at n)) (tie (calls_at (Suc n)))" by (rule more_fuel.tie_more)
  then show ?case by simp
qed

lemma more_fuel_trans: "more_fuel r s \<Longrightarrow> more_fuel s t \<Longrightarrow> more_fuel r t"
  by (rule more_fuel.intro; rule approx_trans, erule more_fuel.laws, erule more_fuel.laws)

lemma more_fuel_le: "n \<le> n' \<Longrightarrow> more_fuel (calls_at n) (calls_at n')"
proof (induction n' rule: dec_induct)
  case base
  show ?case by unfold_locales simp_all
next
  case (step n')
  then show ?case using more_fuel_Suc more_fuel_trans by blast
qed

interpretation deeper_knot: more_fuel "calls_at n" "calls_at (Suc n)" for n
  by (rule more_fuel_Suc)

lemma program_loop_more: "approx (program_loop n prog p) (program_loop (Suc n) prog p)"
proof (induction n arbitrary: prog p)
  case (Suc n)
  have "approx (parse_decl (calls_at n) prog p) (parse_decl (calls_at (Suc n)) prog p)"
    by (rule deeper_knot.parse_decl_more)
  then show ?case
    unfolding program_loop.simps(2) [of "Suc n" prog p] program_loop.simps(2) [of n prog p]
    by (intro fuel_mono approx_refl Suc.IH)
qed simp

lemma parse_text_more: "n \<le> n' \<Longrightarrow> approx (parse_text n src) (parse_text n' src)"
proof -
  assume "n \<le> n'"
  then have "approx (program_loop n prog p) (program_loop n' prog p)" for prog p
    by (induction n' rule: dec_induct) (blast intro: approx_refl approx_trans program_loop_more)+
  then show ?thesis
    unfolding parse_text_def ParseProgram_def by (intro fuel_mono approx_refl)
qed

lemma parse_text_enough: "parse_text k src = Return prog p \<Longrightarrow> parse_text (k + n) src = Return prog p"
  "parse_text k src = Panic \<Longrightarrow> parse_text (k + n) src = Panic"
  using parse_text_more [of k "k + n" src] by (simp_all add: approx_def)



end
