(* ===== verification/Parser_Props.thy ===== *)
theory Parser_Props
  imports Parser_Total Parser_Fuel
begin

text \<open>
  What the parser guarantees on whole texts, and where it does not do what it means to: the loops of
  macro.go that do not end, the C imports, bare names in match arms and gate statements.
\<close>

section \<open>The parser returns\<close>

lemma todo_NewParser: "todo (NewParser l) \<le> remaining l + 2"
proof -
  let ?p = "\<lparr>ps_l = l, ps_cur = no_token, ps_peek = no_token, ps_src = GetInput l, ps_line = 0,
    ps_Errors = [], ps_ErrorCols = [], ps_enumNames = {}, ps_ifCond = False\<rparr>"
  have "todo ?p = remaining l + 2" by (simp add: todo_def no_token_def)
  then show ?thesis using nextToken_le [of ?p] nextToken_le [of "nextToken ?p"] by (simp add: NewParser_def)
qed

lemma calm_NewParser: "plain_text (lx_Input l) \<Longrightarrow> calm (NewParser l)"
  unfolding NewParser_def
  by (rule leads_next [unfolded leads_def, THEN conjunct2, THEN conjunct2, THEN conjunct1, rule_format])+
    (simp add: calm_def no_token_def hangs_def)

lemma errors_NewParser: "ps_Errors (NewParser l) = [] \<and> ps_ErrorCols (NewParser l) = []"
  by (simp add: NewParser_def nextToken_def Let_def split: prod.split)

lemma plain_New: "plain_text src \<Longrightarrow> plain_text (lx_Input (New src)) \<and> remaining (New src) \<le> length src"
proof
  assume "plain_text src"
  moreover have "Contains (drop 3 src) w \<Longrightarrow> Contains src w" for w
    unfolding Contains_iff by (metis append.assoc append_take_drop_id)
  ultimately show "plain_text (lx_Input (New src))" by (auto simp: plain_text_def New_def Let_def)
qed (simp add: New_def remaining_def Let_def)

text \<open>C7. A text in which the words macro and comptime do not occur is parsed to the end: with fuel for five calls per
  character the parser returns a program, or it panics (which only parseCImport can do).  When it
  returns, every error has its column.\<close>

theorem parser_returns:
  assumes "plain_text src" "n > 5 * length src + 10"
  shows "parse_text n src = Panic \<or>
    (\<exists>prog p. parse_text n src = Return prog p \<and> length (ps_ErrorCols p) = length (ps_Errors p))"
proof -
  let ?p = "NewParser (New src)" and ?prog = "\<lparr>pg_Statements = [], pg_CImports = [], pg_Imports = []\<rparr>"
  have "calm ?p" using assms plain_New calm_NewParser by blast
  moreover have "5 * todo ?p < n" using assms plain_New [of src] todo_NewParser [of "New src"] by simp
  ultimately have "settles ?p (program_loop n ?prog ?p)" by (rule program_loop_total)
  then show ?thesis
    by (cases "program_loop n ?prog ?p")
      (auto simp: parse_text_def ParseProgram_def drain_errors_def leads_def grows_def errors_NewParser)
qed

theorem parser_returns_witness:
  "parse_text 200 ''func main() { print(1 + 2); }'' = Panic \<or>
    (\<exists>prog p. parse_text 200 ''func main() { print(1 + 2); }'' = Return prog p \<and> length (ps_ErrorCols p) = length (ps_Errors p))"
  by (rule parser_returns) (code_simp, simp)

section \<open>Loops that do not end\<close>

lemma SetLine_cur_again [simp]: "cur_line (SetLine p) = cur_line p" "ps_cur (SetLine p) = ps_cur p"
  by (simp_all add: cur_line_def SetLine_def)

text \<open>A semicolon is no expression, and nothing of it is consumed.\<close>

lemma semicolon_expr:
  assumes "cur p = TokenSemicolon"
  shows "parseExpr (calls_at n) p = NoFuel \<or> (\<exists>q. parseExpr (calls_at n) p = Return NoNode q \<and> ps_cur q = ps_cur p)"
proof -
  have loop: "k_loop (calls_at n) NoNode 0 q = NoFuel \<or> k_loop (calls_at n) NoNode 0 q = Return NoNode q"
    if "cur q = TokenSemicolon" for n q
  proof -
    have "k_brackets (calls_at m) NoNode q = (if m = 0 then NoFuel else Return NoNode q)" for m
      using that by (cases m) (simp_all add: Let_def brackets_loop_def)
    moreover have "k_calls (calls_at m) NoNode q = (if m = 0 then NoFuel else Return NoNode q)" for m
      using that by (cases m) (simp_all add: Let_def calls_loop_def)
    ultimately show ?thesis
      using that by (cases n) (simp_all add: Let_def binary_loop_def postfix_at_def postfix_question_def binary_round_def
          binary_op_of_def binary_ops_def)
  qed
  have primary: "k_primary (calls_at n) q = NoFuel \<or> k_primary (calls_at n) q = Return NoNode (SetLine q)"
    if "cur q = TokenSemicolon" for n q
    using that by (cases n) (simp_all add: Let_def parsePrimaryExpr_def)
  have unary: "k_unary (calls_at n) q = NoFuel \<or> k_unary (calls_at n) q = Return NoNode (SetLine q)"
    if "cur q = TokenSemicolon" for n q
    using that primary [OF that] by (cases n) (simp_all add: Let_def parseUnary_def)
  show ?thesis
  proof (cases n)
    case (Suc m)
    then show ?thesis
      using assms unary [of "SetLine p" m] loop [of "SetLine (SetLine p)" m]
      by (auto simp: parseExpr_def parseBinaryExpr_def Let_def)
  qed (simp add: parseExpr_def)
qed

text \<open>C10. The loops of macro.go over the body of a macro or of a comptime block never end once they are in
  front of a semicolon: the statement read there is empty, nothing is consumed, and no fuel is enough
  (the loop of parseBlock looks for a stall, these do not).\<close>

theorem semicolon_stuck:
  assumes "cur p = TokenSemicolon"
  shows "k_mstmts (calls_at n) body p = NoFuel"
  using assms
proof (induction n arbitrary: body p)
  case (Suc n)
  then show ?case using semicolon_expr [OF Suc.prems, of n]
    by (auto simp: Let_def mstmts_loop_def parseStmt_def)
qed simp

theorem semicolon_stuck_witness:
  "k_mstmts (calls_at 1000) [] (nextToken (NewParser (New ''1; }''))) = NoFuel"
  by (rule semicolon_stuck) code_simp

section \<open>C imports\<close>


end
