(* ===== verification/Parser_Print.thy ===== *)
theory Parser_Print
  imports Parser_Fuel Lexer_Props
begin

text \<open>
  The expression parser against a grammar: \<open>gexpr\<close> is the abstract syntax of expressions, \<open>bare\<close> prints one
  with the parentheses that the precedences ask for and no others, and the parser reads the printed
  lexemes back as a tree of that expression, whatever the layout of the text.
\<close>

section \<open>Expressions and how they are written\<close>

datatype gexpr =
    EInt string
  | EFloat string string
  | EBigInt string
  | EBigFloat string string
  | EStr string
  | EBool bool
  | ENone
  | EName string
  | EPath string "string list"
  | EWrap wrapper gexpr
  | ECall string "gexpr list"
  | EArr "gexpr list"
  | EUn string gexpr
  | EDeref gexpr
  | EIdx gexpr gexpr
  | EIdx2 gexpr gexpr gexpr
  | ESlice gexpr gexpr "gexpr option"
  | ETry gexpr
  | EBin gexpr string gexpr

text \<open>How tightly an expression binds: binary operators by their precedence, then \<open>?\<close>, brackets, and
  everything else.  A prefix operator binds tighter than brackets: \<open>-a[i]\<close> is \<open>(-a)[i]\<close>.\<close>

fun level :: "gexpr \<Rightarrow> int" where
  "level (EBin _ op _) = precedence op"
| "level (ETry _) = 9"
| "level (EIdx _ _) = 10"
| "level (EIdx2 _ _ _) = 10"
| "level (ESlice _ _ _) = 10"
| "level _ = 11"

definition guard :: "int \<Rightarrow> gexpr \<Rightarrow> lexeme list \<Rightarrow> lexeme list" where
  "guard k e s = (if level e < k then [Operator ''(''] @ s @ [Operator '')''] else s)"

fun commas :: "lexeme list list \<Rightarrow> lexeme list" where
  "commas [] = []"
| "commas [x] = x"
| "commas (x # xs) = x @ [Operator '',''] @ commas xs"

definition wrap_words :: "(wrapper \<times> string) list" where
  "wrap_words = [(WrapOptionSomeExpr, ''Some''), (WrapResultOkExpr, ''Ok''), (WrapResultErrExpr, ''Err''), (WrapMoveExpr, ''move'')]"

fun bare :: "gexpr \<Rightarrow> lexeme list" where
  "bare (EInt d) = [IntLit d]"
| "bare (EFloat a b) = [FloatLit a b]"
| "bare (EBigInt d) = [BigIntLit d]"
| "bare (EBigFloat a b) = [BigFloatLit a b]"
| "bare (EStr s) = [StrLit s]"
| "bare (EBool b) = [Word (if b then ''true'' else ''false'')]"
| "bare ENone = [Word ''None'']"
| "bare (EName x) = [Word x]"
| "bare (EPath x fs) = Word x # concat (map (\<lambda>f. [Operator ''.'', Word f]) fs)"
| "bare (EWrap w e) = [Word (the (map_of wrap_words w)), Operator ''(''] @ bare e @ [Operator '')'']"
| "bare (ECall f es) = [Word f, Operator ''(''] @ commas (map bare es) @ [Operator '')'']"
| "bare (EArr es) = [Operator ''[''] @ commas (map bare es) @ [Operator '']'']"
| "bare (EUn op e) = Operator op # guard 11 e (bare e)"
| "bare (EDeref e) = Operator ''*'' # guard 11 e (bare e)"
| "bare (EIdx a i) = guard 10 a (bare a) @ [Operator ''[''] @ bare i @ [Operator '']'']"
| "bare (EIdx2 a i j) = guard 10 a (bare a) @ [Operator ''[''] @ bare i @ [Operator '',''] @ bare j @ [Operator '']'']"
| "bare (ESlice a i None) = guard 10 a (bare a) @ [Operator ''[''] @ bare i @ [Operator '':'', Operator '']'']"
| "bare (ESlice a i (Some j)) = guard 10 a (bare a) @ [Operator ''[''] @ bare i @ [Operator '':''] @ bare j @ [Operator '']'']"
| "bare (ETry a) = guard 10 a (bare a) @ [Operator ''?'']"
| "bare (EBin a op b) = guard (precedence op) a (bare a) @ [Operator op] @ guard (precedence op + 1) b (bare b)"

text \<open>Names are identifiers of the lexer, operators those of the language.\<close>

fun wf_expr :: "gexpr \<Rightarrow> bool" where
  "wf_expr (EName x) \<longleftrightarrow> lookupIdent x = TokenIdent"
| "wf_expr (EPath x fs) \<longleftrightarrow> lookupIdent x = TokenIdent \<and> fs \<noteq> []"
| "wf_expr (EWrap w e) \<longleftrightarrow> w \<in> fst ` set wrap_words \<and> wf_expr e"
| "wf_expr (ECall f es) \<longleftrightarrow> lookupIdent f = TokenIdent \<and> list_all wf_expr es"
| "wf_expr (EArr es) \<longleftrightarrow> list_all wf_expr es"
| "wf_expr (EUn op e) \<longleftrightarrow> op \<in> {''-'', ''!''} \<and> wf_expr e"
| "wf_expr (EDeref e) \<longleftrightarrow> wf_expr e"
| "wf_expr (EIdx a i) \<longleftrightarrow> wf_expr a \<and> wf_expr i"
| "wf_expr (EIdx2 a i j) \<longleftrightarrow> wf_expr a \<and> wf_expr i \<and> wf_expr j"
| "wf_expr (ESlice a i j) \<longleftrightarrow> wf_expr a \<and> wf_expr i \<and> (case j of None \<Rightarrow> True | Some j \<Rightarrow> wf_expr j)"
| "wf_expr (ETry a) \<longleftrightarrow> wf_expr a"
| "wf_expr (EBin a op b) \<longleftrightarrow> op \<in> snd ` set binary_ops \<and> wf_expr a \<and> wf_expr b"
| "wf_expr _ \<longleftrightarrow> True"

text \<open>A node is a tree of an expression, whatever its lines and columns.\<close>

fun tree_of :: "gexpr \<Rightarrow> node \<Rightarrow> bool" where
  "tree_of (EInt d) n \<longleftrightarrow> (\<exists>l. n = IntLiteral d l)"
| "tree_of (EFloat a b) n \<longleftrightarrow> (\<exists>l. n = Float64Literal (a @ ''.'' @ b) l)"
| "tree_of (EBigInt d) n \<longleftrightarrow> (\<exists>l. n = BigIntLiteral (d @ ''n'') l)"
| "tree_of (EBigFloat a b) n \<longleftrightarrow> (\<exists>l. n = BigFloatLiteral (a @ ''.'' @ b @ ''b'') l)"
| "tree_of (EStr s) n \<longleftrightarrow> (\<exists>l. n = StringLiteral s l)"
| "tree_of (EBool b) n \<longleftrightarrow> (\<exists>l. n = BoolLiteral b l)"
| "tree_of ENone n \<longleftrightarrow> (\<exists>l. n = OptionNoneExpr l)"
| "tree_of (EName x) n \<longleftrightarrow> (\<exists>l c d. n = Identifier x l c d)"
| "tree_of (EPath x fs) n \<longleftrightarrow> (\<exists>l. n = foldl (\<lambda>e f. DotExpr e f 0) (Identifier x l 0 0) fs)"
| "tree_of (EWrap w e) n \<longleftrightarrow> (\<exists>x l. n = Wrap w x l \<and> tree_of e x)"
| "tree_of (ECall f es) n \<longleftrightarrow> (\<exists>xs l c d. n = CallExpr f [] xs False [] l c d \<and> list_all2 tree_of es xs)"
| "tree_of (EArr es) n \<longleftrightarrow> (\<exists>xs l. n = ArrayLiteral xs l \<and> list_all2 tree_of es xs)"
| "tree_of (EUn op e) n \<longleftrightarrow> (\<exists>x l. n = UnaryExpr op x l \<and> tree_of e x)"
| "tree_of (EDeref e) n \<longleftrightarrow> (\<exists>x l. n = Dereference x l \<and> tree_of e x)"
| "tree_of (EIdx a i) n \<longleftrightarrow> (\<exists>x y l. n = IndexExpr x y l \<and> tree_of a x \<and> tree_of i y)"
| "tree_of (EIdx2 a i j) n \<longleftrightarrow> (\<exists>x y z l. n = MatrixIndexExpr x y z l \<and> tree_of a x \<and> tree_of i y \<and> tree_of j z)"
| "tree_of (ESlice a i None) n \<longleftrightarrow> (\<exists>x y l. n = SliceExpr x y NoNode l \<and> tree_of a x \<and> tree_of i y)"
| "tree_of (ESlice a i (Some j)) n \<longleftrightarrow> (\<exists>x y z l. n = SliceExpr x y z l \<and> tree_of a x \<and> tree_of i y \<and> tree_of j z)"
| "tree_of (ETry a) n \<longleftrightarrow> (\<exists>x l. n = PropagateExpr x l \<and> tree_of a x)"
| "tree_of (EBin a op b) n \<longleftrightarrow> (\<exists>x y l. n = BinaryExpr x op y l \<and> tree_of a x \<and> tree_of b y)"

lemma tree_not_nil: "tree_of e n \<Longrightarrow> \<not> is_nil n"
proof (cases e)
  case (EPath x fs)
  assume "tree_of e n"
  moreover have "\<not> is_nil (foldl (\<lambda>e f. DotExpr e f 0) m fs)" if "\<not> is_nil m" for m
    using that by (induction fs arbitrary: m) simp_all
  ultimately show ?thesis using EPath by auto
next
  case (ESlice a i j)
  then show "tree_of e n \<Longrightarrow> ?thesis" by (cases j) auto
qed auto

section \<open>The tokens ahead\<close>

definition tok :: "lexeme \<Rightarrow> TokenType \<times> string" where
  "tok x = (lexeme_type x, lexeme_literal x)"

text \<open>The parser is in front of these tokens, which start at different places of the text.\<close>

fun sees :: "Parser \<Rightarrow> (TokenType \<times> string) list \<Rightarrow> bool" where
  "sees p [] \<longleftrightarrow> True"
| "sees p (t # ts) \<longleftrightarrow> cur p = fst t \<and> lit p = snd t \<and> sees (nextToken p) ts \<and>
     (\<forall>i < length ts. tk_Start (ps_cur ((nextToken ^^ Suc i) p)) \<noteq> tk_Start (ps_cur p))"

text \<open>The state a number of tokens later, but for the line of the arena.\<close>

definition after :: "nat \<Rightarrow> Parser \<Rightarrow> Parser \<Rightarrow> bool" where
  "after n p q \<longleftrightarrow> (\<exists>i. q = ((nextToken ^^ n) p)\<lparr>ps_line := i\<rparr>)"

lemma nextToken_line: "nextToken (p\<lparr>ps_line := i\<rparr>) = (nextToken p)\<lparr>ps_line := i\<rparr>"
  by (cases "NextToken (ps_l p)") (simp add: nextToken_def)

lemma iterate_line: "(nextToken ^^ n) (p\<lparr>ps_line := i\<rparr>) = ((nextToken ^^ n) p)\<lparr>ps_line := i\<rparr>"
  by (induction n) (simp_all add: nextToken_line)

lemma sees_line [simp]: "sees (p\<lparr>ps_line := i\<rparr>) ts = sees p ts"
proof (induction ts arbitrary: p)
  case (Cons t ts)
  have "tk_Start (ps_cur ((nextToken ^^ Suc j) (p\<lparr>ps_line := i\<rparr>))) = tk_Start (ps_cur ((nextToken ^^ Suc j) p))" for j
    by (simp only: iterate_line) simp
  moreover have "lit (p\<lparr>ps_line := i\<rparr>) = lit p" by (simp add: lit_def)
  ultimately show ?case using Cons [of "nextToken p"] by (simp add: nextToken_line del: funpow.simps)
qed simp

lemma after_0 [simp]: "after 0 p p"
  unfolding after_def by (intro exI [of _ "ps_line p"]) simp

lemma after_trans: "after m p q \<Longrightarrow> after n q s \<Longrightarrow> after (m + n) p s"
  by (auto simp: after_def iterate_line funpow_add add.commute [of m n])

lemma after_SetLine [simp]: "after n p q \<Longrightarrow> after n p (SetLine q)"
  by (auto simp: after_def SetLine_def)

lemma after_next [simp]: "after n p q \<Longrightarrow> after (Suc n) p (nextToken q)"
  by (auto simp: after_def nextToken_line)

lemma sees_after: "sees p (us @ ts) \<Longrightarrow> after (length us) p q \<Longrightarrow> sees q ts"
proof (induction us arbitrary: p)
  case Nil
  then show ?case by (auto simp: after_def)
next
  case (Cons u us)
  then show ?case by (auto simp: after_def funpow_swap1)
qed

definition quiet :: "Parser \<Rightarrow> bool" where
  "quiet p \<longleftrightarrow> \<not> ps_ifCond p \<and> ps_enumNames p = {}"

lemma nextToken_quiet [simp]: "ps_ifCond (nextToken p) = ps_ifCond p" "ps_enumNames (nextToken p) = ps_enumNames p"
  by (cases "NextToken (ps_l p)"; simp add: nextToken_def)+

lemma quiet_next [simp]: "quiet (nextToken p) = quiet p" "quiet (SetLine p) = quiet p" "quiet (p\<lparr>ps_line := i\<rparr>) = quiet p"
  by (simp_all add: quiet_def SetLine_def)

lemma quiet_after: "after n p q \<Longrightarrow> quiet p \<Longrightarrow> quiet q"
proof -
  have "quiet ((nextToken ^^ n) p) = quiet p" by (induction n) simp_all
  then show "after n p q \<Longrightarrow> quiet p \<Longrightarrow> quiet q" by (auto simp: after_def)
qed

text \<open>Nothing stalls: the token ahead is not the one at which the reading began.\<close>

lemma not_stalled:
  assumes "sees p ts" "after n p q" "0 < n" "n < length ts"
  shows "advanceIfStalled (tk_Start (ps_cur p)) c q = q"
proof (cases ts)
  case (Cons t us)
  then have "tk_Start (ps_cur ((nextToken ^^ n) p)) \<noteq> tk_Start (ps_cur p)"
    using assms by (cases n) auto
  then show ?thesis using assms(2) by (auto simp: advanceIfStalled_def after_def)
qed (use assms in simp)

end
