(* ===== verification/Parser_Read.thy ===== *)
theory Parser_Read
  imports Parser_Print
begin

text \<open>
  How the expression parser reads_back a list of lexemes.  \<open>yields\<close> is the result with all fuel from some
  amount on.  \<open>unary_reads\<close>, \<open>operand_reads\<close> and \<open>expr_reads\<close> say that a list of lexemes is read by
  \<open>parseUnary\<close>, by \<open>parseBinaryExpr\<close> as an operand of some precedence, and by \<open>parseExpr\<close>; there is one
  lemma for each form of expression.
\<close>

section \<open>Results with enough fuel\<close>

text \<open>With all amounts of fuel from some on, the operation returns this value in this state.\<close>

definition yields :: "(calls \<Rightarrow> 'a outcome) \<Rightarrow> 'a \<Rightarrow> Parser \<Rightarrow> bool" where
  "yields f x q \<longleftrightarrow> (\<exists>N. \<forall>n \<ge> N. f (calls_at n) = Return x q)"

lemma yields_Return [simp]: "yields (\<lambda>r. Return x p) y q \<longleftrightarrow> y = x \<and> q = p"
  by (auto simp: yields_def)

lemma yields_bind: "yields f x p \<Longrightarrow> yields (\<lambda>r. g r x p) y q \<Longrightarrow> yields (\<lambda>r. andThen (f r) (g r)) y q"
  unfolding yields_def
proof (elim exE)
  fix N M
  assume "\<forall>n \<ge> N. f (calls_at n) = Return x p" "\<forall>n \<ge> M. g (calls_at n) x p = Return y q"
  then have "\<forall>n \<ge> max N M. andThen (f (calls_at n)) (g (calls_at n)) = Return y q" by simp
  then show "\<exists>N. \<forall>n \<ge> N. andThen (f (calls_at n)) (g (calls_at n)) = Return y q" by blast
qed

text \<open>The value of a first operation that is called through the record does not change with more fuel.\<close>

lemma yields_split:
  assumes mono: "\<And>n n'. n \<le> n' \<Longrightarrow> approx (f (calls_at n)) (f (calls_at n'))"
    and y: "yields (\<lambda>r. andThen (f r) (g r)) y q"
  obtains x p where "yields f x p" "yields (\<lambda>r. g r x p) y q"
proof -
  obtain N where N: "\<forall>n \<ge> N. andThen (f (calls_at n)) (g (calls_at n)) = Return y q"
    using y by (auto simp: yields_def)
  then have "andThen (f (calls_at N)) (g (calls_at N)) = Return y q" by simp
  then obtain x p where x: "f (calls_at N) = Return x p" by (cases "f (calls_at N)") simp_all
  have f: "\<forall>n \<ge> N. f (calls_at n) = Return x p" using mono [of N] x by (simp add: approx_def)
  with N have "\<forall>n \<ge> N. g (calls_at n) x p = Return y q" by (metis andThen.simps(1))
  with f show thesis by (intro that) (auto simp: yields_def)
qed

lemma yields_tie:
  assumes "\<And>r. f (tie r) = g r"
  shows "yields f x q \<longleftrightarrow> yields g x q"
proof
  assume "yields f x q"
  then obtain N where N: "\<forall>n \<ge> N. f (calls_at n) = Return x q" by (auto simp: yields_def)
  then have "\<forall>n \<ge> N. g (calls_at n) = Return x q" using assms [of "calls_at n" for n] by (metis calls_at.simps(2) le_SucI)
  then show "yields g x q" by (auto simp: yields_def)
next
  assume "yields g x q"
  then obtain N where "\<forall>n \<ge> N. g (calls_at n) = Return x q" by (auto simp: yields_def)
  then have "\<forall>n \<ge> Suc N. f (calls_at n) = Return x q" using assms by (auto simp: Suc_le_eq dest!: less_imp_Suc_add)
  then show "yields f x q" by (auto simp: yields_def)
qed

lemma yields_calls:
  "yields (\<lambda>r. k_binary r e m p) x q \<longleftrightarrow> yields (\<lambda>r. parseBinaryExpr r e m p) x q"
  "yields (\<lambda>r. k_loop r e m p) x q \<longleftrightarrow> yields (\<lambda>r. binary_loop r e m p) x q"
  "yields (\<lambda>r. k_unary r p) x q \<longleftrightarrow> yields (\<lambda>r. parseUnary r p) x q"
  "yields (\<lambda>r. k_primary r p) x q \<longleftrightarrow> yields (\<lambda>r. parsePrimaryExpr r p) x q"
  "yields (\<lambda>r. k_brackets r e p) x q \<longleftrightarrow> yields (\<lambda>r. brackets_loop r e p) x q"
  "yields (\<lambda>r. k_calls r e p) x q \<longleftrightarrow> yields (\<lambda>r. calls_loop r e p) x q"
  by (rule yields_tie, simp)+

lemma yields_args:
  "yields (\<lambda>r. k_args r c es p) xs q \<longleftrightarrow> yields (\<lambda>r. args_loop r c es p) xs q"
  "yields (\<lambda>r. k_elems r d es p) xs q \<longleftrightarrow> yields (\<lambda>r. elems_loop r d es p) xs q"
  by (rule yields_tie, simp)+

section \<open>What may follow an expression\<close>

definition rest_ok :: "(TokenType \<times> string) list \<Rightarrow> bool" where
  "rest_ok ts \<longleftrightarrow> ts \<noteq> [] \<and> fst (last ts) = TokenEOF \<and> TokenLBrace \<notin> fst ` set ts"

definition may_follow :: "int \<Rightarrow> TokenType \<Rightarrow> bool" where
  "may_follow l t \<longleftrightarrow> t \<notin> {TokenLParen, TokenDot, TokenAssign, TokenAt} \<and> (l \<le> 9 \<longrightarrow> t \<notin> {TokenLBracket, TokenQuestion}) \<and>
     (l \<le> 8 \<longrightarrow> binary_op_of t = [] \<or> precedence (binary_op_of t) \<le> l)"

definition closer :: "TokenType \<Rightarrow> bool" where
  "closer t \<longleftrightarrow> t \<in> {TokenEOF, TokenRParen, TokenComma, TokenRBracket, TokenColon}"

lemma may_follow_mono: "may_follow l t \<Longrightarrow> l \<le> l' \<Longrightarrow> may_follow l' t"
  by (auto simp: may_follow_def)

lemma closer_op: "closer t \<Longrightarrow> binary_op_of t = []"
proof -
  have "list_all (\<lambda>t. binary_op_of t = []) [TokenEOF, TokenRParen, TokenComma, TokenRBracket, TokenColon]" by code_simp
  then show "closer t \<Longrightarrow> binary_op_of t = []" by (auto simp: closer_def)
qed

lemma closer_may_follow: "closer t \<Longrightarrow> may_follow l t"
  using closer_op [of t] by (auto simp: closer_def may_follow_def)

text \<open>The loop of parseBinaryExpr ends in front of a token that continues nothing.\<close>

lemma loop_skips:
  assumes "cur q \<notin> {TokenLBracket, TokenLParen, TokenAt, TokenQuestion}"
  shows "yields (\<lambda>r. k_loop r x m q) y s \<longleftrightarrow> yields (\<lambda>r. binary_round r x m q) y s"
proof -
  have b: "yields (\<lambda>r. k_brackets r x q) x q" "yields (\<lambda>r. k_calls r x q) x q"
    using assms by (simp_all add: yields_calls brackets_loop_def calls_loop_def)
  have round: "postfix_at x q = (x, q)" "postfix_question x q = (x, q)"
    using assms by (simp_all add: postfix_at_def postfix_question_def)
  show ?thesis
  proof
    assume "yields (\<lambda>r. k_loop r x m q) y s"
    then obtain N where N: "\<forall>n \<ge> N. binary_loop (calls_at n) x m q = Return y s" by (auto simp: yields_calls yields_def)
    obtain M M' where "\<forall>n \<ge> M. k_brackets (calls_at n) x q = Return x q" "\<forall>n \<ge> M'. k_calls (calls_at n) x q = Return x q"
      using b by (auto simp: yields_def)
    with N have "\<forall>n \<ge> max N (max M M'). binary_round (calls_at n) x m q = Return y s"
      by (auto simp: binary_loop_def round)
    then show "yields (\<lambda>r. binary_round r x m q) y s" unfolding yields_def by blast
  next
    assume r: "yields (\<lambda>r. binary_round r x m q) y s"
    show "yields (\<lambda>r. k_loop r x m q) y s"
      unfolding yields_calls binary_loop_def by (intro yields_bind [OF b(1)] yields_bind [OF b(2)]) (simp add: round r)
  qed
qed

lemma loop_stops:
  assumes "may_follow l (cur q)" "l < m \<or> closer (cur q)" "l \<le> 8 \<or> closer (cur q)"
  shows "yields (\<lambda>r. k_loop r x m q) x q"
proof -
  have "cur q \<notin> {TokenLBracket, TokenLParen, TokenAt, TokenQuestion}"
    using assms by (auto simp: may_follow_def closer_def)
  moreover have "binary_op_of (cur q) = [] \<or> precedence (binary_op_of (cur q)) < m" "cur q \<noteq> TokenAssign"
    using assms closer_op [of "cur q"] by (auto simp: may_follow_def)
  ultimately show ?thesis by (subst loop_skips) (auto simp: binary_round_def Let_def)
qed

section \<open>No generic arguments\<close>

lemma sees_step:
  assumes "sees p ts" "rest_ok ts" "cur p \<noteq> TokenEOF"
  obtains us where "ts = (cur p, lit p) # us" "sees (nextToken p) us" "rest_ok us"
proof -
  obtain t us where ts: "ts = t # us" using assms(2) by (cases ts) (auto simp: rest_ok_def)
  then have "t = (cur p, lit p)" using assms(1) by simp
  with ts assms show thesis by (intro that [of us]) (auto simp: rest_ok_def split: if_splits)
qed

lemma sees_brace: "sees p ts \<Longrightarrow> rest_ok ts \<Longrightarrow> cur p \<noteq> TokenLBrace"
  by (cases ts) (auto simp: rest_ok_def)

lemma rest_ok_append: "rest_ok ts \<Longrightarrow> TokenLBrace \<notin> fst ` set us \<Longrightarrow> rest_ok (us @ ts)"
  by (auto simp: rest_ok_def)

lemma generic_names_rest:
  assumes "generic_names a p = Some (b, q)" "sees p ts" "rest_ok ts"
  shows "\<exists>us. sees q us \<and> rest_ok us"
  using assms
proof (induction a p arbitrary: ts rule: generic_names.induct)
  case (1 a p)
  have id: "cur p = TokenIdent" using 1(2) by (subst (asm) generic_names.simps) (simp split: if_splits)
  obtain us where us: "sees (nextToken p) us" "rest_ok us" by (rule sees_step [OF 1(3,4)]) (simp_all add: id)
  show ?case
  proof (cases "cur (nextToken p) = TokenComma")
    case True
    obtain vs where vs: "sees (nextToken (nextToken p)) vs" "rest_ok vs" by (rule sees_step [OF us]) (simp_all add: True)
    have "generic_names (a @ [lit p]) (nextToken (nextToken p)) = Some (b, q)"
      using 1(2) id True by (subst (asm) generic_names.simps) (simp add: Let_def)
    then show ?thesis using 1(1) id True vs by blast
  next
    case False
    then have "q = nextToken p" using 1(2) id by (subst (asm) generic_names.simps) (simp add: Let_def)
    then show ?thesis using us by blast
  qed
qed

lemma no_generic_args:
  assumes "sees p ts" "rest_ok ts" "cur p = TokenLBracket"
  shows "tryGenericArgs TokenLBrace p = None"
proof (cases "generic_names [] (nextToken p)")
  case (Some z)
  obtain b q where z: "z = (b, q)" by (cases z)
  obtain us where "sees (nextToken p) us" "rest_ok us" by (rule sees_step [OF assms(1,2)]) (simp_all add: assms)
  then obtain vs where vs: "sees q vs" "rest_ok vs" using generic_names_rest Some z by blast
  have "cur (nextToken q) \<noteq> TokenLBrace" if br: "cur q = TokenRBracket"
  proof -
    obtain ws where "sees (nextToken q) ws" "rest_ok ws" by (rule sees_step [OF vs]) (simp_all add: br)
    then show ?thesis by (rule sees_brace)
  qed
  then show ?thesis using Some z by (auto simp: tryGenericArgs_def Let_def)
qed (simp add: tryGenericArgs_def)

section \<open>Reading a list of lexemes as an expression\<close>

definition unary_reads :: "lexeme list \<Rightarrow> (node \<Rightarrow> bool) \<Rightarrow> bool" where
  "unary_reads s T \<longleftrightarrow>
     (\<forall>p ts. quiet p \<longrightarrow> sees p (map tok s @ ts) \<longrightarrow> rest_ok ts \<longrightarrow> may_follow 11 (fst (hd ts)) \<longrightarrow>
       (\<exists>x q. after (length s) p q \<and> T x \<and> yields (\<lambda>r. k_unary r p) x q))"

definition expr_reads :: "lexeme list \<Rightarrow> (node \<Rightarrow> bool) \<Rightarrow> bool" where
  "expr_reads s T \<longleftrightarrow>
     (\<forall>p ts. quiet p \<longrightarrow> sees p (map tok s @ ts) \<longrightarrow> rest_ok ts \<longrightarrow> closer (fst (hd ts)) \<longrightarrow>
       (\<exists>x q. after (length s) p q \<and> T x \<and> yields (\<lambda>r. parseExpr r p) x q))"

text \<open>As an operand of that precedence: what the loop makes of it, the whole makes.\<close>

definition operand_reads :: "int \<Rightarrow> lexeme list \<Rightarrow> (node \<Rightarrow> bool) \<Rightarrow> bool" where
  "operand_reads l s T \<longleftrightarrow>
     (\<forall>p ts m. quiet p \<longrightarrow> sees p (map tok s @ ts) \<longrightarrow> rest_ok ts \<longrightarrow> may_follow l (fst (hd ts)) \<longrightarrow> m \<le> l \<longrightarrow>
       (\<exists>x q. after (length s) p q \<and> T x \<and>
         (\<forall>y z. yields (\<lambda>r. k_loop r x m q) y z \<longrightarrow> yields (\<lambda>r. k_binary r NoNode m p) y z)))"

lemma operandD:
  assumes "operand_reads l s T" "quiet p" "sees p (map tok s @ ts)" "rest_ok ts" "may_follow l (fst (hd ts))" "m \<le> l"
  obtains x q where "after (length s) p q" "T x" "sees q ts" "quiet q"
    "\<And>y z. yields (\<lambda>r. k_loop r x m q) y z \<Longrightarrow> yields (\<lambda>r. k_binary r NoNode m p) y z"
proof -
  obtain x q where "after (length s) p q" "T x"
    "\<And>y z. yields (\<lambda>r. k_loop r x m q) y z \<Longrightarrow> yields (\<lambda>r. k_binary r NoNode m p) y z"
    using assms unfolding operand_reads_def by blast
  then show thesis using assms sees_after [of p "map tok s" ts q] quiet_after [of "length s" p q] by (intro that [of q x]) auto
qed

lemma exprD:
  assumes "expr_reads s T" "quiet p" "sees p (map tok s @ ts)" "rest_ok ts" "closer (fst (hd ts))"
  obtains x q where "after (length s) p q" "T x" "sees q ts" "quiet q" "yields (\<lambda>r. parseExpr r p) x q"
proof -
  obtain x q where "after (length s) p q" "T x" "yields (\<lambda>r. parseExpr r p) x q"
    using assms unfolding expr_reads_def by blast
  then show thesis using assms sees_after [of p "map tok s" ts q] quiet_after [of "length s" p q] by (intro that [of q x]) auto
qed

lemma unaryD:
  assumes "unary_reads s T" "quiet p" "sees p (map tok s @ ts)" "rest_ok ts" "may_follow 11 (fst (hd ts))"
  obtains x q where "after (length s) p q" "T x" "sees q ts" "quiet q" "yields (\<lambda>r. k_unary r p) x q"
proof -
  obtain x q where "after (length s) p q" "T x" "yields (\<lambda>r. k_unary r p) x q"
    using assms unfolding unary_reads_def by blast
  then show thesis using assms sees_after [of p "map tok s" ts q] quiet_after [of "length s" p q] by (intro that [of q x]) auto
qed

lemma sees_hd: "sees p ts \<Longrightarrow> rest_ok ts \<Longrightarrow> cur p = fst (hd ts)"
  by (cases ts) (auto simp: rest_ok_def)

lemma after_line [simp]: "after n (p\<lparr>ps_line := i\<rparr>) q = after n p q" "after n (SetLine p) q = after n p q"
proof -
  show *: "after n (p\<lparr>ps_line := i\<rparr>) q = after n p q" for i by (auto simp: after_def iterate_line)
  show "after n (SetLine p) q = after n p q" by (simp add: SetLine_def *)
qed

lemma sees_SetLine [simp]: "sees (SetLine p) ts = sees p ts"
  by (simp add: SetLine_def)

lemma operand_mono: "operand_reads l' s T \<Longrightarrow> l \<le> l' \<Longrightarrow> operand_reads l s T"
  unfolding operand_reads_def by (meson may_follow_mono order.trans)

lemma unary_operand:
  assumes "unary_reads s T" "l \<le> 11"
  shows "operand_reads l s T"
  unfolding operand_reads_def
proof (intro allI impI)
  fix p ts m
  assume a: "quiet p" "sees p (map tok s @ ts)" "rest_ok ts" "may_follow l (fst (hd ts))" "m \<le> l"
  obtain x q where x: "after (length s) p q" "T x" "yields (\<lambda>r. k_unary r p) x q"
    by (rule unaryD [OF assms(1) a(1-3)]) (use may_follow_mono [OF a(4) assms(2)] in blast)+
  have "yields (\<lambda>r. k_binary r NoNode m p) y z" if "yields (\<lambda>r. k_loop r x m q) y z" for y z
    unfolding yields_calls parseBinaryExpr_def using yields_bind [OF x(3), of "\<lambda>r x p. k_loop r x m p"] that by simp
  with x show "\<exists>x q. after (length s) p q \<and> T x \<and>
      (\<forall>y z. yields (\<lambda>r. k_loop r x m q) y z \<longrightarrow> yields (\<lambda>r. k_binary r NoNode m p) y z)" by blast
qed

lemma operand_expr:
  assumes "operand_reads l s T" "0 \<le> l"
  shows "expr_reads s T"
  unfolding expr_reads_def
proof (intro allI impI)
  fix p ts
  assume a: "quiet p" "sees p (map tok s @ ts)" "rest_ok ts" "closer (fst (hd ts))"
  have a': "quiet (SetLine p)" "sees (SetLine p) (map tok s @ ts)" using a by simp_all
  obtain x q where x: "after (length s) (SetLine p) q" "T x" "sees q ts"
    "\<And>y z. yields (\<lambda>r. k_loop r x 0 q) y z \<Longrightarrow> yields (\<lambda>r. k_binary r NoNode 0 (SetLine p)) y z"
    by (rule operandD [OF assms(1) a' a(3) closer_may_follow [OF a(4)] assms(2)]) blast
  have "closer (cur q)" using sees_hd [OF x(3) a(3)] a(4) by simp
  then have "yields (\<lambda>r. parseExpr r p) x q"
    unfolding parseExpr_def by (intro x(4) loop_stops [of 0]) (simp_all add: closer_may_follow)
  then show "\<exists>x q. after (length s) p q \<and> T x \<and> yields (\<lambda>r. parseExpr r p) x q" using x by auto
qed

section \<open>Operators\<close>

lemma operator_tokens:
  "op \<in> snd ` set binary_ops \<Longrightarrow> binary_op_of (fst (tok (Operator op))) = op \<and> op \<noteq> [] \<and> 0 \<le> precedence op \<and> precedence op \<le> 8 \<and>
     fst (tok (Operator op)) \<notin> {TokenLParen, TokenDot, TokenAssign, TokenAt, TokenLBracket, TokenQuestion, TokenEOF, TokenLBrace}"
proof -
  have "list_all (\<lambda>op. binary_op_of (fst (tok (Operator op))) = op \<and> op \<noteq> [] \<and> 0 \<le> precedence op \<and> precedence op \<le> 8 \<and>
     fst (tok (Operator op)) \<notin> {TokenLParen, TokenDot, TokenAssign, TokenAt, TokenLBracket, TokenQuestion, TokenEOF, TokenLBrace}) (map snd binary_ops)"
    by code_simp
  then show "op \<in> snd ` set binary_ops \<Longrightarrow> ?thesis" by (auto simp: list_all_iff)
qed

lemma alloc_binary: "\<exists>l. alloc (BinaryExpr a op b 0) p = BinaryExpr a op b l"
  "\<exists>l. alloc (IndexExpr a b 0) p = IndexExpr a b l" "\<exists>l. alloc (MatrixIndexExpr a b c 0) p = MatrixIndexExpr a b c l"
  "\<exists>l. alloc (UnaryExpr op a 0) p = UnaryExpr op a l"
  by (auto simp: alloc_def setNodeLine_def)

lemma sees_split: "sees p (map tok (a @ b) @ ts) \<longleftrightarrow> sees p (map tok a @ map tok b @ ts)"
  by simp

lemma rest_ok_lexemes: "rest_ok ts \<Longrightarrow> TokenLBrace \<notin> fst ` tok ` set s \<Longrightarrow> rest_ok (map tok s @ ts)"
  by (rule rest_ok_append) auto

text \<open>Lexemes that are no opening brace.\<close>

definition braceless :: "lexeme list \<Rightarrow> bool" where
  "braceless s \<longleftrightarrow> list_all (\<lambda>x. lexeme_type x \<noteq> TokenLBrace) s"

lemma rest_ok_braceless: "rest_ok ts \<Longrightarrow> braceless s \<Longrightarrow> rest_ok (map tok s @ ts)"
  by (rule rest_ok_append) (auto simp: braceless_def list_all_iff tok_def)

lemma braceless_simps [simp]:
  "braceless []" "braceless (x # s) \<longleftrightarrow> lexeme_type x \<noteq> TokenLBrace \<and> braceless s" "braceless (s @ s') \<longleftrightarrow> braceless s \<and> braceless s'"
  by (simp_all add: braceless_def)

lemma bin_reads:
  assumes "op \<in> snd ` set binary_ops" "operand_reads (precedence op) a A" "operand_reads (precedence op + 1) b B" "braceless b"
    and B: "\<And>y. B y \<Longrightarrow> \<not> is_nil y"
  shows "operand_reads (precedence op) (a @ [Operator op] @ b) (\<lambda>n. \<exists>x y l. n = BinaryExpr x op y l \<and> A x \<and> B y)"
  unfolding operand_reads_def
proof (intro allI impI)
  fix p ts m
  let ?k = "precedence op" and ?t = "tok (Operator op)"
  assume h: "quiet p" "sees p (map tok (a @ [Operator op] @ b) @ ts)" "rest_ok ts" "may_follow ?k (fst (hd ts))" "m \<le> ?k"
  note t = operator_tokens [OF assms(1)]
  have ok: "rest_ok (map tok b @ ts)" using h(3) assms(4) by (rule rest_ok_braceless)
  then have ok': "rest_ok (?t # map tok b @ ts)" using t by (auto simp: rest_ok_def)
  have s: "sees p (map tok a @ ?t # map tok b @ ts)" using h(2) by simp
  have f: "may_follow ?k (fst (hd (?t # map tok b @ ts)))" using t by (auto simp: may_follow_def)
  obtain x q where x: "after (length a) p q" "A x" "sees q (?t # map tok b @ ts)" "quiet q"
    "\<And>y z. yields (\<lambda>r. k_loop r x m q) y z \<Longrightarrow> yields (\<lambda>r. k_binary r NoNode m p) y z"
    by (rule operandD [OF assms(2) h(1) s ok' f h(5)]) blast
  have q: "cur q = fst ?t" "sees (nextToken q) (map tok b @ ts)" "quiet (nextToken q)" using x by simp_all
  have f': "may_follow (?k + 1) (fst (hd ts))" using may_follow_mono [OF h(4)] by simp
  obtain y q' where y: "after (length b) (nextToken q) q'" "B y" "sees q' ts"
    "\<And>v z. yields (\<lambda>r. k_loop r y (?k + 1) q') v z \<Longrightarrow> yields (\<lambda>r. k_binary r NoNode (?k + 1) (nextToken q)) v z"
    by (rule operandD [OF assms(3) q(3,2) h(3) f' order_refl]) blast
  have "yields (\<lambda>r. k_loop r y (?k + 1) q') y q'"
    by (rule loop_stops [of ?k]) (use sees_hd [OF y(3) h(3)] h(4) t in auto)
  then have r: "yields (\<lambda>r. k_binary r NoNode (?k + 1) (nextToken q)) y q'" by (rule y(4))
  have "yields (\<lambda>r. k_binary r NoNode m p) v z" if "yields (\<lambda>r. k_loop r (alloc (BinaryExpr x op y 0) q') m q') v z" for v z
  proof (rule x(5))
    have "yields (\<lambda>r. binary_round r x m q) v z"
      using t h(5) q(1) yields_bind [OF r, of "\<lambda>r right p. let p = require right (''expected expression after '' @ quoted op @ '' operator'') p
             in k_loop r (alloc (BinaryExpr x op right 0) p) m p"] that B [OF y(2)]
      by (simp add: binary_round_def require_def Let_def)
    then show "yields (\<lambda>r. k_loop r x m q) v z" using t q(1) by (subst loop_skips) auto
  qed
  moreover have "after (length (a @ [Operator op] @ b)) p q'"
    using after_trans [OF after_next [OF x(1)] y(1)] by simp
  moreover obtain l where "alloc (BinaryExpr x op y 0) q' = BinaryExpr x op y l" using alloc_binary(1) by blast
  ultimately show "\<exists>n q'. after (length (a @ [Operator op] @ b)) p q' \<and> (\<exists>x y l. n = BinaryExpr x op y l \<and> A x \<and> B y) \<and>
      (\<forall>v z. yields (\<lambda>r. k_loop r n m q') v z \<longrightarrow> yields (\<lambda>r. k_binary r NoNode m p) v z)"
    using x(2) y(2) by (intro exI [of _ "BinaryExpr x op y l"] exI [of _ q']) auto
qed

section \<open>Brackets and the question mark\<close>

lemma loop_bracket:
  assumes "\<And>w s. yields (\<lambda>r. k_brackets r x' q') w s \<Longrightarrow> yields (\<lambda>r. k_brackets r x q) w s" "yields (\<lambda>r. k_loop r x' m q') y z"
  shows "yields (\<lambda>r. k_loop r x m q) y z"
proof -
  let ?g = "\<lambda>r left p. andThen (k_calls r left p)
    (\<lambda>left p. let (left, p) = postfix_at left p; (left, p) = postfix_question left p in binary_round r left m p)"
  have mono: "approx (k_brackets (calls_at n) x' q') (k_brackets (calls_at n') x' q')" if "n \<le> n'" for n n'
    using more_fuel.brackets_more [OF more_fuel_le [OF that]] .
  have y: "yields (\<lambda>r. andThen (k_brackets r x' q') (?g r)) y z"
    using assms(2) by (simp only: yields_calls(2) binary_loop_def)
  obtain w s where w: "yields (\<lambda>r. k_brackets r x' q') w s" "yields (\<lambda>r. ?g r w s) y z"
    by (rule yields_split [of "\<lambda>r. k_brackets r x' q'" ?g, OF mono y])
  show ?thesis unfolding yields_calls(2) binary_loop_def by (rule yields_bind [OF assms(1) [OF w(1)]]) (rule w(2))
qed

lemma bracket_reads:
  assumes "operand_reads 10 a A" "s \<noteq> []" "lexeme_type (hd s) = TokenLBracket" "braceless s"
    and step: "\<And>x q ts. A x \<Longrightarrow> quiet q \<Longrightarrow> sees q (map tok s @ ts) \<Longrightarrow> rest_ok ts \<Longrightarrow> cur q = TokenLBracket \<Longrightarrow>
      \<exists>x' q'. after (length s) q q' \<and> T x' \<and> (\<forall>w z. yields (\<lambda>r. k_brackets r x' q') w z \<longrightarrow> yields (\<lambda>r. k_brackets r x q) w z)"
  shows "operand_reads 10 (a @ s) T"
  unfolding operand_reads_def
proof (intro allI impI)
  fix p ts m
  assume h: "quiet p" "sees p (map tok (a @ s) @ ts)" "rest_ok ts" "may_follow 10 (fst (hd ts))" "m \<le> (10 :: int)"
  have hd: "hd (map tok s @ ts) = tok (hd s)" using assms(2) by (cases s) simp_all
  have f: "may_follow 10 (fst (hd (map tok s @ ts)))" using assms(3) by (simp add: hd tok_def may_follow_def)
  have ok: "rest_ok (map tok s @ ts)" using h(3) assms(4) by (rule rest_ok_braceless)
  have se: "sees p (map tok a @ map tok s @ ts)" using h(2) by simp
  obtain x q where x: "after (length a) p q" "A x" "sees q (map tok s @ ts)" "quiet q"
    "\<And>y z. yields (\<lambda>r. k_loop r x m q) y z \<Longrightarrow> yields (\<lambda>r. k_binary r NoNode m p) y z"
    by (rule operandD [OF assms(1) h(1) se ok f h(5)]) blast
  have "cur q = TokenLBracket" using sees_hd [OF x(3) ok] assms(3) by (simp add: hd tok_def)
  with step [OF x(2,4,3) h(3)] obtain x' q' where x': "after (length s) q q'" "T x'"
    "\<And>w z. yields (\<lambda>r. k_brackets r x' q') w z \<Longrightarrow> yields (\<lambda>r. k_brackets r x q) w z" by blast
  have "yields (\<lambda>r. k_binary r NoNode m p) y z" if "yields (\<lambda>r. k_loop r x' m q') y z" for y z
    using x(5) loop_bracket [OF x'(3) that] by blast
  then show "\<exists>x q. after (length (a @ s)) p q \<and> T x \<and>
      (\<forall>y z. yields (\<lambda>r. k_loop r x m q) y z \<longrightarrow> yields (\<lambda>r. k_binary r NoNode m p) y z)"
    using x'(2) after_trans [OF x(1) x'(1)] by (intro exI [of _ x'] exI [of _ q']) simp
qed

lemma try_reads:
  assumes "operand_reads 10 a A"
  shows "operand_reads 9 (a @ [Operator ''?'']) (\<lambda>n. \<exists>x l. n = PropagateExpr x l \<and> A x)"
  unfolding operand_reads_def
proof (intro allI impI)
  fix p ts m
  let ?t = "tok (Operator ''?'')"
  assume h: "quiet p" "sees p (map tok (a @ [Operator ''?'']) @ ts)" "rest_ok ts" "may_follow 9 (fst (hd ts))" "m \<le> (9 :: int)"
  have t: "fst ?t = TokenQuestion" by (simp add: tok_def operators_def)
  have f: "may_follow 10 (fst (hd (?t # ts)))" by (simp add: t may_follow_def)
  have ok: "rest_ok (?t # ts)" using h(3) t by (auto simp: rest_ok_def)
  have se: "sees p (map tok a @ ?t # ts)" using h(2) by simp
  have m: "m \<le> 10" using h(5) by simp
  obtain x q where x: "after (length a) p q" "A x" "sees q (?t # ts)"
    "\<And>y z. yields (\<lambda>r. k_loop r x m q) y z \<Longrightarrow> yields (\<lambda>r. k_binary r NoNode m p) y z"
    by (rule operandD [OF assms h(1) se ok f m]) blast
  have q: "cur q = TokenQuestion" "sees (nextToken q) ts" using x(3) t by simp_all
  have b: "yields (\<lambda>r. k_brackets r x q) x q" "yields (\<lambda>r. k_calls r x q) x q"
    using q by (simp_all add: yields_calls brackets_loop_def calls_loop_def)
  have "yields (\<lambda>r. k_binary r NoNode m p) y z" if "yields (\<lambda>r. k_loop r (PropagateExpr x 0) m (nextToken q)) y z" for y z
  proof (rule x(4))
    have "cur (nextToken q) \<notin> {TokenLBracket, TokenLParen, TokenAt, TokenQuestion}"
      using sees_hd [OF q(2) h(3)] h(4) by (auto simp: may_follow_def)
    then have "yields (\<lambda>r. binary_round r (PropagateExpr x 0) m (nextToken q)) y z" using that by (simp add: loop_skips)
    then show "yields (\<lambda>r. k_loop r x m q) y z" unfolding yields_calls(2) binary_loop_def
      by (intro yields_bind [OF b(1)] yields_bind [OF b(2)]) (simp add: postfix_at_def postfix_question_def q(1))
  qed
  then show "\<exists>n q. after (length (a @ [Operator ''?''])) p q \<and> (\<exists>x l. n = PropagateExpr x l \<and> A x) \<and>
      (\<forall>y z. yields (\<lambda>r. k_loop r n m q) y z \<longrightarrow> yields (\<lambda>r. k_binary r NoNode m p) y z)"
    using x(2) after_next [OF x(1)] by (intro exI [of _ "PropagateExpr x 0"] exI [of _ "nextToken q"]) auto
qed

text \<open>The lexemes begin with a token that starts an expression.\<close>

definition starts :: "lexeme list \<Rightarrow> bool" where
  "starts s \<longleftrightarrow> s \<noteq> [] \<and> lexeme_type (hd s) \<notin> {TokenColon, TokenRBracket, TokenRParen, TokenComma, TokenEOF}"

lemma starts_cur: "starts s \<Longrightarrow> sees p (map tok s @ ts) \<Longrightarrow> cur p \<notin> {TokenColon, TokenRBracket, TokenRParen, TokenComma, TokenEOF}"
  by (cases s) (auto simp: starts_def tok_def)

lemma closers: "closer TokenEOF" "closer TokenRParen" "closer TokenComma" "closer TokenRBracket" "closer TokenColon"
  by (simp_all add: closer_def)

lemma operator_types [simp]:
  "lexeme_type (Operator ''['') = TokenLBracket" "lexeme_type (Operator '']'') = TokenRBracket" "lexeme_type (Operator ''('') = TokenLParen"
  "lexeme_type (Operator '')'') = TokenRParen" "lexeme_type (Operator '','') = TokenComma" "lexeme_type (Operator '':'') = TokenColon"
  "lexeme_type (Operator ''.'') = TokenDot" "lexeme_type (Operator ''?'') = TokenQuestion" "lexeme_type (Operator ''-'') = TokenMinus"
  "lexeme_type (Operator ''!'') = TokenNot" "lexeme_type (Operator ''*'') = TokenStar"
  by (simp_all add: operators_def)

declare lexeme_type.simps(7) [simp del]

lemma rest_ok_Cons: "fst t \<noteq> TokenLBrace \<Longrightarrow> rest_ok ts \<Longrightarrow> rest_ok (t # ts)"
  by (auto simp: rest_ok_def)

lemma fst_tok [simp]: "fst (tok x) = lexeme_type x" and snd_tok [simp]: "snd (tok x) = lexeme_literal x"
  by (simp_all add: tok_def)

text \<open>An expression up to a closing lexeme.\<close>

lemma expr_upto:
  assumes "expr_reads s T" "quiet p" "sees p (map tok s @ tok c # ts)" "rest_ok ts" "closer (lexeme_type c)"
  obtains x q where "after (length s) p q" "T x" "cur q = lexeme_type c" "sees (nextToken q) ts" "quiet q" "sees q (tok c # ts)"
    "yields (\<lambda>r. parseExpr r p) x q"
proof -
  have ok: "rest_ok (tok c # ts)" using assms(4,5) by (intro rest_ok_Cons) (auto simp: closer_def)
  have c: "closer (fst (hd (tok c # ts)))" using assms(5) by simp
  show thesis by (rule exprD [OF assms(1-3) ok c]) (auto intro: that)
qed

lemma index_reads:
  assumes "operand_reads 10 a A" "expr_reads i I" "braceless i" "starts i"
  shows "operand_reads 10 (a @ [Operator ''[''] @ i @ [Operator '']'']) (\<lambda>n. \<exists>x y l. n = IndexExpr x y l \<and> A x \<and> I y)"
proof (rule bracket_reads [OF assms(1)])
  fix x q ts
  assume h: "A x" "quiet q" "sees q (map tok ([Operator ''[''] @ i @ [Operator '']'']) @ ts)" "rest_ok ts" "cur q = TokenLBracket"
  have s: "quiet (nextToken q)" "sees (nextToken q) (map tok i @ tok (Operator '']'') # ts)" using h by simp_all
  obtain y q' where y: "after (length i) (nextToken q) q'" "I y" "cur q' = lexeme_type (Operator '']'')"
    "yields (\<lambda>r. parseExpr r (nextToken q)) y q'"
    by (rule expr_upto [OF assms(2) s h(4)]) (simp_all add: closers)
  let ?n = "alloc (IndexExpr x y 0) (nextToken q')"
  have "yields (\<lambda>r. k_brackets r x q) w z" if "yields (\<lambda>r. k_brackets r ?n (nextToken q')) w z" for w z
    unfolding yields_calls(5) brackets_loop_def bracket_start_def
    using starts_cur [OF assms(4) s(2)] h(5) y(3)
    by (simp) (rule yields_bind [OF y(4)], use y(3) that in \<open>simp add: Let_def\<close>)
  moreover obtain l where "?n = IndexExpr x y l" using alloc_binary(2) by blast
  moreover have "after (length ([Operator ''[''] @ i @ [Operator '']''])) q (nextToken q')"
    using after_next [OF after_trans [OF after_next [OF after_0] y(1)]] by simp
  ultimately show "\<exists>x' q'. after (length ([Operator ''[''] @ i @ [Operator '']''])) q q' \<and> (\<exists>x y l. x' = IndexExpr x y l \<and> A x \<and> I y) \<and>
      (\<forall>w z. yields (\<lambda>r. k_brackets r x' q') w z \<longrightarrow> yields (\<lambda>r. k_brackets r x q) w z)"
    using h(1) y(2) by (intro exI [of _ ?n] exI [of _ "nextToken q'"]) auto
qed (use assms in auto)

lemma index2_reads:
  assumes "operand_reads 10 a A" "expr_reads i I" "braceless i" "starts i" "expr_reads j J" "braceless j" "starts j"
  shows "operand_reads 10 (a @ [Operator ''[''] @ i @ [Operator '',''] @ j @ [Operator '']''])
    (\<lambda>n. \<exists>x y z l. n = MatrixIndexExpr x y z l \<and> A x \<and> I y \<and> J z)"
proof (rule bracket_reads [OF assms(1)])
  fix x q ts
  let ?s = "[Operator ''[''] @ i @ [Operator '',''] @ j @ [Operator '']'']"
  assume h: "A x" "quiet q" "sees q (map tok ?s @ ts)" "rest_ok ts" "cur q = TokenLBracket"
  have s: "quiet (nextToken q)" "sees (nextToken q) (map tok i @ tok (Operator '','') # map tok (j @ [Operator '']'']) @ ts)" using h by simp_all
  have ok: "rest_ok (map tok (j @ [Operator '']'']) @ ts)" by (rule rest_ok_braceless [OF h(4)]) (simp add: assms)
  obtain y q1 where y: "after (length i) (nextToken q) q1" "I y" "cur q1 = lexeme_type (Operator '','')" "quiet q1"
    "sees (nextToken q1) (map tok (j @ [Operator '']'']) @ ts)" "yields (\<lambda>r. parseExpr r (nextToken q)) y q1"
    by (rule expr_upto [OF assms(2) s ok]) (simp_all add: closers)
  have s1: "quiet (nextToken q1)" "sees (nextToken q1) (map tok j @ tok (Operator '']'') # ts)" using y by simp_all
  obtain v q2 where v: "after (length j) (nextToken q1) q2" "J v" "cur q2 = lexeme_type (Operator '']'')"
    "yields (\<lambda>r. parseExpr r (nextToken q1)) v q2"
    by (rule expr_upto [OF assms(5) s1 h(4)]) (simp_all add: closers)
  let ?n = "alloc (MatrixIndexExpr x y v 0) (nextToken q2)"
  have "yields (\<lambda>r. k_brackets r x q) w z" if "yields (\<lambda>r. k_brackets r ?n (nextToken q2)) w z" for w z
  proof -
    let ?g = "\<lambda>r col p. let p = nextToken p in k_brackets r (alloc (MatrixIndexExpr x y col 0) p) p"
    have "yields (\<lambda>r. andThen (parseExpr r (nextToken q1)) (?g r)) w z"
      by (rule yields_bind [OF v(4)]) (simp add: that Let_def)
    then show ?thesis
      unfolding yields_calls(5) brackets_loop_def bracket_start_def
      using starts_cur [OF assms(4) s(2)] h(5) y(3) by simp (rule yields_bind [OF y(6)], simp)
  qed
  moreover obtain l where "?n = MatrixIndexExpr x y v l" using alloc_binary(3) by blast
  moreover have "after (length ?s) q (nextToken q2)"
    using after_next [OF after_trans [OF after_next [OF after_trans [OF after_next [OF after_0] y(1)]] v(1)]] by simp
  ultimately show "\<exists>x' q'. after (length ?s) q q' \<and> (\<exists>x y z l. x' = MatrixIndexExpr x y z l \<and> A x \<and> I y \<and> J z) \<and>
      (\<forall>w z. yields (\<lambda>r. k_brackets r x' q') w z \<longrightarrow> yields (\<lambda>r. k_brackets r x q) w z)"
    using h(1) y(2) v(2) by (intro exI [of _ ?n] exI [of _ "nextToken q2"]) auto
qed (use assms in auto)

lemma slice_reads:
  assumes "operand_reads 10 a A" "expr_reads i I" "braceless i" "starts i" "expr_reads j J" "braceless j" "starts j"
  shows "operand_reads 10 (a @ [Operator ''[''] @ i @ [Operator '':''] @ j @ [Operator '']''])
    (\<lambda>n. \<exists>x y z l. n = SliceExpr x y z l \<and> A x \<and> I y \<and> J z)"
proof (rule bracket_reads [OF assms(1)])
  fix x q ts
  let ?s = "[Operator ''[''] @ i @ [Operator '':''] @ j @ [Operator '']'']"
  assume h: "A x" "quiet q" "sees q (map tok ?s @ ts)" "rest_ok ts" "cur q = TokenLBracket"
  have s: "quiet (nextToken q)" "sees (nextToken q) (map tok i @ tok (Operator '':'') # map tok (j @ [Operator '']'']) @ ts)" using h by simp_all
  have ok: "rest_ok (map tok (j @ [Operator '']'']) @ ts)" by (rule rest_ok_braceless [OF h(4)]) (simp add: assms)
  obtain y q1 where y: "after (length i) (nextToken q) q1" "I y" "cur q1 = lexeme_type (Operator '':'')" "quiet q1"
    "sees (nextToken q1) (map tok (j @ [Operator '']'']) @ ts)" "yields (\<lambda>r. parseExpr r (nextToken q)) y q1"
    by (rule expr_upto [OF assms(2) s ok]) (simp_all add: closers)
  have s1: "quiet (nextToken q1)" "sees (nextToken q1) (map tok j @ tok (Operator '']'') # ts)" using y by simp_all
  obtain v q2 where v: "after (length j) (nextToken q1) q2" "J v" "cur q2 = lexeme_type (Operator '']'')"
    "yields (\<lambda>r. parseExpr r (nextToken q1)) v q2"
    by (rule expr_upto [OF assms(5) s1 h(4)]) (simp_all add: closers)
  let ?n = "SliceExpr x y v 0"
  have "yields (\<lambda>r. k_brackets r x q) w z" if "yields (\<lambda>r. k_brackets r ?n (nextToken q2)) w z" for w z
  proof -
    let ?g = "\<lambda>r stop p. k_brackets r (SliceExpr x y stop 0) (nextToken p)"
    have "yields (\<lambda>r. andThen (parseExpr r (nextToken q1)) (?g r)) w z"
      by (rule yields_bind [OF v(4)]) (simp add: that)
    then show ?thesis
      unfolding yields_calls(5) brackets_loop_def bracket_start_def slice_end_def
      using starts_cur [OF assms(4) s(2)] starts_cur [OF assms(7) s1(2)] h(5) y(3) by simp (rule yields_bind [OF y(6)], simp)
  qed
  moreover have "after (length ?s) q (nextToken q2)"
    using after_next [OF after_trans [OF after_next [OF after_trans [OF after_next [OF after_0] y(1)]] v(1)]] by simp
  ultimately show "\<exists>x' q'. after (length ?s) q q' \<and> (\<exists>x y z l. x' = SliceExpr x y z l \<and> A x \<and> I y \<and> J z) \<and>
      (\<forall>w z. yields (\<lambda>r. k_brackets r x' q') w z \<longrightarrow> yields (\<lambda>r. k_brackets r x q) w z)"
    using h(1) y(2) v(2) by (intro exI [of _ ?n] exI [of _ "nextToken q2"]) auto
qed (use assms in auto)

lemma open_slice_reads:
  assumes "operand_reads 10 a A" "expr_reads i I" "braceless i" "starts i"
  shows "operand_reads 10 (a @ [Operator ''[''] @ i @ [Operator '':'', Operator '']''])
    (\<lambda>n. \<exists>x y l. n = SliceExpr x y NoNode l \<and> A x \<and> I y)"
proof (rule bracket_reads [OF assms(1)])
  fix x q ts
  let ?s = "[Operator ''[''] @ i @ [Operator '':'', Operator '']'']"
  assume h: "A x" "quiet q" "sees q (map tok ?s @ ts)" "rest_ok ts" "cur q = TokenLBracket"
  have s: "quiet (nextToken q)" "sees (nextToken q) (map tok i @ tok (Operator '':'') # tok (Operator '']'') # ts)" using h by simp_all
  have ok: "rest_ok (tok (Operator '']'') # ts)" by (rule rest_ok_Cons [OF _ h(4)]) simp
  obtain y q1 where y: "after (length i) (nextToken q) q1" "I y" "cur q1 = lexeme_type (Operator '':'')"
    "sees (nextToken q1) (tok (Operator '']'') # ts)" "yields (\<lambda>r. parseExpr r (nextToken q)) y q1"
    by (rule expr_upto [OF assms(2) s ok]) (simp_all add: closers)
  let ?n = "SliceExpr x y NoNode 0" and ?q = "nextToken (nextToken q1)"
  have "yields (\<lambda>r. k_brackets r x q) w z" if "yields (\<lambda>r. k_brackets r ?n ?q) w z" for w z
    unfolding yields_calls(5) brackets_loop_def bracket_start_def slice_end_def
    using starts_cur [OF assms(4) s(2)] h(5) y(3,4) by simp (rule yields_bind [OF y(5)], simp add: that)
  moreover have "after (length ?s) q ?q"
    using after_next [OF after_next [OF after_trans [OF after_next [OF after_0] y(1)]]] by simp
  ultimately show "\<exists>x' q'. after (length ?s) q q' \<and> (\<exists>x y l. x' = SliceExpr x y NoNode l \<and> A x \<and> I y) \<and>
      (\<forall>w z. yields (\<lambda>r. k_brackets r x' q') w z \<longrightarrow> yields (\<lambda>r. k_brackets r x q) w z)"
    using h(1) y(2) by (intro exI [of _ ?n] exI [of _ ?q]) auto
qed (use assms in auto)

section \<open>Prefix operators and primary expressions\<close>

lemma unaryI:
  assumes "\<And>p ts. quiet p \<Longrightarrow> sees p (map tok s @ ts) \<Longrightarrow> rest_ok ts \<Longrightarrow> may_follow 11 (fst (hd ts)) \<Longrightarrow>
    \<exists>x q. after (length s) p q \<and> T x \<and> yields (\<lambda>r. k_unary r p) x q"
  shows "unary_reads s T"
  unfolding unary_reads_def using assms by blast

lemma primary_unary:
  assumes "cur p \<notin> {TokenMinus, TokenNot, TokenStar}" "yields (\<lambda>r. parsePrimaryExpr r p) x q"
  shows "yields (\<lambda>r. k_unary r p) x q"
  using assms unfolding yields_calls(3) parseUnary_def by (simp add: yields_calls(4))

lemma quiet_ifCond [simp]: "quiet p \<Longrightarrow> p\<lparr>ps_ifCond := False\<rparr> = p" "quiet p \<Longrightarrow> \<not> ps_ifCond p"
  by (auto simp: quiet_def)

lemma group_reads:
  assumes "expr_reads s T"
  shows "unary_reads ([Operator ''(''] @ s @ [Operator '')'']) T"
proof (rule unaryI)
  fix p ts
  let ?s = "[Operator ''(''] @ s @ [Operator '')'']"
  assume h: "quiet p" "sees p (map tok ?s @ ts)" "rest_ok ts" "may_follow 11 (fst (hd ts))"
  let ?p = "nextToken (SetLine p)"
  have s: "quiet ?p" "sees ?p (map tok s @ tok (Operator '')'') # ts)" using h sees_SetLine [of p "map tok ?s @ ts"]
    by (simp_all del: sees_SetLine)
  obtain x q where x: "after (length s) ?p q" "T x" "quiet q" "yields (\<lambda>r. parseExpr r ?p) x q"
    by (rule expr_upto [OF assms s h(3)]) (simp_all add: closers)
  have "yields (\<lambda>r. parse_group r (SetLine p)) x (nextToken q)"
    unfolding parse_group_def using h(1) x(3)
    by (simp add: Let_def) (rule yields_bind [of _ x q], use x(4) in simp_all)
  then have "yields (\<lambda>r. k_unary r p) x (nextToken q)" using h(2) by (intro primary_unary) (simp_all add: parsePrimaryExpr_def Let_def)
  moreover have "after (length ?s) p (nextToken q)"
    using after_next [OF after_trans [OF after_next [OF after_SetLine [OF after_0]] x(1)]] by simp
  ultimately show "\<exists>x q. after (length ?s) p q \<and> T x \<and> yields (\<lambda>r. k_unary r p) x q" using x(2) by blast
qed

lemma prefix_reads:
  assumes "unary_reads s T" "op \<in> {''-'', ''!''}" and T: "\<And>x. T x \<Longrightarrow> \<not> is_nil x"
  shows "unary_reads (Operator op # s) (\<lambda>n. \<exists>x l. n = UnaryExpr op x l \<and> T x)"
proof (rule unaryI)
  fix p ts
  assume h: "quiet p" "sees p (map tok (Operator op # s) @ ts)" "rest_ok ts" "may_follow 11 (fst (hd ts))"
  have s: "quiet (nextToken p)" "sees (nextToken p) (map tok s @ ts)" using h by simp_all
  obtain x q where x: "after (length s) (nextToken p) q" "T x" "yields (\<lambda>r. k_unary r (nextToken p)) x q"
    by (rule unaryD [OF assms(1) s h(3,4)]) blast
  obtain l where l: "alloc (UnaryExpr op x 0) q = UnaryExpr op x l" using alloc_binary(4) by blast
  have c: "cur p = (if op = ''-'' then TokenMinus else TokenNot)" using h(2) assms(2) by auto
  have "yields (\<lambda>r. k_unary r p) (UnaryExpr op x l) q"
  proof (cases "op = ''-''")
    case True
    then show ?thesis unfolding yields_calls(3) parseUnary_def using c T [OF x(2)] l
      by simp (rule yields_bind [OF x(3)], simp add: require_def Let_def)
  next
    case False
    then have "op = ''!''" using assms(2) by simp
    then show ?thesis unfolding yields_calls(3) parseUnary_def using c T [OF x(2)] l
      by simp (rule yields_bind [OF x(3)], simp add: require_def Let_def)
  qed
  moreover have "after (length (Operator op # s)) p q" using after_trans [OF after_next [OF after_0] x(1)] by simp
  ultimately show "\<exists>n q. after (length (Operator op # s)) p q \<and> (\<exists>x l. n = UnaryExpr op x l \<and> T x) \<and> yields (\<lambda>r. k_unary r p) n q"
    using x(2) by blast
qed

lemma deref_reads:
  assumes "unary_reads s T" and T: "\<And>x. T x \<Longrightarrow> \<not> is_nil x"
  shows "unary_reads (Operator ''*'' # s) (\<lambda>n. \<exists>x l. n = Dereference x l \<and> T x)"
proof (rule unaryI)
  fix p ts
  assume h: "quiet p" "sees p (map tok (Operator ''*'' # s) @ ts)" "rest_ok ts" "may_follow 11 (fst (hd ts))"
  have s: "quiet (nextToken p)" "sees (nextToken p) (map tok s @ ts)" using h by simp_all
  obtain x q where x: "after (length s) (nextToken p) q" "T x" "yields (\<lambda>r. k_unary r (nextToken p)) x q"
    by (rule unaryD [OF assms(1) s h(3,4)]) blast
  have "cur p = TokenStar" using h(2) by simp
  then have "yields (\<lambda>r. k_unary r p) (Dereference x 0) q"
    unfolding yields_calls(3) parseUnary_def using T [OF x(2)]
    by simp (rule yields_bind [OF x(3)], simp add: require_def)
  moreover have "after (length (Operator ''*'' # s)) p q" using after_trans [OF after_next [OF after_0] x(1)] by simp
  ultimately show "\<exists>n q. after (length (Operator ''*'' # s)) p q \<and> (\<exists>x l. n = Dereference x l \<and> T x) \<and> yields (\<lambda>r. k_unary r p) n q"
    using x(2) by blast
qed

text \<open>Literals are one token.\<close>

lemma literal_reads:
  assumes "lexeme_type c \<notin> {TokenMinus, TokenNot, TokenStar}"
    "\<And>p. cur p = lexeme_type c \<Longrightarrow> lit p = lexeme_literal c \<Longrightarrow>
      \<exists>x. T x \<and> (\<forall>r. parsePrimaryExpr r p = Return x (nextToken (SetLine p)))"
  shows "unary_reads [c] T"
proof (rule unaryI)
  fix p ts
  assume h: "quiet p" "sees p (map tok [c] @ ts)" "rest_ok ts" "may_follow 11 (fst (hd ts))"
  have c: "cur p = lexeme_type c" "lit p = lexeme_literal c" using h by simp_all
  obtain x where "T x" "\<And>r. parsePrimaryExpr r p = Return x (nextToken (SetLine p))" using assms(2) [OF c] by blast
  then have "yields (\<lambda>r. k_unary r p) x (nextToken (SetLine p))" using assms(1) c by (intro primary_unary) simp_all
  then show "\<exists>x q. after (length [c]) p q \<and> T x \<and> yields (\<lambda>r. k_unary r p) x q"
    using \<open>T x\<close> by (intro exI [of _ x] exI [of _ "nextToken (SetLine p)"]) simp
qed

lemma lit_SetLine [simp]: "lit (SetLine p) = lit p"
  by (simp add: lit_def SetLine_def)

lemma alloc_literal:
  "\<exists>l. alloc (IntLiteral d 0) p = IntLiteral d l" "\<exists>l. alloc (Float64Literal d 0) p = Float64Literal d l"
  "\<exists>l. alloc (BigIntLiteral d 0) p = BigIntLiteral d l" "\<exists>l. alloc (BigFloatLiteral d 0) p = BigFloatLiteral d l"
  "\<exists>l. alloc (StringLiteral d 0) p = StringLiteral d l" "\<exists>l. alloc (BoolLiteral b 0) p = BoolLiteral b l"
  "\<exists>l. alloc (Identifier d 0 0 0) p = Identifier d l 0 0"
  by (auto simp: alloc_def setNodeLine_def)

lemma literals_read:
  "unary_reads [IntLit d] (tree_of (EInt d))" "unary_reads [FloatLit a b] (tree_of (EFloat a b))"
  "unary_reads [BigIntLit d] (tree_of (EBigInt d))" "unary_reads [BigFloatLit a b] (tree_of (EBigFloat a b))"
  "unary_reads [StrLit s] (tree_of (EStr s))"
  by (rule literal_reads; simp add: parsePrimaryExpr_def parse_literal_def Let_def alloc_literal)+

lemma word_types [simp]:
  "lexeme_type (Word ''true'') = TokenTrue" "lexeme_type (Word ''false'') = TokenFalse" "lexeme_type (Word ''None'') = TokenNone"
  "lexeme_type (Word ''Some'') = TokenSome" "lexeme_type (Word ''Ok'') = TokenOk" "lexeme_type (Word ''Err'') = TokenErr"
  "lexeme_type (Word ''move'') = TokenMove"
  by code_simp+

declare lexeme_type.simps(1) [simp del]

lemma constants_read:
  "unary_reads [Word (if b then ''true'' else ''false'')] (tree_of (EBool b))" "unary_reads [Word ''None''] (tree_of ENone)"
  by (rule literal_reads; cases b; simp add: parsePrimaryExpr_def bool_literal_def Let_def alloc_literal)+

text \<open>Names and paths.\<close>

lemma name_reads:
  assumes "lookupIdent x = TokenIdent"
  shows "unary_reads [Word x] (tree_of (EName x))"
proof (rule unaryI)
  fix p ts
  assume h: "quiet p" "sees p (map tok [Word x] @ ts)" "rest_ok ts" "may_follow 11 (fst (hd ts))"
  let ?p = "nextToken (SetLine p)"
  have c: "cur p = TokenIdent" "lit p = x" "sees ?p ts" using h(2) assms sees_SetLine [of p "map tok [Word x] @ ts"]
    by (simp_all add: lexeme_type.simps del: sees_SetLine)
  have n: "cur ?p \<notin> {TokenLParen, TokenDot}" using sees_hd [OF c(3) h(3)] h(4) by (auto simp: may_follow_def)
  have b: "cur ?p \<noteq> TokenLBrace" using c(3) h(3) by (rule sees_brace)
  have "parseIdentExpr r (SetLine p) = ident_tail r x (cur_col (SetLine p)) ?p" for r
    using n c no_generic_args [OF c(3) h(3)] by (simp add: parseIdentExpr_def Let_def)
  moreover obtain n where "\<And>r. ident_tail r x (cur_col (SetLine p)) ?p = Return n ?p" "tree_of (EName x) n"
    using b by (simp add: ident_tail_def)
  ultimately have "yields (\<lambda>r. k_unary r p) n ?p" using c by (intro primary_unary) (simp_all add: parsePrimaryExpr_def Let_def)
  then show "\<exists>n q. after (length [Word x]) p q \<and> tree_of (EName x) n \<and> yields (\<lambda>r. k_unary r p) n q"
    using \<open>tree_of (EName x) n\<close> by (intro exI [of _ n] exI [of _ ?p]) simp
qed

abbreviation path :: "string list \<Rightarrow> lexeme list" where
  "path fs \<equiv> concat (map (\<lambda>f. [Operator ''.'', Word f]) fs)"

lemma dot_chain_reads:
  assumes "sees p (map tok (path fs) @ ts)" "rest_ok ts" "fst (hd ts) \<noteq> TokenDot"
  shows "\<exists>q. dot_chain e p = (foldl (\<lambda>e f. DotExpr e f 0) e fs, q) \<and> after (length (path fs)) p q"
  using assms(1)
proof (induction fs arbitrary: e p)
  case Nil
  then have "cur p \<noteq> TokenDot" using sees_hd [OF _ assms(2)] assms(3) by simp
  then show ?case by (subst dot_chain.simps) simp
next
  case (Cons f fs)
  let ?p = "nextToken (nextToken p)"
  have "cur p = TokenDot" "lit (nextToken p) = f" "sees ?p (map tok (path fs) @ ts)" using Cons.prems by simp_all
  with Cons.IH [of ?p "DotExpr e f 0"] obtain q where
    "dot_chain (DotExpr e f 0) ?p = (foldl (\<lambda>e f. DotExpr e f 0) (DotExpr e f 0) fs, q)" "after (length (path fs)) ?p q" by blast
  moreover from this(2) have "after (length (path (f # fs))) p q" using after_trans [OF after_next [OF after_next [OF after_0]]] by fastforce
  ultimately show ?case using \<open>cur p = TokenDot\<close> \<open>lit (nextToken p) = f\<close> by (subst dot_chain.simps) (simp add: Let_def)
qed

lemma path_reads:
  assumes "lookupIdent x = TokenIdent" "fs \<noteq> []"
  shows "unary_reads (Word x # path fs) (tree_of (EPath x fs))"
proof (rule unaryI)
  fix p ts
  assume h: "quiet p" "sees p (map tok (Word x # path fs) @ ts)" "rest_ok ts" "may_follow 11 (fst (hd ts))"
  obtain f gs where fs: "fs = f # gs" using assms(2) by (cases fs) auto
  let ?p = "nextToken (SetLine p)" and ?q = "nextToken (nextToken (nextToken (SetLine p)))"
  have c: "cur p = TokenIdent" "lit p = x" "cur ?p = TokenDot" "lit (nextToken ?p) = f" "sees ?q (map tok (path gs) @ ts)"
    using h(2) assms(1) sees_SetLine [of p "map tok (Word x # path fs) @ ts"]
    by (simp_all add: fs lexeme_type.simps(1) del: sees_SetLine)
  have "cur ?q \<noteq> TokenLParen" using c(5) sees_hd [of ?q ts] h(3,4) by (cases gs) (auto simp: may_follow_def)
  moreover have "ps_enumNames ?q = {}" using h(1) by (simp add: quiet_def SetLine_def)
  moreover obtain l where "alloc (Identifier x 0 0 0) ?q = Identifier x l 0 0" using alloc_literal(7) by blast
  moreover have "fst (hd ts) \<noteq> TokenDot" using h(4) by (auto simp: may_follow_def)
  then obtain q where q: "dot_chain (DotExpr (Identifier x l 0 0) f 0) ?q = (foldl (\<lambda>e f. DotExpr e f 0) (DotExpr (Identifier x l 0 0) f 0) gs, q)"
    "after (length (path gs)) ?q q" using dot_chain_reads [OF c(5) h(3)] by blast
  ultimately have "yields (\<lambda>r. k_unary r p) (foldl (\<lambda>e f. DotExpr e f 0) (Identifier x l 0 0) fs) q"
    using c(1-4) by (intro primary_unary) (simp_all add: parsePrimaryExpr_def parseIdentExpr_def ident_dot_def Let_def fs)
  moreover have "after (length (Word x # path fs)) p q"
    using after_trans [OF after_next [OF after_next [OF after_next [OF after_SetLine [OF after_0]]]] q(2)] by (simp add: fs)
  ultimately show "\<exists>n q. after (length (Word x # path fs)) p q \<and> tree_of (EPath x fs) n \<and> yields (\<lambda>r. k_unary r p) n q" by auto
qed

lemma wrap_reads:
  assumes "expr_reads s T" "w \<in> fst ` set wrap_words"
  shows "unary_reads ([Word (the (map_of wrap_words w)), Operator ''(''] @ s @ [Operator '')'']) (\<lambda>n. \<exists>x l. n = Wrap w x l \<and> T x)"
proof (rule unaryI)
  fix p ts
  let ?w = "the (map_of wrap_words w)"
  let ?s = "[Word ?w, Operator ''(''] @ s @ [Operator '')'']"
  assume h: "quiet p" "sees p (map tok ?s @ ts)" "rest_ok ts" "may_follow 11 (fst (hd ts))"
  let ?p = "nextToken (nextToken (SetLine p))"
  have s: "quiet ?p" "sees ?p (map tok s @ tok (Operator '')'') # ts)" using h sees_SetLine [of p "map tok ?s @ ts"]
    by (simp_all del: sees_SetLine)
  obtain x q where x: "after (length s) ?p q" "T x" "yields (\<lambda>r. parseExpr r ?p) x q"
    by (rule expr_upto [OF assms(1) s h(3)]) (simp_all add: closers)
  have "yields (\<lambda>r. keyword_paren r (SetLine p)) x (nextToken q)"
    unfolding keyword_paren_def by (rule yields_bind [OF x(3)]) simp
  then have g: "yields (\<lambda>r. wrap_paren r w (SetLine p)) (Wrap w x 0) (nextToken q)"
    unfolding wrap_paren_def by (rule yields_bind) simp
  have c: "cur p = lexeme_type (Word ?w)" using h(2) by simp
  have "yields (\<lambda>r. k_unary r p) (Wrap w x 0) (nextToken q)"
    using assms(2) c g by (intro primary_unary) (auto simp: wrap_words_def parsePrimaryExpr_def Let_def)
  moreover have "after (length ?s) p (nextToken q)"
    using after_next [OF after_trans [OF after_next [OF after_next [OF after_SetLine [OF after_0]]] x(1)]] by simp
  ultimately show "\<exists>n q. after (length ?s) p q \<and> (\<exists>x l. n = Wrap w x l \<and> T x) \<and> yields (\<lambda>r. k_unary r p) n q" using x(2) by blast
qed

section \<open>Lists of expressions\<close>

definition readable :: "lexeme list \<Rightarrow> (node \<Rightarrow> bool) \<Rightarrow> bool" where
  "readable s T \<longleftrightarrow> expr_reads s T \<and> braceless s \<and> starts s"

lemma commas_Cons: "commas (x # xs) = x @ concat (map (\<lambda>y. Operator '','' # y) xs)"
  by (induction xs arbitrary: x) simp_all

lemma braceless_concat: "\<forall>s \<in> set xs. braceless s \<Longrightarrow> braceless (concat (map (\<lambda>y. Operator '','' # y) xs))"
  by (induction xs) simp_all

lemma braceless_commas: "\<forall>s \<in> set xs. braceless s \<Longrightarrow> braceless (commas xs)"
  using braceless_concat [of "tl xs"] by (cases xs) (simp_all add: commas_Cons)

lemma starts_length: "starts s \<Longrightarrow> 0 < length s"
  by (cases s) (simp_all add: starts_def)

lemma args_read:
  assumes "\<forall>e \<in> set es. readable (f e) (T e)" "quiet p" "sees p (map tok (commas (map f es)) @ tok (Operator '')'') # ts)" "rest_ok ts"
  shows "\<exists>xs q. yields (\<lambda>r. k_args r c acc p) (acc @ xs) q \<and> list_all2 T es xs \<and> after (length (commas (map f es))) p q"
  using assms(1-3)
proof (induction es arbitrary: acc p)
  case Nil
  then have "yields (\<lambda>r. k_args r c acc p) (acc @ []) p" by (simp add: yields_args(1) args_loop_def)
  then show ?case by (intro exI [of _ "[]"] exI [of _ p]) simp
next
  case (Cons e es)
  have e: "expr_reads (f e) (T e)" "braceless (f e)" "starts (f e)" using Cons.prems(1) by (simp_all add: readable_def)
  have n: "0 < length (f e)" using starts_length [OF e(3)] .
  have cur: "cur p \<notin> {TokenRParen, TokenEOF}" using starts_cur [OF e(3)] Cons.prems(3) by (auto simp: commas_Cons)
  let ?st = "tk_Start (ps_cur p)"
  let ?go = "\<lambda>r x q. let p = skip_if TokenComma q; p = advanceIfStalled ?st c p in k_args r c (acc @ [x]) p"
  have loop: "yields (\<lambda>r. k_args r c acc p) ys z" if "yields (\<lambda>r. parseExpr r p) x q" "yields (\<lambda>r. ?go r x q) ys z" for x q ys z
    unfolding yields_args(1) args_loop_def using cur by (simp add: Let_def) (rule yields_bind [OF that(1)], use that(2) in \<open>simp add: Let_def\<close>)
  show ?case
  proof (cases es)
    case Nil
    obtain x q where x: "after (length (f e)) p q" "T e x" "cur q = lexeme_type (Operator '')'')" "yields (\<lambda>r. parseExpr r p) x q"
      by (rule expr_upto [OF e(1) Cons.prems(2) _ assms(4), of "Operator '')''"]) (use Cons.prems(3) Nil in \<open>simp_all add: closers\<close>)
    have "advanceIfStalled ?st c q = q"
      by (rule not_stalled [OF Cons.prems(3) x(1) n]) (simp add: Nil commas_Cons)
    then have "yields (\<lambda>r. ?go r x q) (acc @ [x]) q" using x(3) by (simp add: Let_def skip_if_def yields_args(1) args_loop_def)
    then have "yields (\<lambda>r. k_args r c acc p) (acc @ [x]) q" using loop [OF x(4)] by blast
    then show ?thesis using x(1,2) Nil by (intro exI [of _ "[x]"] exI [of _ q]) simp
  next
    case (Cons e' es')
    let ?us = "map tok (commas (map f es)) @ tok (Operator '')'') # ts"
    have br: "braceless (commas (map f es))" using Cons.prems(1) by (intro braceless_commas) (simp add: readable_def)
    have ok: "rest_ok ?us" using rest_ok_braceless [OF rest_ok_Cons [OF _ assms(4)] br] by simp
    have s: "sees p (map tok (f e) @ tok (Operator '','') # ?us)" using Cons.prems(3) by (simp add: Cons commas_Cons)
    obtain x q where x: "after (length (f e)) p q" "T e x" "cur q = lexeme_type (Operator '','')" "quiet q" "sees (nextToken q) ?us"
      "yields (\<lambda>r. parseExpr r p) x q"
      by (rule expr_upto [OF e(1) Cons.prems(2) s ok]) (simp_all add: closers)
    have st: "advanceIfStalled ?st c (nextToken q) = nextToken q"
      by (rule not_stalled [OF s after_next [OF x(1)]]) simp_all
    have "quiet (nextToken q)" "\<forall>e \<in> set es. readable (f e) (T e)" using x(4) Cons.prems(1) by simp_all
    then obtain xs z where z: "yields (\<lambda>r. k_args r c (acc @ [x]) (nextToken q)) ((acc @ [x]) @ xs) z" "list_all2 T es xs"
      "after (length (commas (map f es))) (nextToken q) z" using Cons.IH x(5) by blast
    have "yields (\<lambda>r. ?go r x q) (acc @ x # xs) z" using z(1) x(3) st by (simp add: Let_def skip_if_def)
    then have "yields (\<lambda>r. k_args r c acc p) (acc @ x # xs) z" using loop [OF x(6)] by blast
    moreover have "after (length (commas (map f (e # es)))) p z"
      using after_trans [OF after_next [OF x(1)] z(3)] by (simp add: Cons)
    ultimately show ?thesis using x(2) z(2) by (intro exI [of _ "x # xs"] exI [of _ z]) simp
  qed
qed

lemma call_reads:
  assumes "\<forall>e \<in> set es. readable (f e) (T e)" "lookupIdent g = TokenIdent"
  shows "unary_reads ([Word g, Operator ''(''] @ commas (map f es) @ [Operator '')''])
    (\<lambda>n. \<exists>xs l c d. n = CallExpr g [] xs False [] l c d \<and> list_all2 T es xs)"
proof (rule unaryI)
  fix p ts
  let ?s = "[Word g, Operator ''(''] @ commas (map f es) @ [Operator '')'']" and ?c = "''function call arguments''"
  assume h: "quiet p" "sees p (map tok ?s @ ts)" "rest_ok ts" "may_follow 11 (fst (hd ts))"
  let ?p = "nextToken (nextToken (SetLine p))"
  have c: "cur p = TokenIdent" "lit p = g" "cur (nextToken (SetLine p)) = TokenLParen" "quiet ?p"
    "sees ?p (map tok (commas (map f es)) @ tok (Operator '')'') # ts)"
    using h(1,2) assms(2) sees_SetLine [of p "map tok ?s @ ts"] by (simp_all add: lexeme_type.simps(1) del: sees_SetLine)
  obtain xs q where q: "yields (\<lambda>r. k_args r ?c [] ?p) ([] @ xs) q" "list_all2 T es xs" "after (length (commas (map f es))) ?p q"
    using args_read [OF assms(1) c(4,5) h(3)] by blast
  have a: "yields (\<lambda>r. call_args r ?c ?p) xs (nextToken q)"
    unfolding call_args_def by (rule yields_bind [OF q(1)]) simp
  let ?n = "CallExpr g [] xs False [] (ps_line (nextToken q)) (cur_col (SetLine p)) (cur_col (SetLine p) + int (length g))"
  have "yields (\<lambda>r. ident_call r g (cur_col (SetLine p)) (nextToken (SetLine p))) ?n (nextToken q)"
    unfolding ident_call_def by (rule yields_bind [OF a]) simp
  then have "yields (\<lambda>r. k_unary r p) ?n (nextToken q)"
    using c by (intro primary_unary) (simp_all add: parsePrimaryExpr_def parseIdentExpr_def Let_def)
  moreover have "after (length ?s) p (nextToken q)"
    using after_next [OF after_trans [OF after_next [OF after_next [OF after_SetLine [OF after_0]]] q(3)]] by simp
  ultimately show "\<exists>n q. after (length ?s) p q \<and> (\<exists>xs l c d. n = CallExpr g [] xs False [] l c d \<and> list_all2 T es xs) \<and>
      yields (\<lambda>r. k_unary r p) n q" using q(2) by blast
qed

lemma elems_read:
  assumes "\<forall>e \<in> set es. readable (f e) (T e)" "quiet p"
    "sees p (map tok (concat (map (\<lambda>e. Operator '','' # f e) es)) @ tok (Operator '']'') # ts)" "rest_ok ts"
  shows "\<exists>xs q. yields (\<lambda>r. k_elems r (Some c) acc p) (acc @ xs) q \<and> list_all2 T es xs \<and>
    after (length (concat (map (\<lambda>e. Operator '','' # f e) es))) p q"
  using assms(1-3)
proof (induction es arbitrary: acc p)
  case Nil
  then have "yields (\<lambda>r. k_elems r (Some c) acc p) (acc @ []) p" by (simp add: yields_args(2) elems_loop_def)
  then show ?case by (intro exI [of _ "[]"] exI [of _ p]) simp
next
  case (Cons e es)
  let ?rest = "concat (map (\<lambda>e. Operator '','' # f e) es)"
  let ?us = "map tok ?rest @ tok (Operator '']'') # ts" and ?p = "nextToken p"
  have e: "expr_reads (f e) (T e)" "starts (f e)" using Cons.prems(1) by (simp_all add: readable_def)
  have br: "braceless ?rest" using Cons.prems(1) braceless_concat [of "map f es"] by (simp add: readable_def comp_def)
  have ok: "rest_ok ?us" using rest_ok_braceless [OF rest_ok_Cons [OF _ assms(4)] br] by simp
  have cl: "closer (fst (hd ?us))" by (cases es) (simp_all add: closers)
  have s: "cur p = TokenComma" "sees ?p (map tok (f e) @ ?us)" "quiet ?p" using Cons.prems(2,3) by simp_all
  obtain x q where x: "after (length (f e)) ?p q" "T e x" "sees q ?us" "quiet q" "yields (\<lambda>r. parseExpr r ?p) x q"
    by (rule exprD [OF e(1) s(3,2) ok cl]) blast
  have st: "advanceIfStalled (tk_Start (ps_cur ?p)) c q = q"
    by (rule not_stalled [OF s(2) x(1) starts_length [OF e(2)]]) simp
  obtain xs z where z: "yields (\<lambda>r. k_elems r (Some c) (acc @ [x]) q) ((acc @ [x]) @ xs) z" "list_all2 T es xs" "after (length ?rest) q z"
    using Cons.IH [of q "acc @ [x]"] Cons.prems(1) x(3,4) by auto
  have "yields (\<lambda>r. k_elems r (Some c) acc p) (acc @ x # xs) z"
    unfolding yields_args(2) elems_loop_def using s(1) by (simp add: Let_def) (rule yields_bind [OF x(5)], use z(1) st in simp)
  moreover have "after (length (concat (map (\<lambda>e. Operator '','' # f e) (e # es)))) p z"
    using after_trans [OF after_trans [OF after_next [OF after_0] x(1)] z(3)] by simp
  ultimately show ?case using x(2) z(2) by (intro exI [of _ "x # xs"] exI [of _ z]) simp
qed

lemma array_reads:
  assumes "\<forall>e \<in> set es. readable (f e) (T e)"
  shows "unary_reads ([Operator ''[''] @ commas (map f es) @ [Operator '']'']) (\<lambda>n. \<exists>xs l. n = ArrayLiteral xs l \<and> list_all2 T es xs)"
proof (rule unaryI)
  fix p ts
  let ?s = "[Operator ''[''] @ commas (map f es) @ [Operator '']'']" and ?c = "Some ''array literal''"
  assume h: "quiet p" "sees p (map tok ?s @ ts)" "rest_ok ts" "may_follow 11 (fst (hd ts))"
  let ?p = "nextToken (SetLine p)"
  have c: "cur p = TokenLBracket" "quiet ?p" "sees ?p (map tok (commas (map f es)) @ tok (Operator '']'') # ts)"
    using h(1,2) sees_SetLine [of p "map tok ?s @ ts"] by (simp_all del: sees_SetLine)
  have "\<exists>xs q. yields (\<lambda>r. elem_list r TokenRBracket ?c ?p) xs q \<and> list_all2 T es xs \<and> after (length (commas (map f es))) ?p q"
  proof (cases es)
    case Nil
    then show ?thesis using c(3) by (intro exI [of _ "[]"] exI [of _ ?p]) (simp add: elem_list_def)
  next
    case (Cons e es')
    let ?rest = "concat (map (\<lambda>e. Operator '','' # f e) es')"
    let ?us = "map tok ?rest @ tok (Operator '']'') # ts"
    have e: "expr_reads (f e) (T e)" "starts (f e)" using assms Cons by (simp_all add: readable_def)
    have es: "commas (map f es) = f e @ ?rest" by (simp add: Cons commas_Cons comp_def)
    have br: "braceless ?rest" using assms Cons braceless_concat [of "map f es'"] by (simp add: readable_def comp_def)
    have ok: "rest_ok ?us" using rest_ok_braceless [OF rest_ok_Cons [OF _ h(3)] br] by simp
    have cl: "closer (fst (hd ?us))" by (cases es') (simp_all add: closers)
    have s: "sees ?p (map tok (f e) @ ?us)" using c(3) by (simp add: es)
    obtain x q where x: "after (length (f e)) ?p q" "T e x" "sees q ?us" "quiet q" "yields (\<lambda>r. parseExpr r ?p) x q"
      by (rule exprD [OF e(1) c(2) s ok cl]) blast
    obtain xs z where z: "yields (\<lambda>r. k_elems r ?c [x] q) ([x] @ xs) z" "list_all2 T es' xs" "after (length ?rest) q z"
      using elems_read [where T = T and acc = "[x]" and c = "''array literal''", OF _ x(4,3) h(3)] assms Cons by auto
    have "yields (\<lambda>r. elem_list r TokenRBracket ?c ?p) (x # xs) z"
      unfolding elem_list_def using starts_cur [OF e(2) s] by simp (rule yields_bind [OF x(5)], use z(1) in simp)
    moreover have "after (length (commas (map f es))) ?p z" using after_trans [OF x(1) z(3)] by (simp add: es)
    ultimately show ?thesis using x(2) z(2) Cons by (intro exI [of _ "x # xs"] exI [of _ z]) simp
  qed
  then obtain xs q where q: "yields (\<lambda>r. elem_list r TokenRBracket ?c ?p) xs q" "list_all2 T es xs" "after (length (commas (map f es))) ?p q"
    by blast
  have "yields (\<lambda>r. parseArrayLiteral r (SetLine p)) (ArrayLiteral xs 0) (nextToken q)"
    unfolding parseArrayLiteral_def by (rule yields_bind [OF q(1)]) simp
  then have "yields (\<lambda>r. k_unary r p) (ArrayLiteral xs 0) (nextToken q)"
    using c(1) by (intro primary_unary) (simp_all add: parsePrimaryExpr_def Let_def)
  moreover have "after (length ?s) p (nextToken q)"
    using after_next [OF after_trans [OF after_next [OF after_SetLine [OF after_0]] q(3)]] by simp
  ultimately show "\<exists>n q. after (length ?s) p q \<and> (\<exists>xs l. n = ArrayLiteral xs l \<and> list_all2 T es xs) \<and> yields (\<lambda>r. k_unary r p) n q"
    using q(2) by blast
qed

end
