(* ===== verification/Macros.thy ===== *)
theory Macros
  imports Parser
begin

text \<open>
  Macro expansion (pkg/parser/macro.go), which the commands run on every program they parse.  A macro
  may expand to a call of itself, so the model has fuel; an index out of range is a panic of its own.
\<close>

section \<open>The expander\<close>

datatype macro_error = NoMacroFuel | IndexPanic

type_synonym 'a expansion = "macro_error + 'a"

text \<open>\<open>MacroDeclStmt\<close>s by name: parameters and body.\<close>

type_synonym macro_table = "string \<rightharpoonup> string list \<times> node list"

definition NewMacroExpander :: macro_table where "NewMacroExpander = Map.empty"

definition RegisterMacro :: "node \<Rightarrow> macro_table \<Rightarrow> macro_table" where
  "RegisterMacro m t = (case m of MacroDeclStmt name params body _ _ \<Rightarrow> t(name \<mapsto> (params, body)) | _ \<Rightarrow> t)"

fun and_also :: "'a expansion \<Rightarrow> ('a \<Rightarrow> 'b expansion) \<Rightarrow> 'b expansion" where
  "and_also (Inl e) f = Inl e"
| "and_also (Inr x) f = f x"

text \<open>A loop that expands the nodes of a slice in order.\<close>

fun expand_each :: "(node \<Rightarrow> node expansion) \<Rightarrow> node list \<Rightarrow> node list expansion" where
  "expand_each f [] = Inr []"
| "expand_each f (n # ns) = and_also (f n) (\<lambda>n. and_also (expand_each f ns) (\<lambda>ns. Inr (n # ns)))"

text \<open>The loop over the pairs of a map literal; the values are read by the index of the key.\<close>

fun expand_pairs :: "(node \<Rightarrow> node expansion) \<Rightarrow> node list \<Rightarrow> node list \<Rightarrow> (node list \<times> node list) expansion" where
  "expand_pairs f [] vs = Inr ([], [])"
| "expand_pairs f (k # ks) [] = and_also (f k) (\<lambda>_. Inl IndexPanic)"
| "expand_pairs f (k # ks) (v # vs) =
     and_also (f k) (\<lambda>k. and_also (f v) (\<lambda>v. and_also (expand_pairs f ks vs) (\<lambda>(ks, vs). Inr (k # ks, v # vs))))"

definition substituteAndExpand :: "(node \<Rightarrow> node expansion) \<Rightarrow> (string \<rightharpoonup> node) \<Rightarrow> node \<Rightarrow> node expansion" where
  "substituteAndExpand expand env n =
     (case n of
        Identifier name _ _ _ \<Rightarrow> Inr (case env name of Some replacement \<Rightarrow> replacement | None \<Rightarrow> n)
      | UnquoteExpr e _ \<Rightarrow> expand e
      | _ \<Rightarrow> expand n)"

definition expandMacroCall :: "(node \<Rightarrow> node expansion) \<Rightarrow> macro_table \<Rightarrow> string \<Rightarrow> node list \<Rightarrow> node \<Rightarrow> node expansion" where
  "expandMacroCall expand macros name args call =
     (case macros name of
        None \<Rightarrow> Inr call
      | Some (params, body) \<Rightarrow>
          if length params \<noteq> length args then Inr call
          else
            and_also (expand_each (substituteAndExpand expand (map_of (rev (zip params args)))) body) (\<lambda>expandedBody.
              Inr (if length expandedBody = 1 then expandedBody ! 0 else ExprStmt (ArrayLiteral expandedBody 0) 0)))"

definition expand_step :: "(node \<Rightarrow> node expansion) \<Rightarrow> macro_table \<Rightarrow> node \<Rightarrow> node expansion" where
  "expand_step expand macros node =
     (case node of
        MacroExpandExpr name args _ \<Rightarrow> expandMacroCall expand macros name args node
      | UnquoteExpr e _ \<Rightarrow> expand e
      | ComptimeExpr e _ \<Rightarrow> expand e
      | FuncDecl name params types body gparams captures pub target line col ecol \<Rightarrow>
          and_also (expand_each expand body) (\<lambda>body.
            Inr (FuncDecl name params types body gparams captures pub target line col ecol))
      | VarDeclStmt name v typ cst mat simd al esc line col ecol \<Rightarrow>
          and_also (expand v) (\<lambda>v. Inr (VarDeclStmt name v typ cst mat simd al esc line col ecol))
      | BinaryExpr l op r line \<Rightarrow> and_also (expand l) (\<lambda>l. and_also (expand r) (\<lambda>r. Inr (BinaryExpr l op r line)))
      | CallExpr f m args c targs line col ecol \<Rightarrow>
          and_also (expand_each expand args) (\<lambda>args. Inr (CallExpr f m args c targs line col ecol))
      | IndirectCallExpr target args line col ecol \<Rightarrow>
          and_also (expand_each expand args) (\<lambda>args. and_also (expand target) (\<lambda>target.
            Inr (IndirectCallExpr target args line col ecol)))
      | ArrayLiteral elements line \<Rightarrow> and_also (expand_each expand elements) (\<lambda>elements. Inr (ArrayLiteral elements line))
      | MapLiteral keys values line \<Rightarrow>
          and_also (expand_pairs expand keys values) (\<lambda>(keys, values). Inr (MapLiteral keys values line))
      | IndexExpr l i line \<Rightarrow> and_also (expand l) (\<lambda>l. and_also (expand i) (\<lambda>i. Inr (IndexExpr l i line)))
      | DotExpr l f line \<Rightarrow> and_also (expand l) (\<lambda>l. Inr (DotExpr l f line))
      | StructLiteral t fs targs line \<Rightarrow> and_also (expand_each expand fs) (\<lambda>fs. Inr (StructLiteral t fs targs line))
      | IfStmt condition consequence alternative line \<Rightarrow>
          and_also (expand condition) (\<lambda>condition. and_also (expand_each expand consequence) (\<lambda>consequence.
          and_also (expand_each expand alternative) (\<lambda>alternative. Inr (IfStmt condition consequence alternative line))))
      | ExprStmt e line \<Rightarrow> and_also (expand e) (\<lambda>e. Inr (ExprStmt e line))
      | ReturnStmt e line \<Rightarrow> and_also (expand e) (\<lambda>e. Inr (ReturnStmt e line))
      | PrintStmt e line \<Rightarrow> and_also (expand e) (\<lambda>e. Inr (PrintStmt e line))
      | _ \<Rightarrow> Inr node)"

primrec expandNode :: "nat \<Rightarrow> macro_table \<Rightarrow> node \<Rightarrow> node expansion" where
  "expandNode 0 macros n = Inl NoMacroFuel"
| "expandNode (Suc k) macros n = expand_step (expandNode k macros) macros n"

text \<open>One statement of the second pass: the statements it becomes.\<close>

definition expand_stmt :: "nat \<Rightarrow> macro_table \<Rightarrow> node \<Rightarrow> node list expansion" where
  "expand_stmt k macros s =
     (case s of
        MacroDeclStmt _ _ _ _ _ \<Rightarrow> Inr []
      | ComptimeStmt body _ \<Rightarrow> expand_each (expandNode k macros) body
      | _ \<Rightarrow> and_also (expandNode k macros s) (\<lambda>s. Inr [s]))"

fun expand_stmts :: "nat \<Rightarrow> macro_table \<Rightarrow> node list \<Rightarrow> node list expansion" where
  "expand_stmts k macros [] = Inr []"
| "expand_stmts k macros (s # ss) =
     and_also (expand_stmt k macros s) (\<lambda>out. and_also (expand_stmts k macros ss) (\<lambda>outs. Inr (out @ outs)))"

definition ExpandProgram :: "nat \<Rightarrow> macro_table \<Rightarrow> Program \<Rightarrow> Program expansion" where
  "ExpandProgram k macros prog =
     (let macros = fold RegisterMacro (pg_Statements prog) macros
      in and_also (expand_stmts k macros (pg_Statements prog)) (\<lambda>stmts. Inr (prog\<lparr>pg_Statements := stmts\<rparr>)))"

definition ApplyMacroExpansion :: "nat \<Rightarrow> Program \<Rightarrow> Program expansion" where
  "ApplyMacroExpansion k prog = ExpandProgram k NewMacroExpander prog"



section \<open>Programs without macro syntax\<close>

text \<open>No macro call, unquote or comptime expression in the places the expander looks at, and map literals
  with as many values as keys (the parser reads both together).\<close>

function (sequential) plain_node :: "node \<Rightarrow> bool" where
  "plain_node n =
     (case n of
        MacroExpandExpr _ _ _ \<Rightarrow> False
      | UnquoteExpr _ _ \<Rightarrow> False
      | ComptimeExpr _ _ \<Rightarrow> False
      | FuncDecl _ _ _ body _ _ _ _ _ _ _ \<Rightarrow> list_all plain_node body
      | VarDeclStmt _ v _ _ _ _ _ _ _ _ _ \<Rightarrow> plain_node v
      | BinaryExpr l _ r _ \<Rightarrow> plain_node l \<and> plain_node r
      | CallExpr _ _ args _ _ _ _ _ \<Rightarrow> list_all plain_node args
      | IndirectCallExpr target args _ _ _ \<Rightarrow> list_all plain_node args \<and> plain_node target
      | ArrayLiteral elements _ \<Rightarrow> list_all plain_node elements
      | MapLiteral keys values _ \<Rightarrow> length keys = length values \<and> list_all plain_node keys \<and> list_all plain_node values
      | IndexExpr l i _ \<Rightarrow> plain_node l \<and> plain_node i
      | DotExpr l _ _ \<Rightarrow> plain_node l
      | StructLiteral _ fs _ _ \<Rightarrow> list_all plain_node fs
      | IfStmt condition consequence alternative _ \<Rightarrow>
          plain_node condition \<and> list_all plain_node consequence \<and> list_all plain_node alternative
      | ExprStmt e _ \<Rightarrow> plain_node e
      | ReturnStmt e _ \<Rightarrow> plain_node e
      | PrintStmt e _ \<Rightarrow> plain_node e
      | _ \<Rightarrow> True)"
  by pat_completeness auto
termination
  by (relation "measure size") (auto simp: child_size)

declare plain_node.simps [simp del]

lemma expand_each_same: "\<forall>n \<in> set ns. f n = Inr n \<Longrightarrow> expand_each f ns = Inr ns"
  by (induction ns) simp_all

lemma expand_pairs_same:
  "length ks = length vs \<Longrightarrow> \<forall>n \<in> set ks \<union> set vs. f n = Inr n \<Longrightarrow> expand_pairs f ks vs = Inr (ks, vs)"
  by (induction f ks vs rule: expand_pairs.induct) simp_all

lemma expandNode_plain: "plain_node n \<Longrightarrow> size n < k \<Longrightarrow> expandNode k macros n = Inr n"
proof (induction k arbitrary: n)
  case (Suc k)
  have each: "expand_each (expandNode k macros) ns = Inr ns" if "list_all plain_node ns" "size_list size ns < k" for ns
    using that Suc.IH child_size [of _ ns "k - 1"] by (intro expand_each_same) (force simp: list_all_iff)
  have one: "expandNode k macros m = Inr m" if "plain_node m" "size m < k" for m using that by (rule Suc.IH)
  have pairs: "expand_pairs (expandNode k macros) ks vs = Inr (ks, vs)"
    if "length ks = length vs" "list_all plain_node ks" "list_all plain_node vs" "size_list size ks < k" "size_list size vs < k" for ks vs
    using that Suc.IH child_size [of _ ks "k - 1"] child_size [of _ vs "k - 1"]
    by (intro expand_pairs_same) (force simp: list_all_iff)+
  show ?case using Suc.prems
    by (subst (asm) plain_node.simps)
      (auto simp: expand_step_def each one pairs split: node.splits wrapper.splits)
qed simp

text \<open>What is left of a statement of the program: a macro declaration goes, a comptime block is its body.\<close>

definition unfold_stmt :: "node \<Rightarrow> node list" where
  "unfold_stmt s = (case s of MacroDeclStmt _ _ _ _ _ \<Rightarrow> [] | ComptimeStmt body _ \<Rightarrow> body | _ \<Rightarrow> [s])"

lemma expand_stmt_plain:
  assumes "list_all plain_node (unfold_stmt s)" "size_list size (unfold_stmt s) < k"
  shows "expand_stmt k macros s = Inr (unfold_stmt s)"
proof -
  have "expand_each (expandNode k macros) (unfold_stmt s) = Inr (unfold_stmt s)"
    using assms child_size [of _ "unfold_stmt s" "k - 1"] by (intro expand_each_same) (force simp: list_all_iff intro!: expandNode_plain)
  then show ?thesis by (cases s) (auto simp: expand_stmt_def unfold_stmt_def split: macro_error.splits)
qed

lemma expand_stmts_plain:
  "\<forall>s \<in> set ss. list_all plain_node (unfold_stmt s) \<and> size_list size (unfold_stmt s) < k \<Longrightarrow>
    expand_stmts k macros ss = Inr (concat (map unfold_stmt ss))"
  by (induction ss) (simp_all add: expand_stmt_plain)

text \<open>C13. On a program without macro calls, unquotes and comptime expressions expansion ends, whatever macros are
  declared, and does nothing but drop the macro declarations and open the comptime blocks: every other
  statement comes back unchanged, with all its fields.  Calls written with the syntax of function calls
  are never macro calls, so a program that only declares and calls macros keeps its calls.\<close>

theorem ApplyMacroExpansion_plain:
  assumes "\<forall>s \<in> set (pg_Statements prog). list_all plain_node (unfold_stmt s) \<and> size_list size (unfold_stmt s) < k"
  shows "ApplyMacroExpansion k prog = Inr (prog\<lparr>pg_Statements := concat (map unfold_stmt (pg_Statements prog))\<rparr>)"
  using expand_stmts_plain [OF assms] by (simp add: ApplyMacroExpansion_def ExpandProgram_def Let_def)

theorem ApplyMacroExpansion_plain_witness:
  "ApplyMacroExpansion 100 \<lparr>pg_Statements = [MacroDeclStmt ''m'' [''x''] [ExprStmt (Identifier ''x'' 1 0 1) 1] True 1,
      FuncDecl ''main'' [] [] [ExprStmt (CallExpr ''m'' [] [IntLiteral ''1'' 2] False [] 2 0 1) 2] [] [] False [] 2 5 9],
      pg_CImports = [], pg_Imports = []\<rparr> =
    Inr \<lparr>pg_Statements = [FuncDecl ''main'' [] [] [ExprStmt (CallExpr ''m'' [] [IntLiteral ''1'' 2] False [] 2 0 1) 2] [] [] False [] 2 5 9],
      pg_CImports = [], pg_Imports = []\<rparr>"
  by (subst ApplyMacroExpansion_plain) (simp_all add: unfold_stmt_def plain_node.simps)

section \<open>Substitution\<close>


text \<open>A macro that calls itself never ends.\<close>

lemma self_call_diverges:
  "macros m = Some ([], [MacroExpandExpr m [] l]) \<Longrightarrow> expandNode k macros (MacroExpandExpr m [] l) = Inl NoMacroFuel"
  by (induction k) (simp_all add: expand_step_def expandMacroCall_def substituteAndExpand_def)

end
