(* ===== verification/Spec2Isabelle.thy ===== *)
theory Spec2Isabelle
  imports Karkain_Prelude Leb128 Bytecode_IO Bytecode Wasm_Module Wasm_Emitter Go_Strings Semver Lockfile
    Ssa_Ir Ssa_Passes Ssa_Wf Runtime_Values Ssa_Semantics Ssa_Correct Lexer Lexer_Props Formatter Formatter_Props Regalloc Regalloc_Props
    Ast Arena Captures Captures_Props Parser_State Parser_Expr Parser_Stmt Parser Parser_Progress Parser_Total Parser_Fuel Parser_Props
    Parser_Print Parser_Read Parser_Roundtrip Macros
begin

text \<open>
  Verification library for the Karkain compiler (the Go sources under src/pkg).

  \<^bold>\<open>The program.\<close>  Karkain is a compiler driver and tool chain.  Source text goes through the lexer
  (pkg/lexer) to the parser and the semantic checks (pkg/parser, pkg/sema).  From the syntax tree one
  path lowers functions to an SSA form (pkg/ir/ssa), optimises them and prints C on top of a runtime
  that is itself printed as C text (pkg/codegen); other paths write x86-64 code (pkg/native) and
  WebAssembly modules (pkg/wasm), or a bytecode module file (pkg/ir/bytecode.go).  Around this stand
  the formatter (pkg/cli/formatter.go), which runs the lexer on every line, and the package manager
  (pkg/pm), which reads versions, solves constraints and keeps a lock file.

  \<^bold>\<open>Theories and sources.\<close>

  \<^item> \<open>Karkain_Prelude\<close>, \<open>Go_Strings\<close>: machine types, bytes and characters, the functions of Go's
    strings and strconv packages the sources call, shared lemmas and simplification collections.
  \<^item> \<open>Lexer\<close> (pkg/lexer/lexer.go): \<open>Token\<close> and \<open>Lexer\<close> with the fields of the structs, one definition
    per method, \<open>NextToken\<close> with all its branches, \<open>readCBlock\<close>, and \<open>tokens\<close>, the calls up to the end
    of file.  \<open>Lexer_Props\<close> shows that the lexer ends on every input, that token spans are in order
    and inside the text, and that printing a sequence of lexemes with any admissible layout between
    them and reading it back gives these lexemes; beside it stand the inputs on which text or
    positions are lost (line breaks in strings, open comments, NUL bytes, lexemes of 64 KiB).
  \<^item> \<open>Formatter\<close> (pkg/cli/formatter.go): \<open>Canonicalize\<close> and its helpers, the file commands over an
    explicit file state.  \<open>Formatter_Props\<close> shows what each line becomes, that the tokens stay the
    same and formatting is idempotent on sources without block comments and outside two other cases
    (a byte-order mark, a number in front of a dot), that commands touch only the files they name,
    and that the message after formatting a directory is wrong.
  \<^item> \<open>Ssa_Ir\<close>, \<open>Ssa_Passes\<close> (pkg/ir/ssa): the representation, its builder and verifier; folding,
    branch simplification, dead-code elimination; \<open>Optimize\<close>.  \<open>Ssa_Wf\<close> shows that every pass keeps
    what the verifier checks, that the reachable blocks are the right ones and that dead-code
    elimination ends in a fixed point.
  \<^item> \<open>Runtime_Values\<close>, \<open>Ssa_Semantics\<close>, \<open>Ssa_Correct\<close> (the runtime text of pkg/codegen/codegen.go,
    pkg/codegen/emit_ir.go): the C runtime on scalar values, a semantics of SSA functions as the C
    they are printed to, and the refinement theorem: the optimised function computes what the
    original computes, for every machine.  The constants on which folding and the runtime disagree
    are stated as theorems of their own.
  \<^item> \<open>Regalloc\<close> (pkg/native/regalloc.go, parts of program.go): live ranges, their peak, the linear
    scan, the places where the emitter reads and writes an allocated local.  \<open>Regalloc_Props\<close> shows
    that a range covers every mention and every while loop it meets, that two locals in one register
    never live at the same point, when allocation is switched on, and the two places where the
    emitter does not follow the allocation.
  \<^item> \<open>Leb128\<close> (pkg/codegen/dwarf.go, dwarf_parse.go, pkg/wasm/module.go): both implementations of
    LEB128, their readers, round trips and the equality of the writers.
  \<^item> \<open>Wasm_Module\<close>, \<open>Wasm_Emitter\<close> (pkg/wasm/module.go, component.go, emit.go): the module writer
    against a decoder of the binary format, type interning, the component envelope; every method of
    the instruction emitter against a decoder of instructions, and its frame stack.
  \<^item> \<open>Bytecode_IO\<close>, \<open>Bytecode\<close> (pkg/ir/bytecode.go): writer and reader primitives, every section of a
    module file, the round trip, every error of the reader, and the tensor shapes that do not survive.
  \<^item> \<open>Semver\<close>, \<open>Lockfile\<close> (pkg/pm/semver.go, lock.go): versions, their order, constraints and
    selection; the lock file, its round trip and updates.

  \<^bold>\<open>Interfaces.\<close>  The contracts that several components share are locales: \<open>codec\<close> and
  \<open>lossy_codec\<close> (a section writer and its reader), \<open>prefix_code\<close> (LEB128), \<open>byte_format\<close> (WebAssembly
  sections), \<open>comparator\<close> (the version order), \<open>strict_order\<close> (the two sorts of the allocator),
  \<open>lockstep\<close> (a pass as a simulation) and \<open>verified_pass\<close> (a pass and the verifier).  Each is
  interpreted on the definitions of the model in the theory that has them.

  \<^bold>\<open>Parameters.\<close>  Operations on \<open>float64\<close> are a record of functions on bit patterns (\<open>float_ops\<close>); what
  the runtime does on heap values, calls and raw C is a record (\<open>heap_ops\<close>, \<open>machine\<close>); sorting by
  sort.Slice is a function with the contract of that library; the file system is a record of answers
  (\<open>fmt_env\<close>).  Theorems quantify over them.

  \<^bold>\<open>Bounds and termination.\<close>  Recursive definitions are total, with measures: characters left for the
  lexer and the formatter, blocks not yet visited for the search, instructions left for dead-code
  elimination.  \<open>run\<close> counts executed blocks: the refinement theorem relates runs of the same number
  of blocks, so that neither side can return where the other does not.  Token fields have 32 and 16
  bits as in the code; the round trip of the lexer asks for texts that fit them.

  \<^bold>\<open>Not modelled.\<close>  Heap values of the C runtime, the tree-walking C generator, most of the x86-64
  lowering and the image writers, the WebAssembly lowering, semantic analysis, the SSA passes that
  \<open>Optimize\<close> does not run, DWARF beyond LEB128, printing for reports (\<open>DumpModule\<close>,
  \<open>DescribeModule\<close>); the command line, language server, JIT, registries and backends, which are
  input and output, processes, float kernels or text for other tools.
\<close>

end
